(* ===== verification/Prelude.thy ===== *)
theory Prelude
  imports Main "HOL-Library.Word" "HOL-Library.List_Lexorder" "HOL-Library.Monad_Syntax"
    "HOL-Library.Sublist"
begin

section \<open>Prelude: names, automation and generic lemmas\<close>

text \<open>
  The vocabulary every component shares: Go's byte slices and fixed arrays as lists of
  8-bit words, Go's slicing with its bounds panic as an \<^typ>\<open>'a option\<close>, the two ways a
  call can fail to return normally, and lemmas on association lists sorted by key, which
  carry the proofs about the block database.
\<close>

unbundle bit_operations_syntax

subsection \<open>Types\<close>

type_synonym byte = "8 word"
type_synonym bytes = "byte list"
type_synonym hash256 = bytes
type_synonym u16 = "16 word"
type_synonym u32 = "32 word"
type_synonym u64 = "64 word"

text \<open>A Go array \<open>[32]byte\<close> is a list of 32 bytes; the zero value of the type is \<open>zero32\<close>.\<close>

abbreviation is32 :: "bytes \<Rightarrow> bool" where
  "is32 h \<equiv> length h = 32"

definition zero32 :: hash256 where
  "zero32 = replicate 32 0"

text \<open>
  Errors that are returned (Go's \<open>err\<close> values) and the ways a goroutine stops without
  returning: a panic, with its reason, or a loop that never ends.
\<close>

datatype go_error =
    ErrHexTooShort
  | ErrHexTooLong
  | ErrNotHex32
  | ErrStackMalformed
  | ErrKeyMalformed
  | ErrTxMalformed
  | ErrMerkleMalformed
  | ErrUnsignedMerkleMalformed
  | ErrDeciderMalformed
  | ErrTooManyLeaves
  | ErrDestinationRange
  | ErrBranchesLength
  | ErrAddressMismatch
  | ErrGibberish
  | ErrNoHeader
  | ErrNoPath
  | ErrNoBlockFiles
  | ErrExternal string

datatype go_stop =
    PanicBounds
  | PanicChainBroken
  | PanicReorgFailed
  | PanicBatchWrite go_error
  | PanicStoreBlock go_error
  | PanicSanityChain
  | PanicSanityHeight
  | PanicPastCheckpoint
  | PanicCorruptionZero
  | PanicLegacyDB
  | PanicUnknownNetwork
  | PanicWrongBlock
  | PanicNilPointer
  | FatalOpen go_error
  | FatalListen go_error
  | NoReturn

subsection \<open>Slices\<close>

text \<open>
  \<open>data[a:b]\<close>, \<open>data[a:]\<close> and \<open>data[i]\<close>; \<open>None\<close> is the runtime's bounds panic.
  A slice's capacity is taken to be its length.
\<close>

definition slice :: "'a list \<Rightarrow> nat \<Rightarrow> nat \<Rightarrow> 'a list option" where
  "slice xs a b = (if a \<le> b \<and> b \<le> length xs then Some (take (b - a) (drop a xs)) else None)"

definition slice_from :: "'a list \<Rightarrow> nat \<Rightarrow> 'a list option" where
  "slice_from xs a = (if a \<le> length xs then Some (drop a xs) else None)"

definition index :: "'a list \<Rightarrow> nat \<Rightarrow> 'a option" where
  "index xs i = (if i < length xs then Some (xs ! i) else None)"

subsection \<open>Results\<close>

text \<open>Sequencing of calls that may fail: the first failure is the result of the whole.\<close>

definition try_then :: "'e + 'a \<Rightarrow> ('a \<Rightarrow> 'e + 'b) \<Rightarrow> 'e + 'b" where
  "try_then m f = (case m of Inl e \<Rightarrow> Inl e | Inr x \<Rightarrow> f x)"

definition or_else :: "'e \<Rightarrow> 'a option \<Rightarrow> 'e + 'a" where
  "or_else e m = (case m of None \<Rightarrow> Inl e | Some x \<Rightarrow> Inr x)"

named_theorems results \<open>unfolding of the result combinators\<close>

lemma try_then_simps [simp]:
  "try_then (Inl e) f = Inl e"
  "try_then (Inr x) f = f x"
  by (simp_all add: try_then_def)

lemma or_else_simps [simp]:
  "or_else e None = Inl e"
  "or_else e (Some x) = Inr x"
  by (simp_all add: or_else_def)

lemma try_then_eq_Inr [results]:
  "try_then m f = Inr y \<longleftrightarrow> (\<exists>x. m = Inr x \<and> f x = Inr y)"
  by (cases m) auto

lemma or_else_eq_Inr [results]: "or_else e m = Inr x \<longleftrightarrow> m = Some x"
  by (cases m) auto

text \<open>\<open>for _, x := range xs\<close> with a body that threads a state and may fail.\<close>

primrec fold_res :: "('x \<Rightarrow> 's \<Rightarrow> 'e + 's) \<Rightarrow> 'x list \<Rightarrow> 's \<Rightarrow> 'e + 's" where
  "fold_res f [] s = Inr s"
| "fold_res f (x # xs) s = try_then (f x s) (fold_res f xs)"

lemma fold_res_append:
  "fold_res f (xs @ ys) s = try_then (fold_res f xs s) (fold_res f ys)"
proof (induction xs arbitrary: s)
  case (Cons x xs)
  then show ?case by (cases "f x s") simp_all
qed simp

text \<open>A loop that collects one result per element and stops at the first error.\<close>

primrec map_res :: "('x \<Rightarrow> 'e + 'y) \<Rightarrow> 'x list \<Rightarrow> 'e + 'y list" where
  "map_res f [] = Inr []"
| "map_res f (x # xs) = try_then (f x) (\<lambda>y. try_then (map_res f xs) (\<lambda>ys. Inr (y # ys)))"

lemma map_res_Inr_all:
  "(\<And>x. x \<in> set xs \<Longrightarrow> f x = Inr (g x)) \<Longrightarrow> map_res f xs = Inr (map g xs)"
  by (induction xs) auto

lemma map_res_Inr_conv:
  "map_res f xs = Inr ys \<longleftrightarrow> list_all2 (\<lambda>x y. f x = Inr y) xs ys"
proof (induction xs arbitrary: ys)
  case (Cons x xs)
  show ?case
    by (cases ys) (auto simp: results Cons.IH)
qed auto

text \<open>The same two loops where the body can only panic.\<close>

primrec fold_opt :: "('x \<Rightarrow> 's \<Rightarrow> 's option) \<Rightarrow> 'x list \<Rightarrow> 's \<Rightarrow> 's option" where
  "fold_opt f [] s = Some s"
| "fold_opt f (x # xs) s = Option.bind (f x s) (fold_opt f xs)"

lemma fold_opt_append:
  "fold_opt f (xs @ ys) s = Option.bind (fold_opt f xs s) (fold_opt f ys)"
proof (induction xs arbitrary: s)
  case (Cons x xs)
  then show ?case by (cases "f x s") simp_all
qed simp

text \<open>A counted loop whose body can only panic.\<close>

primrec repeat_opt :: "nat \<Rightarrow> ('s \<Rightarrow> 's option) \<Rightarrow> 's \<Rightarrow> 's option" where
  "repeat_opt 0 f s = Some s"
| "repeat_opt (Suc n) f s = Option.bind (f s) (repeat_opt n f)"

text \<open>What one round does to every state is what all rounds do.\<close>

lemma repeat_opt_inv:
  assumes "repeat_opt n f s = Some s'" "P s" "\<And>x y. f x = Some y \<Longrightarrow> P x \<Longrightarrow> P y"
  shows "P s'"
  using assms(1,2) by (induction n arbitrary: s) (auto simp: assms(3) split: bind_splits)

text \<open>A loop that consumes a serialised list, one element per round.\<close>

lemma repeat_opt_consume:
  assumes "\<And>x rest acc. x \<in> set xs \<Longrightarrow> f (ser x @ rest, acc) = Some (rest, g x acc)"
  shows "repeat_opt (length xs) f (concat (map ser xs) @ rest, acc) = Some (rest, fold g xs acc)"
  using assms by (induction xs arbitrary: acc) auto

lemma slice_full [simp]: "n = length xs \<Longrightarrow> slice xs 0 n = Some xs"
  by (simp add: slice_def)

lemma slice_append:
  "a = length xs \<Longrightarrow> b = length xs + length ys \<Longrightarrow> slice (xs @ ys @ zs) a b = Some ys"
  by (simp add: slice_def)

lemma slice_append_mid:
  "length xs \<le> a \<Longrightarrow> slice (xs @ ys) a b = (if a \<le> b then slice ys (a - length xs) (b - length xs) else None)"
  by (auto simp: slice_def)

lemma slice_append_left [simp]:
  "b \<le> length xs \<Longrightarrow> slice (xs @ ys) a b = slice xs a b"
  by (auto simp: slice_def)

lemma slice_length: "slice xs a b = Some ys \<Longrightarrow> length ys = b - a"
  by (auto simp: slice_def split: if_splits)

lemma slice_from_append [simp]: "n = length xs \<Longrightarrow> slice_from (xs @ ys) n = Some ys"
  by (simp add: slice_from_def)

lemma slice_from_length: "slice_from xs n = Some ys \<Longrightarrow> length xs = n + length ys"
  by (auto simp: slice_from_def split: if_splits)

lemma zero32_length [simp]: "length zero32 = 32"
  by (simp add: zero32_def)

subsection \<open>Association lists in strictly ascending key order\<close>

definition ascending :: "('k::linorder \<times> 'v) list \<Rightarrow> bool" where
  "ascending es \<longleftrightarrow> sorted_wrt (<) (map fst es)"

lemma ascending_Nil [simp]: "ascending []"
  by (simp add: ascending_def)

lemma ascending_Cons [simp]:
  "ascending (e # es) \<longleftrightarrow> (\<forall>x \<in> set es. fst e < fst x) \<and> ascending es"
  by (auto simp: ascending_def)

lemma ascending_append:
  "ascending (xs @ ys) \<longleftrightarrow>
     ascending xs \<and> ascending ys \<and> (\<forall>x \<in> set xs. \<forall>y \<in> set ys. fst x < fst y)"
  by (auto simp: ascending_def sorted_wrt_append)

lemma ascending_distinct: "ascending es \<Longrightarrow> distinct (map fst es)"
  by (induction es) auto

lemma ascending_filter: "ascending es \<Longrightarrow> ascending (filter P es)"
  by (induction es) auto

text \<open>Contents determine an ascending list: two of them with the same lookup are equal.\<close>

lemma ascending_unique:
  assumes "ascending xs" "ascending ys" "map_of xs = map_of ys"
  shows "xs = ys"
proof -
  have keys: "set (map fst xs) = set (map fst ys)"
    using assms(3) by (metis dom_map_of_conv_image_fst list.set_map)
  have "map fst xs = map fst ys"
    using assms(1,2) keys
    by (metis ascending_def sorted_list_of_set.idem_if_sorted_distinct strict_sorted_iff)
  moreover have "map snd xs = map snd ys"
  proof (rule nth_equalityI)
    show len: "length (map snd xs) = length (map snd ys)"
      using calculation by (metis length_map)
    fix i assume i: "i < length (map snd xs)"
    have "map_of xs (fst (xs ! i)) = Some (snd (xs ! i))"
      using i ascending_distinct [OF assms(1)] by (simp add: map_of_eq_Some_iff)
    moreover have "fst (xs ! i) = fst (ys ! i)"
      using i len \<open>map fst xs = map fst ys\<close> by (metis length_map nth_map)
    moreover have "map_of ys (fst (ys ! i)) = Some (snd (ys ! i))"
      using i len ascending_distinct [OF assms(2)] by (simp add: map_of_eq_Some_iff)
    ultimately show "map snd xs ! i = map snd ys ! i"
      using i len assms(3) by simp
  qed
  ultimately show ?thesis
    by (metis zip_map_fst_snd)
qed

lemma map_of_ascending_append:
  "ascending (xs @ ys) \<Longrightarrow> map_of (xs @ ys) = map_of xs ++ map_of ys"
  using ascending_distinct [of "xs @ ys"]
  by (auto simp: fun_eq_iff map_add_def map_of_append dest: map_of_SomeD split: option.splits)
     (metis (no_types, lifting) disjoint_iff fst_conv image_eqI map_of_SomeD option.exhaust)

lemma dropWhile_ascending:
  "ascending es \<Longrightarrow> dropWhile (\<lambda>e. fst e < k) es = filter (\<lambda>e. k \<le> fst e) es"
proof (induction es)
  case (Cons e es)
  then show ?case
    by (auto simp: not_less not_le intro!: filter_True [symmetric] dest: order_le_less_trans less_imp_le)
qed simp

lemma map_of_filter_key:
  "map_of (filter (\<lambda>e. P (fst e)) es) = (map_of es) |` {k. P k}"
  by (induction es) (auto simp: restrict_map_def fun_eq_iff)

end
