(* ===== verification/Config.thy ===== *)
theory Config
  imports Prelude
begin

section \<open>config.go: node modes and flags\<close>

text \<open>
  The flags with their defaults; \<open>iniflags\<close> replaces them from \<open>config.ini\<close> and the command
  line. A Go \<open>uint\<close> is a natural number here: the flags are only compared and printed.
\<close>

definition FULL_NODE :: nat where
  "FULL_NODE = 0"

definition MID_NODE :: nat where
  "MID_NODE = 1"

definition MID_NODE_REMOTE :: nat where
  "MID_NODE_REMOTE = 2"

definition LIGHT_NODE :: nat where
  "LIGHT_NODE = 3"

lemmas node_modes = FULL_NODE_def MID_NODE_def MID_NODE_REMOTE_def LIGHT_NODE_def

record flags =
  btc_peer :: string
  btc_port :: nat
  btc_data :: string
  comb_host :: string
  comb_port :: nat
  comb_network :: string
  comb_fingerprint_index :: bool
  public_api_bind :: string
  private_api_bind :: string
  node_mode :: nat

definition default_flags :: flags where
  "default_flags =
     \<lparr>btc_peer = ''127.0.0.1'', btc_port = 8332, btc_data = '''', comb_host = ''127.0.0.1'',
      comb_port = 2211, comb_network = ''mainnet'', comb_fingerprint_index = False,
      public_api_bind = '''', private_api_bind = '''', node_mode = 0\<rparr>"

end
