(* ===== verification/Byte_Order.thy ===== *)
theory Byte_Order
  imports Prelude
begin

section \<open>Fixed-width integers as bytes\<close>

text \<open>
  The operations of Go's \<open>encoding/binary\<close> that the sources call:
  \<open>BigEndian.PutUint16/32/64\<close>, \<open>BigEndian.Uint16/32/64\<close> and
  \<open>LittleEndian.Uint16/32/64\<close>. Reads panic on a slice that is too short. The lemma
  that matters is \<open>be_bytes_less\<close>: on keys of one width, the byte-wise order of
  LevelDB is the numeric order of the heights the keys encode.
\<close>

fun be_bytes :: "nat \<Rightarrow> nat \<Rightarrow> bytes" where
  "be_bytes 0 v = []"
| "be_bytes (Suc n) v = word_of_nat (v div 256 ^ n) # be_bytes n v"

fun be_val :: "bytes \<Rightarrow> nat" where
  "be_val [] = 0"
| "be_val (b # bs) = unat b * 256 ^ length bs + be_val bs"

definition put_be16 :: "u16 \<Rightarrow> bytes" where
  "put_be16 v = be_bytes 2 (unat v)"

definition put_be32 :: "u32 \<Rightarrow> bytes" where
  "put_be32 v = be_bytes 4 (unat v)"

definition put_be64 :: "u64 \<Rightarrow> bytes" where
  "put_be64 v = be_bytes 8 (unat v)"

definition get_be16 :: "bytes \<Rightarrow> u16 option" where
  "get_be16 bs = map_option (\<lambda>x. word_of_nat (be_val x)) (slice bs 0 2)"

definition get_be32 :: "bytes \<Rightarrow> u32 option" where
  "get_be32 bs = map_option (\<lambda>x. word_of_nat (be_val x)) (slice bs 0 4)"

definition get_be64 :: "bytes \<Rightarrow> u64 option" where
  "get_be64 bs = map_option (\<lambda>x. word_of_nat (be_val x)) (slice bs 0 8)"

definition get_le16 :: "bytes \<Rightarrow> u16 option" where
  "get_le16 bs = map_option (\<lambda>x. word_of_nat (be_val (rev x))) (slice bs 0 2)"

definition get_le32 :: "bytes \<Rightarrow> u32 option" where
  "get_le32 bs = map_option (\<lambda>x. word_of_nat (be_val (rev x))) (slice bs 0 4)"

definition get_le64 :: "bytes \<Rightarrow> u64 option" where
  "get_le64 bs = map_option (\<lambda>x. word_of_nat (be_val (rev x))) (slice bs 0 8)"

subsection \<open>Values and digits\<close>

lemma be_bytes_length [simp]: "length (be_bytes n v) = n"
  by (induction n) auto

lemma be_bytes_numeral:
  "be_bytes (numeral k) v = word_of_nat (v div 256 ^ pred_numeral k) # be_bytes (pred_numeral k) v"
  by (simp add: numeral_eq_Suc)

lemma be_val_bound: "be_val bs < 256 ^ length bs"
proof (induction bs)
  case (Cons b bs)
  have "unat b < 256"
    using unsigned_less [of b, where ?'a = nat] by simp
  then have "unat b * 256 ^ length bs + 256 ^ length bs \<le> 256 * 256 ^ length bs"
    by (metis Suc_leI add.commute mult_Suc mult_le_mono1)
  moreover have "unat b * 256 ^ length bs + be_val bs < unat b * 256 ^ length bs + 256 ^ length bs"
    using Cons.IH by simp
  ultimately show ?case
    by (simp only: be_val.simps list.size power_add power_Suc power_0)
qed simp

lemma be_val_bytes: "be_val (be_bytes n v) = v mod 256 ^ n"
proof (induction n)
  case (Suc n)
  have "unat (word_of_nat (v div 256 ^ n) :: byte) = v div 256 ^ n mod 256"
    by (simp add: unat_of_nat)
  moreover have "v mod (256 ^ n * 256) = 256 ^ n * (v div 256 ^ n mod 256) + v mod 256 ^ n"
    by (rule mod_mult2_eq)
  ultimately show ?case
    using Suc.IH by (simp add: mult.commute)
qed simp

lemma be_val_inject:
  assumes "length xs = length ys" "be_val xs = be_val ys"
  shows "xs = ys"
  using assms
proof (induction xs ys rule: list_induct2)
  case (Cons x xs y ys)
  let ?p = "(256::nat) ^ length ys"
  have bx: "be_val xs < ?p" and by': "be_val ys < ?p"
    using be_val_bound [of xs] be_val_bound [of ys] Cons.hyps by auto
  have eq: "unat x * ?p + be_val xs = unat y * ?p + be_val ys"
    using Cons.prems Cons.hyps by simp
  have "(unat x * ?p + be_val xs) div ?p = unat x" "(unat y * ?p + be_val ys) div ?p = unat y"
    using bx by' by simp_all
  then have "x = y"
    using eq by (simp add: word_unat_eq_iff)
  with eq have "be_val xs = be_val ys" by simp
  with \<open>x = y\<close> Cons.IH show ?case by simp
qed simp

lemma be_bytes_val: "be_bytes (length bs) (be_val bs) = bs"
  by (rule be_val_inject) (simp_all add: be_val_bytes be_val_bound)

lemma be_bytes_inject:
  "v < 256 ^ n \<Longrightarrow> w < 256 ^ n \<Longrightarrow> be_bytes n v = be_bytes n w \<longleftrightarrow> v = w"
  by (metis be_val_bytes mod_less)

lemma be_val_less:
  assumes "length xs = length ys"
  shows "xs < ys \<longleftrightarrow> be_val xs < be_val ys"
  using assms
proof (induction xs ys rule: list_induct2)
  case (Cons x xs y ys)
  let ?p = "(256::nat) ^ length ys"
  have bx: "be_val xs < ?p" and by': "be_val ys < ?p"
    using be_val_bound [of xs] be_val_bound [of ys] Cons.hyps by auto
  show ?case
  proof (cases "unat x" "unat y" rule: linorder_cases)
    case less
    then have "Suc (unat x) * ?p \<le> unat y * ?p"
      by (intro mult_le_mono1) simp
    with bx have "unat x * ?p + be_val xs < unat y * ?p + be_val ys" by simp
    with less Cons.hyps show ?thesis by (simp add: word_less_nat_alt)
  next
    case equal
    then have "x = y" by (simp add: word_unat_eq_iff)
    with Cons.IH Cons.hyps show ?thesis by simp
  next
    case greater
    then have "Suc (unat y) * ?p \<le> unat x * ?p"
      by (intro mult_le_mono1) simp
    with by' have "unat y * ?p + be_val ys < unat x * ?p + be_val xs" by simp
    with greater Cons.hyps show ?thesis by (auto simp: word_less_nat_alt)
  qed
qed simp

lemma be_bytes_less:
  "v < 256 ^ n \<Longrightarrow> w < 256 ^ n \<Longrightarrow> be_bytes n v < be_bytes n w \<longleftrightarrow> v < w"
  by (simp add: be_val_less be_val_bytes)

subsection \<open>The encoders at their width\<close>

lemma unat_u64_bound [simp]: "unat (v :: u64) < 18446744073709551616"
  using unsigned_less [of v, where ?'a = nat] by simp

lemma unat_u32_bound [simp]: "unat (v :: u32) < 4294967296"
  using unsigned_less [of v, where ?'a = nat] by simp

lemma unat_u16_bound [simp]: "unat (v :: u16) < 65536"
  using unsigned_less [of v, where ?'a = nat] by simp

lemma put_be_length [simp]:
  "length (put_be16 v) = 2" "length (put_be32 w) = 4" "length (put_be64 x) = 8"
  by (simp_all add: put_be16_def put_be32_def put_be64_def)

lemma be_val_put_be [simp]:
  "be_val (put_be16 v) = unat v" "be_val (put_be32 w) = unat w" "be_val (put_be64 x) = unat x"
  by (simp_all add: put_be16_def put_be32_def put_be64_def be_val_bytes)

lemma get_put_be16 [simp]: "get_be16 (put_be16 v @ bs) = Some v"
  by (simp add: get_be16_def)

lemma get_put_be32 [simp]: "get_be32 (put_be32 v @ bs) = Some v"
  by (simp add: get_be32_def)

lemma get_put_be64 [simp]: "get_be64 (put_be64 v @ bs) = Some v"
  by (simp add: get_be64_def)

lemma get_put_be_exact [simp]:
  "get_be16 (put_be16 v) = Some v" "get_be32 (put_be32 w) = Some w" "get_be64 (put_be64 x) = Some x"
  using get_put_be16 [of v "[]"] get_put_be32 [of w "[]"] get_put_be64 [of x "[]"] by simp_all

lemma get_le_rev [simp]:
  "get_le16 (rev (put_be16 v) @ bs) = Some v"
  "get_le32 (rev (put_be32 w) @ bs) = Some w"
  "get_le64 (rev (put_be64 x) @ bs) = Some x"
  by (simp_all add: get_le16_def get_le32_def get_le64_def)

lemma put_be64_inject [simp]: "put_be64 v = put_be64 w \<longleftrightarrow> v = w"
  by (metis get_put_be_exact(3) option.inject)

lemma put_be32_inject [simp]: "put_be32 v = put_be32 w \<longleftrightarrow> v = w"
  by (metis get_put_be_exact(2) option.inject)

lemma put_be64_less [simp]: "put_be64 v < put_be64 w \<longleftrightarrow> v < w"
  by (simp add: be_val_less word_less_nat_alt)

lemma put_be64_le [simp]: "put_be64 v \<le> put_be64 w \<longleftrightarrow> v \<le> w"
  by (metis put_be64_less linorder_not_less)

lemma put_be32_less [simp]: "put_be32 v < put_be32 w \<longleftrightarrow> v < w"
  by (simp add: be_val_less word_less_nat_alt)

subsection \<open>Byte-wise order of strings with a common-width head\<close>

lemma list_less_append_same:
  "length xs = length ys \<Longrightarrow> xs @ us < ys @ vs \<longleftrightarrow> xs < ys \<or> xs = ys \<and> us < vs"
  for xs ys :: "'a::linorder list"
  by (induction xs ys rule: list_induct2) auto

lemma list_less_prefix: "ys \<noteq> [] \<Longrightarrow> xs < xs @ ys" for xs :: "'a::linorder list"
  by (induction xs) (auto simp: neq_Nil_conv)

end
