(* ===== verification/Util.thy ===== *)
theory Util
  imports Byte_Order
begin

section \<open>util.go: hexadecimal, XOR and fixed-width helpers\<close>

text \<open>
  Go strings are byte strings, modelled by \<^typ>\<open>string\<close> (one \<^typ>\<open>char\<close> per byte);
  \<open>[]byte(s)\<close> is \<open>bytes_of s\<close>. \<open>strings.ToUpper\<close> is modelled on ASCII, which is
  all that can matter here: upper-casing a letter outside ASCII never gives a hex digit,
  so such a string is refused by \<open>checkHEX32\<close> whatever its other bytes are.
\<close>

definition bytes_of :: "string \<Rightarrow> bytes" where
  "bytes_of s = map of_char s"

definition upper_char :: "char \<Rightarrow> char" where
  "upper_char c = (if 97 \<le> (of_char c :: nat) \<and> (of_char c :: nat) \<le> 122
                   then char_of ((of_char c :: nat) - 32) else c)"

definition to_upper :: "string \<Rightarrow> string" where
  "to_upper s = map upper_char s"

text \<open>Decimal digits, as \<open>%d\<close> prints them.\<close>

function fmt_d :: "nat \<Rightarrow> string" where
  "fmt_d n = (if n < 10 then [char_of (48 + n)] else fmt_d (n div 10) @ [char_of (48 + n mod 10)])"
  by pat_completeness auto
termination
  by (relation "measure id") auto

declare fmt_d.simps [simp del]

subsection \<open>Parsing\<close>

definition is_hex_char :: "char \<Rightarrow> bool" where
  "is_hex_char c \<longleftrightarrow> (48 \<le> (of_char c :: nat) \<and> (of_char c :: nat) \<le> 57)
                   \<or> (65 \<le> (of_char c :: nat) \<and> (of_char c :: nat) \<le> 70)"

definition checkHEX :: "string \<Rightarrow> nat \<Rightarrow> bool" where
  "checkHEX b n = (if length b \<noteq> 2 * n then False
                   else list_all (\<lambda>i. is_hex_char (b ! i)) [0..<2 * n])"

definition checkHEX32 :: "string \<Rightarrow> go_error option" where
  "checkHEX32 b = (if checkHEX b 32 then None else Some ErrNotHex32)"

definition x2b :: "byte \<Rightarrow> byte" where
  "x2b hex = (hex AND 15) + 9 * drop_bit 6 hex"

definition hex2byte32 :: "bytes \<Rightarrow> hash256 option" where
  "hex2byte32 hex =
     (if length hex < 64 then None
      else Some (map (\<lambda>i. push_bit 4 (x2b (hex ! (2 * i))) OR x2b (hex ! (2 * i + 1))) [0..<32]))"

definition hex2byte :: "bytes \<Rightarrow> bytes" where
  "hex2byte hex =
     map (\<lambda>i. push_bit 4 (x2b (hex ! (2 * i))) OR x2b (hex ! (2 * i + 1))) [0..<length hex div 2]"

text \<open>
  The bounds panic of \<open>hex2byte32\<close> cannot occur in \<open>parse_hex\<close>
  (\<open>parse_hex_in_bounds\<close> below), so its branch carries an arbitrary error.
\<close>

definition parse_hex :: "string \<Rightarrow> go_error + hash256" where
  "parse_hex hex =
     (if length hex < 64 then Inl ErrHexTooShort
      else if length hex > 64 then Inl ErrHexTooLong
      else let hex = to_upper hex in
        case checkHEX32 hex of
          Some err \<Rightarrow> Inl err
        | None \<Rightarrow> or_else ErrNotHex32 (hex2byte32 (bytes_of hex)))"

subsection \<open>Printing\<close>

text \<open>\<open>fmt\<close>'s \<open>%X\<close> and \<open>%x\<close> of a byte array: two digits per byte.\<close>

definition hex_digits :: "string \<Rightarrow> byte \<Rightarrow> string" where
  "hex_digits ds b = [ds ! unat (drop_bit 4 b), ds ! unat (b AND 15)]"

definition fmt_X :: "bytes \<Rightarrow> string" where
  "fmt_X bs = concat (map (hex_digits ''0123456789ABCDEF'') bs)"

definition fmt_x :: "bytes \<Rightarrow> string" where
  "fmt_x bs = concat (map (hex_digits ''0123456789abcdef'') bs)"

definition stringify_hex :: "hash256 \<Rightarrow> string" where
  "stringify_hex hex = fmt_X hex"

subsection \<open>Arrays and integers\<close>

definition xor_hex :: "hash256 \<Rightarrow> hash256 \<Rightarrow> hash256" where
  "xor_hex a b = map2 (XOR) a b"

definition uint64_to_bytes :: "u64 \<Rightarrow> bytes" where
  "uint64_to_bytes v =
     [ucast (drop_bit 56 v mod 256), ucast (drop_bit 48 v mod 256),
      ucast (drop_bit 40 v mod 256), ucast (drop_bit 32 v mod 256),
      ucast (drop_bit 24 v mod 256), ucast (drop_bit 16 v mod 256),
      ucast (drop_bit 8 v mod 256), ucast (drop_bit 0 v mod 256)]"

definition bytes_to_uint64 :: "bytes \<Rightarrow> u64" where
  "bytes_to_uint64 v =
     (let out = 0;
          out = push_bit 8 (out + ucast (v ! 0));
          out = push_bit 8 (out + ucast (v ! 1));
          out = push_bit 8 (out + ucast (v ! 2));
          out = push_bit 8 (out + ucast (v ! 3));
          out = push_bit 8 (out + ucast (v ! 4));
          out = push_bit 8 (out + ucast (v ! 5));
          out = push_bit 8 (out + ucast (v ! 6))
      in out + ucast (v ! 7))"

definition uint16_to_bytes :: "u16 \<Rightarrow> bytes" where
  "uint16_to_bytes v = [ucast (drop_bit 8 v mod 256), ucast (v mod 256)]"

definition bytes_to_uint16 :: "bytes \<Rightarrow> u16" where
  "bytes_to_uint16 v =
     (let out = 0;
          out = push_bit 8 (out + ucast (v ! 0))
      in out + ucast (v ! 1))"

text \<open>
  The in-place reversal by two indices; the same loop reverses traced chains in
  \<open>btc_direct.go\<close> and \<open>btc_rest.go\<close>.
\<close>

function swap_loop :: "nat \<Rightarrow> nat \<Rightarrow> 'a list \<Rightarrow> 'a list" where
  "swap_loop i j d = (if i < j then swap_loop (i + 1) (j - 1) (d[i := d ! j, j := d ! i]) else d)"
  by pat_completeness auto
termination
  by (relation "measure (\<lambda>(i, j, d). j - i)") auto

declare swap_loop.simps [simp del]

definition reverse_in_place :: "'a list \<Rightarrow> 'a list" where
  "reverse_in_place d = swap_loop 0 (length d - 1) d"

definition swap_endian :: "hash256 \<Rightarrow> hash256" where
  "swap_endian d = reverse_in_place d"

subsection \<open>Reversal\<close>

lemma swap_loop_length [simp]: "length (swap_loop i j d) = length d"
  by (induction i j d rule: swap_loop.induct) (subst swap_loop.simps, simp)

lemma swap_loop_nth:
  "j < length d \<Longrightarrow> k < length d \<Longrightarrow>
     swap_loop i j d ! k = (if i \<le> k \<and> k \<le> j then d ! (i + j - k) else d ! k)"
proof (induction i j d rule: swap_loop.induct)
  case (1 i j d)
  show ?case
  proof (cases "i < j")
    case True
    have "swap_loop i j d ! k = swap_loop (i + 1) (j - 1) (d[i := d ! j, j := d ! i]) ! k"
      using True by (simp add: swap_loop.simps [of i j d])
    also have "\<dots> = (if i + 1 \<le> k \<and> k \<le> j - 1 then d[i := d ! j, j := d ! i] ! (i + 1 + (j - 1) - k)
                    else d[i := d ! j, j := d ! i] ! k)"
      using "1.IH" "1.prems" True by simp
    also have "\<dots> = (if i \<le> k \<and> k \<le> j then d ! (i + j - k) else d ! k)"
      using "1.prems" True by (auto simp: nth_list_update)
    finally show ?thesis .
  next
    case False
    then have "i \<le> k \<and> k \<le> j \<Longrightarrow> i + j - k = k" by auto
    with False show ?thesis
      by (simp add: swap_loop.simps [of i j d])
  qed
qed

lemma reverse_in_place_rev [simp]: "reverse_in_place d = rev d"
proof (cases "d = []")
  case False
  then show ?thesis
    by (intro nth_equalityI) (auto simp: reverse_in_place_def swap_loop_nth rev_nth)
qed (simp add: reverse_in_place_def swap_loop.simps)

lemma swap_endian_rev: "swap_endian d = rev d"
  by (simp add: swap_endian_def)

subsection \<open>Hexadecimal digits\<close>

lemma all_below_16: "(\<forall>n<16. P n) \<longleftrightarrow> list_all P [0..<16]" for P :: "nat \<Rightarrow> bool"
  by (auto simp: list_all_iff)

lemma hex_digit_upper:
  "\<forall>n<16. is_hex_char (''0123456789ABCDEF'' ! n)
          \<and> upper_char (''0123456789ABCDEF'' ! n) = ''0123456789ABCDEF'' ! n
          \<and> upper_char (''0123456789abcdef'' ! n) = ''0123456789ABCDEF'' ! n
          \<and> x2b (of_char (''0123456789ABCDEF'' ! n)) = word_of_nat n"
  unfolding all_below_16 by code_simp

text \<open>Every digit \<open>checkHEX\<close> accepts is one of the sixteen \<open>%X\<close> prints.\<close>

lemma is_hex_char_digit:
  assumes "is_hex_char c"
  shows "\<exists>n<16. c = ''0123456789ABCDEF'' ! n"
proof -
  have all: "\<forall>m \<in> set ([48..<58] @ [65..<71]). \<exists>n \<in> set [0..<16]. char_of m = ''0123456789ABCDEF'' ! n"
    by code_simp
  have "(of_char c :: nat) \<in> set ([48..<58] @ [65..<71])"
    using assms unfolding is_hex_char_def set_append set_upt by auto
  with all have "\<exists>n \<in> set [0..<16]. char_of (of_char c :: nat) = ''0123456789ABCDEF'' ! n"
    by blast
  then show ?thesis by auto
qed

lemma nibble_unat:
  "unat (drop_bit 4 b) < 16" "unat (b AND 15) < 16" for b :: byte
proof -
  show "unat (drop_bit 4 b) < 16"
    using unsigned_less [of b, where ?'a = nat]
    by (simp only: unsigned_drop_bit_eq) (simp add: drop_bit_eq_div take_bit_eq_mod)
  show "unat (b AND 15) < 16"
  proof -
    have "unat (b AND 15) = take_bit 4 (unat b)"
      by (simp add: unsigned_and_eq take_bit_eq_mask mask_eq_exp_minus_1)
    then show ?thesis
      using take_bit_nat_less_exp [of 4 "unat b"] by simp
  qed
qed

lemma nibbles_join: "push_bit 4 (drop_bit 4 b) OR (b AND 15) = b" for b :: byte
proof -
  have "push_bit 4 (drop_bit 4 b) OR take_bit 4 b = b"
    by (rule bit_eqI) (auto simp: bit_simps)
  then show ?thesis
    by (simp add: take_bit_eq_mask mask_eq_exp_minus_1)
qed

lemma hex2byte_Nil [simp]: "hex2byte [] = []"
  by (simp add: hex2byte_def)

lemma hex2byte_Cons2 [simp]:
  "hex2byte (h # l # r) = (push_bit 4 (x2b h) OR x2b l) # hex2byte r"
  by (simp add: hex2byte_def upt_conv_Cons del: upt_Suc flip: map_Suc_upt)

lemma bytes_of_simps [simp]:
  "bytes_of [] = []" "bytes_of (c # s) = of_char c # bytes_of s"
  "bytes_of (s @ t) = bytes_of s @ bytes_of t" "length (bytes_of s) = length s"
  by (simp_all add: bytes_of_def)

lemma fmt_X_simps [simp]:
  "fmt_X [] = []"
  "fmt_X (b # bs) = ''0123456789ABCDEF'' ! unat (drop_bit 4 b) # ''0123456789ABCDEF'' ! unat (b AND 15) # fmt_X bs"
  by (simp_all add: fmt_X_def hex_digits_def)

lemma fmt_x_simps [simp]:
  "fmt_x [] = []"
  "fmt_x (b # bs) = ''0123456789abcdef'' ! unat (drop_bit 4 b) # ''0123456789abcdef'' ! unat (b AND 15) # fmt_x bs"
  by (simp_all add: fmt_x_def hex_digits_def)

lemma fmt_X_append [simp]: "fmt_X (xs @ ys) = fmt_X xs @ fmt_X ys"
  by (simp add: fmt_X_def)

lemma fmt_X_length [simp]: "length (fmt_X bs) = 2 * length bs"
  by (induction bs) auto

lemma fmt_x_length [simp]: "length (fmt_x bs) = 2 * length bs"
  by (induction bs) auto

lemma fmt_X_hex_chars: "list_all is_hex_char (fmt_X bs)"
proof (induction bs)
  case (Cons b bs)
  then show ?case
    using hex_digit_upper nibble_unat [of b] by (auto simp del: nth_Cons_numeral)
qed simp

lemma to_upper_simps [simp]: "to_upper [] = []" "to_upper (c # s) = upper_char c # to_upper s"
  "length (to_upper s) = length s"
  by (simp_all add: to_upper_def)

lemma to_upper_fmt: "to_upper (fmt_X bs) = fmt_X bs" "to_upper (fmt_x bs) = fmt_X bs"
  using hex_digit_upper nibble_unat by (induction bs) (auto simp del: nth_Cons_numeral)

lemma hex2byte_fmt_X [simp]: "hex2byte (bytes_of (fmt_X bs)) = bs"
proof (induction bs)
  case (Cons b bs)
  have "x2b (of_char (''0123456789ABCDEF'' ! unat (drop_bit 4 b))) = drop_bit 4 b"
       "x2b (of_char (''0123456789ABCDEF'' ! unat (b AND 15))) = b AND 15"
    using hex_digit_upper nibble_unat [of b] by (auto simp del: nth_Cons_numeral)
  with Cons show ?case
    by (simp only: fmt_X_simps bytes_of_simps hex2byte_Cons2 nibbles_join)
qed simp

subsection \<open>Parsing inverts printing, and accepts nothing else\<close>

lemma checkHEX_iff: "checkHEX s n \<longleftrightarrow> length s = 2 * n \<and> list_all is_hex_char s"
  by (auto simp: checkHEX_def list_all_iff all_set_conv_all_nth)

lemma hex2byte32_eq: "length hex = 64 \<Longrightarrow> hex2byte32 hex = Some (hex2byte hex)"
  by (simp add: hex2byte32_def hex2byte_def)

lemma parse_hex_in_bounds: "checkHEX s 32 \<Longrightarrow> hex2byte32 (bytes_of s) \<noteq> None"
  by (simp add: checkHEX_iff hex2byte32_eq)

lemma hex2byte_length [simp]: "length (hex2byte hex) = length hex div 2"
  by (simp add: hex2byte_def)

lemma hex_chars_fmt_X:
  "list_all is_hex_char s \<Longrightarrow> even (length s) \<Longrightarrow> fmt_X (hex2byte (bytes_of s)) = s"
proof (induction s rule: induct_list012)
  case (3 c d s)
  obtain m n where mn: "m < 16" "n < 16"
    and cd: "c = ''0123456789ABCDEF'' ! m" "d = ''0123456789ABCDEF'' ! n"
    using is_hex_char_digit "3.prems" by (metis list.pred_inject(2))
  have x: "x2b (of_char c) = word_of_nat m" "x2b (of_char d) = word_of_nat n"
    using hex_digit_upper mn cd by blast+
  let ?b = "push_bit 4 (word_of_nat m) OR word_of_nat n :: byte"
  have digs: "unat (drop_bit 4 ?b) = m \<and> unat (?b AND 15) = n"
  proof -
    have "list_all (\<lambda>m. list_all (\<lambda>n. unat (drop_bit 4 (push_bit 4 (word_of_nat m) OR word_of_nat n :: byte)) = m
            \<and> unat ((push_bit 4 (word_of_nat m) OR word_of_nat n :: byte) AND 15) = n) [0..<16]) [0..<16]"
      by code_simp
    then show ?thesis
      unfolding list_all_iff set_upt using mn by (metis atLeastLessThan_iff zero_le)
  qed
  have "fmt_X (hex2byte (bytes_of s)) = s"
    using "3.IH"(1) "3.prems" by simp
  with digs x cd show ?case
    by (simp only: bytes_of_simps hex2byte_Cons2 fmt_X_simps)
qed simp_all

lemma parse_hex_upper:
  assumes "parse_hex s = Inr h"
  shows "is32 h \<and> to_upper s = stringify_hex h"
proof -
  have len: "length s = 64" and chk: "checkHEX (to_upper s) 32"
    and hex: "hex2byte32 (bytes_of (to_upper s)) = Some h"
    using assms by (auto simp: parse_hex_def Let_def checkHEX32_def results split: if_splits option.splits)
  then have "h = hex2byte (bytes_of (to_upper s))"
    by (simp add: hex2byte32_eq)
  with len chk show "is32 h \<and> to_upper s = stringify_hex h"
    by (simp add: checkHEX_iff stringify_hex_def hex_chars_fmt_X)
qed

text \<open>
  \<open>parse_hex\<close> accepts exactly the strings whose upper-case form is what
  \<open>stringify_hex\<close> prints for a 32-byte value, and returns that value. So it inverts
  \<open>stringify_hex\<close>, accepts lower case too, and never returns a value of another length.
\<close>

theorem parse_hex_iff:
  "parse_hex s = Inr h \<longleftrightarrow> is32 h \<and> to_upper s = stringify_hex h"
proof (rule iffI, erule parse_hex_upper)
  assume h: "is32 h \<and> to_upper s = stringify_hex h"
  then have "length s = 64"
    by (metis fmt_X_length stringify_hex_def to_upper_simps(3) mult_numeral_left_semiring_numeral
        num_double numeral_times_numeral)
  with h show "parse_hex s = Inr h"
    by (simp add: parse_hex_def checkHEX32_def checkHEX_iff stringify_hex_def fmt_X_hex_chars
        hex2byte32_eq)
qed

lemma parse_stringify [simp]: "is32 h \<Longrightarrow> parse_hex (stringify_hex h) = Inr h"
  by (simp add: parse_hex_def checkHEX32_def checkHEX_iff stringify_hex_def fmt_X_hex_chars
      hex2byte32_eq to_upper_fmt)

lemma parse_hex_is32: "parse_hex s = Inr h \<Longrightarrow> is32 h"
  by (auto simp: parse_hex_def Let_def results hex2byte32_def split: if_splits option.splits)

text \<open>
  The error \<open>parse_hex\<close> returns says what is wrong: too short, too long, or 64
  characters one of which is not a hexadecimal digit in either case; there is no other error.
\<close>

lemma parse_hex_errors:
  "parse_hex s =
     (if length s < 64 then Inl ErrHexTooShort
      else if length s > 64 then Inl ErrHexTooLong
      else if \<not> list_all (\<lambda>c. is_hex_char (upper_char c)) s then Inl ErrNotHex32
      else Inr (hex2byte (bytes_of (to_upper s))))"
proof -
  have "list_all is_hex_char (to_upper s) \<longleftrightarrow> list_all (\<lambda>c. is_hex_char (upper_char c)) s"
    by (simp add: to_upper_def list_all_iff)
  then show ?thesis
    by (auto simp: parse_hex_def Let_def checkHEX32_def checkHEX_iff hex2byte32_eq)
qed

subsection \<open>The hand-written integer codecs\<close>

lemma unat_drop_bit: "unat (drop_bit n v) = unat v div 2 ^ n" for v :: "'a::len word"
  by (simp only: unsigned_drop_bit_eq) (simp add: drop_bit_eq_div take_bit_eq_mod)

lemma byte_at:
  "(ucast (drop_bit n v mod 256) :: byte) = word_of_nat (unat v div 2 ^ n)"
  "(ucast (drop_bit n w mod 256) :: byte) = word_of_nat (unat w div 2 ^ n)"
  for v :: u64 and w :: u16
  using unat_drop_bit [of n v] unat_drop_bit [of n w]
  by (simp_all add: word_unat_eq_iff unsigned_ucast_eq unat_mod_distrib unat_of_nat take_bit_eq_mod)

lemma uint64_to_bytes_put: "uint64_to_bytes v = put_be64 v"
  unfolding uint64_to_bytes_def put_be64_def byte_at by (simp add: be_bytes_numeral)

lemma uint16_to_bytes_put: "uint16_to_bytes v = put_be16 v"
  unfolding uint16_to_bytes_def put_be16_def
  using byte_at(2) [of 8 v] byte_at(2) [of 0 v] by (simp add: be_bytes_numeral)

lemma push_bit_8: "push_bit 8 v = v * 256" for v :: "'a::len word"
  by (simp add: push_bit_eq_mult)

lemma ucast_byte: "(ucast b :: 'a::len word) = word_of_nat (unat b)" for b :: byte
  by simp

lemma length_8_conv: "length v = 8 \<Longrightarrow> \<exists>a b c d e f g h. v = [a, b, c, d, e, f, g, h]"
  by (auto simp: length_Suc_conv numeral_eq_Suc)

lemma bytes_to_uint64_get:
  assumes "length v = 8"
  shows "bytes_to_uint64 v = word_of_nat (be_val v)"
proof -
  obtain a b c d e f g h where v: "v = [a, b, c, d, e, f, g, h]"
    using length_8_conv [OF assms] by blast
  show ?thesis
    unfolding v bytes_to_uint64_def Let_def push_bit_8 ucast_byte
    by (simp add: algebra_simps)
qed

lemma bytes_to_uint16_get: "length v = 2 \<Longrightarrow> bytes_to_uint16 v = word_of_nat (be_val v)"
proof -
  assume "length v = 2"
  then obtain a b where v: "v = [a, b]"
    by (auto simp: length_Suc_conv numeral_eq_Suc)
  show ?thesis
    unfolding v bytes_to_uint16_def Let_def push_bit_8 ucast_byte
    by (simp add: algebra_simps)
qed

text \<open>
  The hand-written big-endian codecs agree with \<open>encoding/binary\<close>:
  \<open>uint64_to_bytes\<close> and \<open>uint16_to_bytes\<close> give the bytes \<open>PutUint64\<close> and
  \<open>PutUint16\<close> store, and the readers invert them at every value of the width.
\<close>

theorem integer_codecs:
  "uint64_to_bytes v = put_be64 v \<and> bytes_to_uint64 (uint64_to_bytes v) = v \<and>
   uint16_to_bytes w = put_be16 w \<and> bytes_to_uint16 (uint16_to_bytes w) = w"
  by (simp add: uint64_to_bytes_put uint16_to_bytes_put bytes_to_uint64_get bytes_to_uint16_get)

end
