(* ===== verification/LevelDB.thy ===== *)
theory LevelDB
  imports Byte_Order
begin

section \<open>The interface of LevelDB\<close>

text \<open>
  The block database is a \<open>goleveldb\<close> store, which is third-party code: the model takes
  its operations as a record \<open>L\<close> over an abstract database type \<open>'d\<close>, and the locale
  \<open>leveldb_store\<close> states the documented behaviour the sources rely on: an iterator visits
  the pairs in strictly ascending byte order of the keys; \<open>Seek\<close>, a \<open>Range\<close> and
  \<open>BytesPrefix\<close> select from that order; a write applies the batch's records in sequence.
  \<open>reliable_store\<close> adds that writes and iterations do not fail.

  \<open>ldb_reuse old new\<close> is what a slice that held the value \<open>old\<close> contains once the
  iterator has moved on to a pair with the value \<open>new\<close>: the documentation says only that
  its contents may change, so no law constrains it here.
\<close>

datatype batch_op = Put bytes bytes | Delete bytes

type_synonym batch = "batch_op list"

record 'd leveldb =
  ldb_entries :: "'d \<Rightarrow> (bytes \<times> bytes) list"
  ldb_range :: "'d \<Rightarrow> bytes \<Rightarrow> bytes \<Rightarrow> (bytes \<times> bytes) list"
  ldb_prefix :: "'d \<Rightarrow> bytes \<Rightarrow> (bytes \<times> bytes) list"
  ldb_seek :: "'d \<Rightarrow> bytes \<Rightarrow> (bytes \<times> bytes) list"
  ldb_get :: "'d \<Rightarrow> bytes \<Rightarrow> bytes option"
  ldb_write :: "'d \<Rightarrow> batch \<Rightarrow> go_error option \<times> 'd"
  ldb_iter_error :: "'d \<Rightarrow> go_error option"
  ldb_reuse :: "bytes \<Rightarrow> bytes \<Rightarrow> bytes"

fun apply_op :: "batch_op \<Rightarrow> (bytes \<rightharpoonup> bytes) \<Rightarrow> (bytes \<rightharpoonup> bytes)" where
  "apply_op (Put k v) m = m(k \<mapsto> v)"
| "apply_op (Delete k) m = m(k := None)"

definition apply_batch :: "batch \<Rightarrow> (bytes \<rightharpoonup> bytes) \<Rightarrow> (bytes \<rightharpoonup> bytes)" where
  "apply_batch b m = fold apply_op b m"

lemma apply_batch_simps [simp]:
  "apply_batch [] m = m"
  "apply_batch (x # b) m = apply_batch b (apply_op x m)"
  "apply_batch (b @ c) m = apply_batch c (apply_batch b m)"
  by (simp_all add: apply_batch_def)

lemma apply_deletes: "apply_batch (map Delete ks) m = m |` (- set ks)"
  by (induction ks arbitrary: m) (auto simp: restrict_map_def fun_eq_iff)

lemma apply_puts:
  "apply_batch (map (\<lambda>(k, v). Put k v) es) m = m ++ map_of (rev es)"
  by (induction es arbitrary: m) (auto simp: map_add_def fun_eq_iff split: option.splits)

lemma apply_puts_distinct:
  "distinct (map fst es) \<Longrightarrow> apply_batch (map (\<lambda>(k, v). Put k v) es) m = m ++ map_of es"
  using map_of_inject_set [of "rev es" es] by (simp add: apply_puts flip: rev_map)

subsection \<open>The laws\<close>

locale leveldb_store =
  fixes L :: "'d leveldb"
  assumes entries_ascending: "ascending (ldb_entries L d)"
    and range_entries:
      "ldb_range L d a b = filter (\<lambda>e. a \<le> fst e \<and> fst e < b) (ldb_entries L d)"
    and prefix_entries: "ldb_prefix L d p = filter (\<lambda>e. prefix p (fst e)) (ldb_entries L d)"
    and seek_entries: "ldb_seek L d k = filter (\<lambda>e. k \<le> fst e) (ldb_entries L d)"
    and get_entries: "ldb_get L d k = map_of (ldb_entries L d) k"
    and write_entries: "ldb_write L d ops = (None, d') \<Longrightarrow>
      map_of (ldb_entries L d') = apply_batch ops (map_of (ldb_entries L d))"
begin

text \<open>A lookup function and the order determine what an iterator visits.\<close>

lemma entries_eqI:
  "ascending es \<Longrightarrow> map_of (ldb_entries L d) = map_of es \<Longrightarrow> ldb_entries L d = es"
  using ascending_unique entries_ascending by blast

text \<open>A write whose effect on the lookup function is that of an ascending list.\<close>

lemma write_entries_eq:
  assumes "ldb_write L d b = (None, d')" "ascending es"
    and "apply_batch b (map_of (ldb_entries L d)) = map_of es"
  shows "ldb_entries L d' = es"
  using assms write_entries entries_eqI by metis

end

locale reliable_store = leveldb_store +
  assumes write_succeeds: "fst (ldb_write L d ops) = None"
    and iter_succeeds: "ldb_iter_error L d = None"
begin

lemma write_cases: obtains d' where "ldb_write L d ops = (None, d')"
  using write_succeeds by (metis surjective_pairing)

end

subsection \<open>A store that keeps the laws\<close>

text \<open>
  A log-structured store: the database is the sequence of batch records written so far and
  its contents are obtained by replaying them into a sorted list. It shows the laws can hold
  and is the store the concrete runs below use.
\<close>

fun store_put :: "bytes \<Rightarrow> bytes \<Rightarrow> (bytes \<times> bytes) list \<Rightarrow> (bytes \<times> bytes) list" where
  "store_put k v [] = [(k, v)]"
| "store_put k v (e # es) =
     (if fst e < k then e # store_put k v es
      else if fst e = k then (k, v) # es
      else (k, v) # e # es)"

fun store_op :: "batch_op \<Rightarrow> (bytes \<times> bytes) list \<Rightarrow> (bytes \<times> bytes) list" where
  "store_op (Put k v) es = store_put k v es"
| "store_op (Delete k) es = filter (\<lambda>e. fst e \<noteq> k) es"

definition replay :: "batch \<Rightarrow> (bytes \<times> bytes) list" where
  "replay log = fold store_op log []"

definition log_store :: "batch leveldb" where
  "log_store =
     \<lparr>ldb_entries = replay,
      ldb_range = (\<lambda>d a b. filter (\<lambda>e. a \<le> fst e \<and> fst e < b) (replay d)),
      ldb_prefix = (\<lambda>d p. filter (\<lambda>e. prefix p (fst e)) (replay d)),
      ldb_seek = (\<lambda>d k. filter (\<lambda>e. k \<le> fst e) (replay d)),
      ldb_get = (\<lambda>d. map_of (replay d)),
      ldb_write = (\<lambda>d b. (None, d @ b)),
      ldb_iter_error = (\<lambda>d. None),
      ldb_reuse = (\<lambda>old new. new @ drop (length new) old)\<rparr>"

lemma store_put_keys: "set (map fst (store_put k v es)) = insert k (set (map fst es))"
  by (induction k v es rule: store_put.induct) auto

lemma store_put_lookup: "map_of (store_put k v es) = (map_of es)(k \<mapsto> v)"
  by (induction k v es rule: store_put.induct) (auto simp: fun_eq_iff)

lemma store_put_ascending: "ascending es \<Longrightarrow> ascending (store_put k v es)"
proof (induction k v es rule: store_put.induct)
  case (2 k v e es)
  have "fst x \<in> insert k (set (map fst es))" if "x \<in> set (store_put k v es)" for x
    using that store_put_keys [of k v es] by (metis image_eqI list.set_map)
  with 2 show ?case
    by (fastforce simp: not_less)
qed simp

lemma store_op_ascending: "ascending es \<Longrightarrow> ascending (store_op x es)"
  by (cases x) (simp_all add: store_put_ascending ascending_filter)

lemma store_op_lookup: "map_of (store_op x es) = apply_op x (map_of es)"
proof (cases x)
  case (Delete k)
  show ?thesis
    unfolding Delete by (simp add: map_of_filter_key [where P = "\<lambda>x. x \<noteq> k"] restrict_map_def fun_eq_iff)
qed (simp add: store_put_lookup)

lemma fold_store_ascending: "ascending es \<Longrightarrow> ascending (fold store_op b es)"
  by (induction b arbitrary: es) (auto simp: store_op_ascending)

lemma fold_store_lookup: "map_of (fold store_op b es) = apply_batch b (map_of es)"
  by (induction b arbitrary: es) (auto simp: store_op_lookup)

interpretation logged: reliable_store log_store
  by unfold_locales
    (auto simp: log_store_def replay_def fold_store_ascending fold_store_lookup)

lemma log_store_reliable: "reliable_store log_store"
  by (rule logged.reliable_store_axioms)

end
