(* ===== verification/Libcomb.thy ===== *)
theory Libcomb
  imports Byte_Order
begin

section \<open>The interface of libcomb\<close>

text \<open>
  \<open>libcomb\<close>, the Haircomb library, is a git submodule that is not part of the repository.
  Its data types appear here with the fields the sources read and write; its operations are
  records of functions over an abstract library state \<open>'l\<close>: \<open>libcomb\<close> has the ones that
  load and unload blocks, \<open>wallet_lib\<close> those on keys, transactions and contracts. Array
  fields are lists: 21 private keys or signature hashes, 2 tips, 16 branches.

  The locale \<open>libcomb_chain\<close> states what the block handling relies on, in terms of a view
  \<open>loaded\<close> of the library's state as the commits of the blocks loaded so far: loading
  appends a block and raises the height by one, unloading removes the newest block, lowers
  the height by one and returns it.
\<close>

record tag =
  Tag_Height :: u64
  Tag_Order :: u32

record lib_key =
  LKey_Public :: hash256
  LKey_Private :: "hash256 list"

record lib_stack =
  LStack_Change :: hash256
  LStack_Destination :: hash256
  LStack_Sum :: u64

record lib_tx =
  LTx_Source :: hash256
  LTx_Destination :: hash256
  LTx_Signature :: "hash256 list"

record lib_decider =
  LDec_Private :: "hash256 list"
  LDec_Tips :: "hash256 list"

record lib_merkle =
  LMer_Tips :: "hash256 list"
  LMer_Signature :: "hash256 list"
  LMer_Branches :: "hash256 list"
  LMer_Leaf :: hash256
  LMer_Next :: hash256
  LMer_Root :: hash256

record lib_umerkle =
  LUm_Tips :: "hash256 list"
  LUm_Next :: hash256
  LUm_Root :: hash256

subsection \<open>Tags are ordered by height, then by position in the block\<close>

instantiation tag_ext :: (linorder) linorder
begin

definition less_eq_tag_ext :: "'a tag_scheme \<Rightarrow> 'a tag_scheme \<Rightarrow> bool" where
  "less_eq_tag_ext s t \<longleftrightarrow>
     Tag_Height s < Tag_Height t \<or> Tag_Height s = Tag_Height t \<and>
       (Tag_Order s < Tag_Order t \<or> Tag_Order s = Tag_Order t \<and> tag.more s \<le> tag.more t)"

definition less_tag_ext :: "'a tag_scheme \<Rightarrow> 'a tag_scheme \<Rightarrow> bool" where
  "less_tag_ext s t \<longleftrightarrow> s \<le> t \<and> \<not> t \<le> s"

instance
  by standard (auto simp: less_eq_tag_ext_def less_tag_ext_def intro: tag.equality)

end

lemma tag_less_iff:
  "s < t \<longleftrightarrow> Tag_Height s < Tag_Height t \<or> Tag_Height s = Tag_Height t \<and> Tag_Order s < Tag_Order t"
  for s t :: tag
  by (auto simp: less_eq_tag_ext_def less_tag_ext_def)

subsection \<open>Blocks\<close>

record 'l libcomb =
  lib_LoadBlock :: "hash256 list \<Rightarrow> 'l \<Rightarrow> 'l"
  lib_UnloadBlock :: "'l \<Rightarrow> 'l \<times> u64"
  lib_FinishReorg :: "'l \<Rightarrow> 'l"
  lib_GetHeight :: "'l \<Rightarrow> u64"
  lib_SetHeight :: "u64 \<Rightarrow> 'l \<Rightarrow> 'l"
  lib_Reset :: "'l \<Rightarrow> 'l"
  lib_SwitchToTestnet :: "'l \<Rightarrow> 'l"

locale libcomb_chain =
  fixes C :: "'l libcomb"
    and loaded :: "'l \<Rightarrow> hash256 list list"
  assumes load_height: "lib_GetHeight C (lib_LoadBlock C b l) = lib_GetHeight C l + 1"
    and load_loaded: "loaded (lib_LoadBlock C b l) = loaded l @ [b]"
    and unload_height: "snd (lib_UnloadBlock C l) = lib_GetHeight C l - 1"
    and unload_state: "lib_GetHeight C (fst (lib_UnloadBlock C l)) = lib_GetHeight C l - 1"
    and unload_loaded: "loaded (fst (lib_UnloadBlock C l)) = butlast (loaded l)"
    and finish_height: "lib_GetHeight C (lib_FinishReorg C l) = lib_GetHeight C l"
    and finish_loaded: "loaded (lib_FinishReorg C l) = loaded l"
    and set_height: "lib_GetHeight C (lib_SetHeight C h l) = h"
    and set_height_loaded: "loaded (lib_SetHeight C h l) = loaded l"
    and reset_loaded: "loaded (lib_Reset C l) = []"
    and testnet_loaded: "loaded (lib_SwitchToTestnet C l) = loaded l"

text \<open>A library that keeps the laws: a height and the list of loaded blocks.\<close>

definition plain_libcomb :: "(u64 \<times> hash256 list list) libcomb" where
  "plain_libcomb =
     \<lparr>lib_LoadBlock = (\<lambda>b (h, bs). (h + 1, bs @ [b])),
      lib_UnloadBlock = (\<lambda>(h, bs). ((h - 1, butlast bs), h - 1)),
      lib_FinishReorg = (\<lambda>l. l),
      lib_GetHeight = fst,
      lib_SetHeight = (\<lambda>h (_, bs). (h, bs)),
      lib_Reset = (\<lambda>_. (0, [])),
      lib_SwitchToTestnet = (\<lambda>l. l)\<rparr>"

interpretation plain: libcomb_chain plain_libcomb snd
  by unfold_locales (auto simp: plain_libcomb_def split: prod.splits)

lemma plain_libcomb_chain: "libcomb_chain plain_libcomb snd"
  by (rule plain.libcomb_chain_axioms)

subsection \<open>Keys, transactions and contracts\<close>

text \<open>
  The methods \<open>ID()\<close> depend on the object alone; \<open>Active()\<close> and \<open>GetBalance\<close> also on the
  state of the library. A map that is only looked up is a set; one that is iterated is a list of
  pairs in the order of the iteration, which Go leaves open.
\<close>

record 'l wallet_lib =
  lib_LoadKey :: "lib_key \<Rightarrow> 'l \<Rightarrow> 'l \<times> hash256"
  lib_LoadStack :: "lib_stack \<Rightarrow> 'l \<Rightarrow> 'l \<times> hash256"
  lib_LoadTransaction :: "lib_tx \<Rightarrow> 'l \<Rightarrow> 'l \<times> (go_error + hash256)"
  lib_LoadDecider :: "lib_decider \<Rightarrow> 'l \<Rightarrow> 'l \<times> hash256"
  lib_LoadMerkleSegment :: "lib_merkle \<Rightarrow> 'l \<Rightarrow> 'l \<times> (go_error + hash256)"
  lib_LoadUnsignedMerkleSegment :: "lib_umerkle \<Rightarrow> 'l \<Rightarrow> 'l \<times> (go_error + hash256)"
  lib_GetKeys :: "'l \<Rightarrow> lib_key list"
  lib_GetStacks :: "'l \<Rightarrow> lib_stack list"
  lib_GetTransactions :: "'l \<Rightarrow> lib_tx list"
  lib_GetDeciders :: "'l \<Rightarrow> lib_decider list"
  lib_GetMerkleSegments :: "'l \<Rightarrow> lib_merkle list"
  lib_GetUnsignedMerkleSegments :: "'l \<Rightarrow> lib_umerkle list"
  lib_KeyID :: "lib_key \<Rightarrow> hash256"
  lib_StackID :: "lib_stack \<Rightarrow> hash256"
  lib_TransactionID :: "lib_tx \<Rightarrow> hash256"
  lib_DeciderID :: "lib_decider \<Rightarrow> hash256"
  lib_MerkleSegmentID :: "lib_merkle \<Rightarrow> hash256"
  lib_UnsignedMerkleSegmentID :: "lib_umerkle \<Rightarrow> hash256"
  lib_KeyActive :: "'l \<Rightarrow> lib_key \<Rightarrow> bool"
  lib_StackActive :: "'l \<Rightarrow> lib_stack \<Rightarrow> bool"
  lib_TransactionActive :: "'l \<Rightarrow> lib_tx \<Rightarrow> bool"
  lib_MerkleSegmentActive :: "'l \<Rightarrow> lib_merkle \<Rightarrow> bool"
  lib_GetBalance :: "'l \<Rightarrow> hash256 \<Rightarrow> u64"
  lib_NewKey :: "'l \<Rightarrow> 'l \<times> lib_key"
  lib_NewDecider :: "'l \<Rightarrow> 'l \<times> lib_decider"
  lib_SignTransaction :: "'l \<Rightarrow> lib_tx \<Rightarrow> go_error + lib_tx"
  lib_RecoverDecider :: "lib_decider \<Rightarrow> lib_decider"
  lib_LookupDecider :: "'l \<Rightarrow> hash256 \<Rightarrow> go_error + lib_decider"
  lib_SignDecider :: "lib_decider \<Rightarrow> u16 \<Rightarrow> go_error + hash256 \<times> hash256"
  lib_LookupUnsignedMerkleSegment :: "'l \<Rightarrow> hash256 \<Rightarrow> go_error + lib_umerkle"
  lib_RecoverMerkleSegment :: "lib_merkle \<Rightarrow> go_error + lib_merkle"
  lib_ComputeProof :: "hash256 list \<Rightarrow> u16 \<Rightarrow> hash256 \<times> hash256 list \<times> hash256"
  lib_Commit :: "hash256 \<Rightarrow> hash256"
  lib_HaveCommit :: "'l \<Rightarrow> hash256 \<Rightarrow> bool"
  lib_GetCOMBBase :: "'l \<Rightarrow> u64 \<Rightarrow> go_error + hash256"
  lib_GetCommitTag :: "'l \<Rightarrow> hash256 \<Rightarrow> go_error + tag"
  lib_GetCoinHistory :: "'l \<Rightarrow> hash256 \<Rightarrow> hash256 set"
  lib_GetCommitCount :: "'l \<Rightarrow> u64"
  lib_GetBlockCommits :: "'l \<Rightarrow> u64 \<Rightarrow> (hash256 \<times> tag) list"


text \<open>
  The wallet's operations leave the chain alone: neither the height nor the loaded blocks
  change when a construct is loaded or made.
\<close>

definition keeps_blocks :: "'l libcomb \<Rightarrow> ('l \<Rightarrow> hash256 list list) \<Rightarrow> ('l \<Rightarrow> 'l) \<Rightarrow> bool" where
  "keeps_blocks C loaded f \<longleftrightarrow> (\<forall>l. lib_GetHeight C (f l) = lib_GetHeight C l \<and> loaded (f l) = loaded l)"

locale wallet_chain = libcomb_chain C loaded
  for C :: "'l libcomb" and loaded :: "'l \<Rightarrow> hash256 list list" +
  fixes WL :: "'l wallet_lib"
  assumes keeps_key: "keeps_blocks C loaded (\<lambda>l. fst (lib_LoadKey WL k l))"
    and keeps_stack: "keeps_blocks C loaded (\<lambda>l. fst (lib_LoadStack WL s l))"
    and keeps_transaction: "keeps_blocks C loaded (\<lambda>l. fst (lib_LoadTransaction WL tx l))"
    and keeps_decider: "keeps_blocks C loaded (\<lambda>l. fst (lib_LoadDecider WL d l))"
    and keeps_merkle: "keeps_blocks C loaded (\<lambda>l. fst (lib_LoadMerkleSegment WL m l))"
    and keeps_umerkle: "keeps_blocks C loaded (\<lambda>l. fst (lib_LoadUnsignedMerkleSegment WL u l))"
    and keeps_new_key: "keeps_blocks C loaded (\<lambda>l. fst (lib_NewKey WL l))"
    and keeps_new_decider: "keeps_blocks C loaded (\<lambda>l. fst (lib_NewDecider WL l))"

end
