(* ===== verification/DB.thy ===== *)
theory DB
  imports Util Sha256 LevelDB Libcomb
begin

section \<open>db.go: the block database\<close>

text \<open>
  The operations of \<open>db.go\<close> on the store: keys and values of a block, reads, and the
  batches that store and remove blocks. \<open>L\<close> is the record of LevelDB operations and
  \<open>d\<close> the store the global \<open>db\<close> points to. A result \<open>None\<close> is a bounds panic.
  Loading the blocks into the node (\<open>db_load\<close>, \<open>db_start\<close>) needs \<open>combcore.go\<close> and
  is in \<open>DB_Load\<close>; what the store contains is described in \<open>DB_Layout\<close>.
\<close>

definition DB_LEGACY_VERSION :: u16 where
  "DB_LEGACY_VERSION = 1"

definition DB_CURRENT_VERSION :: u16 where
  "DB_CURRENT_VERSION = 2"

definition DB_VERSION_KEY_LENGTH :: nat where
  "DB_VERSION_KEY_LENGTH = 2"

definition DB_BLOCK_KEY_LENGTH :: nat where
  "DB_BLOCK_KEY_LENGTH = 8"

definition DB_COMMIT_KEY_LENGTH :: nat where
  "DB_COMMIT_KEY_LENGTH = 16"

lemmas db_lengths = DB_BLOCK_KEY_LENGTH_def DB_COMMIT_KEY_LENGTH_def DB_VERSION_KEY_LENGTH_def

record BlockMetadata =
  BM_Height :: u64
  BM_Hash :: hash256
  BM_Previous :: hash256
  BM_Fingerprint :: hash256

record Block =
  Blk_Metadata :: BlockMetadata
  Blk_Commits :: "hash256 list"

text \<open>\<open>BlockData\<close> (\<open>btc.go\<close>) is what the miners deliver.\<close>

record BlockData =
  BD_Hash :: hash256
  BD_Previous :: hash256
  BD_Commits :: "hash256 list"

text \<open>Go's zero values of the three structs.\<close>

definition zero_metadata :: BlockMetadata where
  "zero_metadata = \<lparr>BM_Height = 0, BM_Hash = zero32, BM_Previous = zero32, BM_Fingerprint = zero32\<rparr>"

definition zero_block :: Block where
  "zero_block = \<lparr>Blk_Metadata = zero_metadata, Blk_Commits = []\<rparr>"

definition zero_block_data :: BlockData where
  "zero_block_data = \<lparr>BD_Hash = zero32, BD_Previous = zero32, BD_Commits = []\<rparr>"

subsection \<open>Codecs\<close>

definition db_compute_block_fingerprint :: "hash256 list \<Rightarrow> hash256" where
  "db_compute_block_fingerprint commits =
     (if commits = [] then zero32 else sha256 (concat commits))"

definition decode_commit :: "bytes \<Rightarrow> hash256 option" where
  "decode_commit data = slice data 0 32"

definition decode_tag :: "bytes \<Rightarrow> tag option" where
  "decode_tag data = do {
     hb \<leftarrow> slice data 0 8;
     height \<leftarrow> get_be64 hb;
     ob \<leftarrow> slice data 8 12;
     order \<leftarrow> get_be32 ob;
     Some \<lparr>Tag_Height = height, Tag_Order = order\<rparr> }"

definition encode_tag :: "tag \<Rightarrow> bytes" where
  "encode_tag t = put_be64 (Tag_Height t) @ put_be32 (Tag_Order t) @ replicate 4 0"

definition decode_block_metadata :: "bytes \<Rightarrow> bytes \<Rightarrow> BlockMetadata option" where
  "decode_block_metadata key val = do {
     hb \<leftarrow> slice key 0 8;
     height \<leftarrow> get_be64 hb;
     hash \<leftarrow> slice val 0 32;
     previous \<leftarrow> slice val 32 64;
     fingerprint \<leftarrow> slice val 64 96;
     Some \<lparr>BM_Height = height, BM_Hash = hash, BM_Previous = previous,
           BM_Fingerprint = fingerprint\<rparr> }"

definition encode_block_metadata :: "BlockMetadata \<Rightarrow> bytes \<times> bytes" where
  "encode_block_metadata data =
     (put_be64 (BM_Height data), BM_Hash data @ BM_Previous data @ BM_Fingerprint data)"

subsection \<open>Scans\<close>

definition fingerprint_step :: "bytes \<times> bytes \<Rightarrow> hash256 \<Rightarrow> hash256 option" where
  "fingerprint_step e fingerprint =
     (if length (fst e) = DB_BLOCK_KEY_LENGTH then do {
        metadata \<leftarrow> decode_block_metadata (fst e) (snd e);
        Some (xor_hex fingerprint (BM_Fingerprint metadata)) }
      else Some fingerprint)"

definition db_compute_db_fingerprint :: "'d leveldb \<Rightarrow> 'd \<Rightarrow> hash256 option" where
  "db_compute_db_fingerprint L d = fold_opt fingerprint_step (ldb_entries L d) zero32"

definition find_commits_step ::
  "hash256 \<Rightarrow> bytes \<times> bytes \<Rightarrow> u64 \<times> u64 list \<Rightarrow> (u64 \<times> u64 list) option" where
  "find_commits_step commit e st = (case st of (height, out) \<Rightarrow> do {
     height \<leftarrow> (if length (fst e) = DB_BLOCK_KEY_LENGTH then get_be64 (fst e) else Some height);
     if length (fst e) = DB_COMMIT_KEY_LENGTH then do {
       tmp \<leftarrow> slice (snd e) 0 32;
       Some (height, if tmp = commit then out @ [height] else out) }
     else Some (height, out) })"

definition db_find_commits :: "'d leveldb \<Rightarrow> 'd \<Rightarrow> hash256 \<Rightarrow> u64 list option" where
  "db_find_commits L d commit =
     map_option snd (fold_opt (find_commits_step commit) (ldb_entries L d) (0, []))"

text \<open>The counts \<open>db_inspect\<close> logs: bytes stored, keys, and keys by length.\<close>

definition inspect_step ::
  "bytes \<times> bytes \<Rightarrow> u64 \<times> u64 \<times> (u16 \<Rightarrow> u64) \<Rightarrow> u64 \<times> u64 \<times> (u16 \<Rightarrow> u64)" where
  "inspect_step e st = (case st of (nbytes, total_keys, sizes) \<Rightarrow>
     (nbytes + (word_of_nat (length (fst e)) + word_of_nat (length (snd e))), total_keys + 1,
      sizes(word_of_nat (length (fst e)) := sizes (word_of_nat (length (fst e))) + 1)))"

definition db_inspect :: "'d leveldb \<Rightarrow> 'd \<Rightarrow> u64 \<times> u64 \<times> (u16 \<Rightarrow> u64)" where
  "db_inspect L d = fold inspect_step (ldb_entries L d) (0, 0, \<lambda>_. 0)"

definition db_get_version :: "'d leveldb \<Rightarrow> 'd \<Rightarrow> u16 option" where
  "db_get_version L d =
     (case ldb_get L d (replicate 2 0) of
        None \<Rightarrow> Some 1
      | Some data \<Rightarrow> get_be16 data)"

subsection \<open>Writes\<close>

text \<open>
  \<open>db_write\<close> returns the error, the store and the batch, which is reset whatever the
  outcome. The mutex \<open>critical\<close>, which it holds around the write, is not modelled.
\<close>

definition db_write :: "'d leveldb \<Rightarrow> 'd \<Rightarrow> batch \<Rightarrow> go_error option \<times> 'd \<times> batch" where
  "db_write L d b = (case ldb_write L d b of (err, d') \<Rightarrow> (err, d', []))"

fun store_commits :: "tag \<Rightarrow> hash256 list \<Rightarrow> batch \<Rightarrow> batch" where
  "store_commits current_tag [] b = b"
| "store_commits current_tag (commit # commits) b =
     store_commits (current_tag\<lparr>Tag_Order := Tag_Order current_tag + 1\<rparr>) commits
       (b @ [Put (encode_tag current_tag) commit])"

definition db_store_block :: "batch \<Rightarrow> Block \<Rightarrow> batch" where
  "db_store_block b block =
     (let b = store_commits \<lparr>Tag_Height = BM_Height (Blk_Metadata block), Tag_Order = 0\<rparr>
                (Blk_Commits block) b;
          (key, data) = encode_block_metadata (Blk_Metadata block)
      in b @ [Put key data])"

definition db_remove_block :: "'d leveldb \<Rightarrow> 'd \<Rightarrow> batch \<Rightarrow> u64 \<Rightarrow> go_error option \<times> batch" where
  "db_remove_block L d b height =
     (let b = b @ map (\<lambda>e. Delete (fst e)) (ldb_prefix L d (put_be64 height))
      in (ldb_iter_error L d, b))"

definition db_remove_blocks_after :: "'d leveldb \<Rightarrow> 'd \<Rightarrow> u64 \<Rightarrow> go_error option \<times> 'd" where
  "db_remove_blocks_after L d height =
     (let b = map (\<lambda>e. Delete (fst e)) (ldb_seek L d (put_be64 height))
      in case ldb_iter_error L d of
           Some err \<Rightarrow> (Some err, d)
         | None \<Rightarrow> (case db_write L d b of (_, d', _) \<Rightarrow> (None, d')))"

definition db_debug_remove_after :: "'d leveldb \<Rightarrow> 'd \<Rightarrow> u64 \<Rightarrow> 'd" where
  "db_debug_remove_after L d height =
     (let b = map (\<lambda>e. Delete (fst e)) (ldb_seek L d (uint64_to_bytes height))
      in case db_write L d b of (_, d', _) \<Rightarrow> d')"

text \<open>
  The debugging routine that corrupts stored hashes above a height: \<open>coin n\<close> says whether the
  n-th random number is below one half. It ends at the first such number that falls on a missing
  block; \<open>None\<close> is a loop that does not end, or the bounds panic of an empty value.
\<close>

partial_function (option) corrupt_loop ::
  "'d leveldb \<Rightarrow> 'd \<Rightarrow> (nat \<Rightarrow> bool) \<Rightarrow> nat \<Rightarrow> u64 \<Rightarrow> batch \<Rightarrow> batch option" where
  "corrupt_loop L d coin n height b =
     (if coin n then
        (case ldb_get L d (uint64_to_bytes height) of
           None \<Rightarrow> Some b
         | Some [] \<Rightarrow> None
         | Some (v # vs) \<Rightarrow>
             corrupt_loop L d coin (n + 1) (height + 1) (b @ [Put (uint64_to_bytes height) (0 # vs)]))
      else corrupt_loop L d coin (n + 1) (height + 1) b)"

definition db_debug_corrupt_after :: "'d leveldb \<Rightarrow> 'd \<Rightarrow> (nat \<Rightarrow> bool) \<Rightarrow> u64 \<Rightarrow> 'd option" where
  "db_debug_corrupt_after L d coin height =
     map_option (\<lambda>b. case db_write L d b of (_, d', _) \<Rightarrow> d') (corrupt_loop L d coin 0 height [])"

definition db_process_block :: "'d leveldb \<Rightarrow> 'd \<Rightarrow> batch \<Rightarrow> Block \<Rightarrow> go_error option \<times> batch" where
  "db_process_block L d b block =
     (case db_remove_block L d b (BM_Height (Blk_Metadata block)) of
        (Some err, b) \<Rightarrow> (Some err, b)
      | (None, b) \<Rightarrow> (None, db_store_block b block))"

definition db_new :: "'d leveldb \<Rightarrow> 'd \<Rightarrow> 'd \<times> u16" where
  "db_new L d =
     (case db_write L d [Put (replicate 2 0) (put_be16 DB_CURRENT_VERSION)] of
        (_, d', _) \<Rightarrow> (d', DB_CURRENT_VERSION))"

subsection \<open>Lookups\<close>

text \<open>
  The backward scan: each block key is decoded into the result variable, and the loop breaks
  at the first whose hash is the wanted one; after a scan without a hit the variable holds
  the last block decoded.
\<close>

fun by_hash_loop ::
  "hash256 \<Rightarrow> BlockMetadata \<Rightarrow> (bytes \<times> bytes) list \<Rightarrow> BlockMetadata option" where
  "by_hash_loop hash metadata [] = Some metadata"
| "by_hash_loop hash metadata (e # es) =
     (if length (fst e) = DB_BLOCK_KEY_LENGTH then do {
        metadata \<leftarrow> decode_block_metadata (fst e) (snd e);
        if BM_Hash metadata = hash then Some metadata
        else by_hash_loop hash metadata es }
      else by_hash_loop hash metadata es)"

definition db_get_block_by_hash :: "'d leveldb \<Rightarrow> 'd \<Rightarrow> hash256 \<Rightarrow> BlockMetadata option" where
  "db_get_block_by_hash L d hash = by_hash_loop hash zero_metadata (rev (ldb_entries L d))"

definition db_get_block_by_height :: "'d leveldb \<Rightarrow> 'd \<Rightarrow> u64 \<Rightarrow> BlockMetadata option" where
  "db_get_block_by_height L d height =
     (case ldb_seek L d (put_be64 height) of
        [] \<Rightarrow> Some zero_metadata
      | e # _ \<Rightarrow> decode_block_metadata (fst e) (snd e))"

text \<open>
  \<open>db_get_full_block_by_height\<close> reads the slice \<open>value\<close> it took before the loop: after each
  \<open>Next\<close> its contents are whatever the store left there, \<open>ldb_reuse L\<close>.
\<close>

fun full_block_loop ::
  "'d leveldb \<Rightarrow> bytes \<Rightarrow> (bytes \<times> bytes) list \<Rightarrow> BlockData \<Rightarrow> BlockData option" where
  "full_block_loop L val [] block = Some block"
| "full_block_loop L val (e # es) block =
     (let val = ldb_reuse L val (snd e)
      in if length (fst e) = DB_COMMIT_KEY_LENGTH then do {
           commit \<leftarrow> decode_commit val;
           full_block_loop L val es (block\<lparr>BD_Commits := BD_Commits block @ [commit]\<rparr>) }
         else Some block)"

definition db_get_full_block_by_height :: "'d leveldb \<Rightarrow> 'd \<Rightarrow> u64 \<Rightarrow> BlockData option" where
  "db_get_full_block_by_height L d height =
     (case ldb_seek L d (put_be64 height) of
        [] \<Rightarrow> Some zero_block_data
      | e # es \<Rightarrow> do {
          metadata \<leftarrow> decode_block_metadata (fst e) (snd e);
          let block = (if BM_Height metadata = height
                       then zero_block_data\<lparr>BD_Hash := BM_Hash metadata,
                                            BD_Previous := BM_Previous metadata\<rparr>
                       else zero_block_data);
          full_block_loop L (snd e) es block })"

text \<open>
  \<open>db_load_blocks\<close> gives the blocks it sends on its channel, in order. The first one sent
  is the zero block, which \<open>combcore_process_block\<close> discards.
\<close>

definition load_blocks_step ::
  "bytes \<times> bytes \<Rightarrow> Block list \<times> Block \<times> bool \<Rightarrow> (Block list \<times> Block \<times> bool) option" where
  "load_blocks_step e st = (case st of (out, block, is_empty) \<Rightarrow>
     if length (fst e) = DB_BLOCK_KEY_LENGTH then do {
       metadata \<leftarrow> decode_block_metadata (fst e) (snd e);
       Some (out @ [block], \<lparr>Blk_Metadata = metadata, Blk_Commits = []\<rparr>, False) }
     else if length (fst e) = DB_COMMIT_KEY_LENGTH then do {
       commit \<leftarrow> decode_commit (snd e);
       Some (out, block\<lparr>Blk_Commits := Blk_Commits block @ [commit]\<rparr>, is_empty) }
     else Some (out, block, is_empty))"

definition db_load_blocks :: "'d leveldb \<Rightarrow> 'd \<Rightarrow> u64 \<Rightarrow> u64 \<Rightarrow> Block list option" where
  "db_load_blocks L d start end_height = do {
     (out, block, is_empty) \<leftarrow>
       fold_opt load_blocks_step (ldb_range L d (put_be64 start) (put_be64 (end_height + 1)))
         ([], zero_block, True);
     Some (if \<not> is_empty then out @ [block] else out) }"

subsection \<open>Round trips of the codecs\<close>

lemma decode_encode_tag [simp]: "decode_tag (encode_tag t) = Some t"
  by (simp add: decode_tag_def encode_tag_def slice_append_mid)

lemma encode_tag_length [simp]: "length (encode_tag t) = 16"
  by (simp add: encode_tag_def)

lemma encode_tag_less: "encode_tag s < encode_tag t \<longleftrightarrow> s < t"
  by (auto simp: encode_tag_def list_less_append_same tag_less_iff)

definition wf_metadata :: "BlockMetadata \<Rightarrow> bool" where
  "wf_metadata md \<longleftrightarrow> is32 (BM_Hash md) \<and> is32 (BM_Previous md) \<and> is32 (BM_Fingerprint md)"

lemma decode_encode_block_metadata [simp]:
  "wf_metadata md \<Longrightarrow>
     decode_block_metadata (put_be64 (BM_Height md)) (BM_Hash md @ BM_Previous md @ BM_Fingerprint md)
       = Some md"
  by (simp add: decode_block_metadata_def wf_metadata_def slice_append_mid)

end
