(* ===== verification/Btc.thy ===== *)
theory Btc
  imports DB
begin

section \<open>btc.go: parsing raw Bitcoin blocks\<close>

text \<open>
  The parser walks over a raw block by re-slicing it; \<open>None\<close> is the runtime panic of a slice
  expression out of bounds. A count is read as \<open>uint64\<close> and compared as \<open>int\<close>, so that a
  count above the largest \<open>int\<close> means no round at all; an offset is added in \<open>uint64\<close>, and
  wraps. Where the code reads \<open>data[a:b]\<close> it moves past \<open>b\<close> afterwards, so that bounding such
  a slice by the length instead of the capacity gives the same panics.
\<close>

subsection \<open>The parser\<close>

definition btc_parse_varint :: "bytes \<Rightarrow> (u64 \<times> byte) option" where
  "btc_parse_varint data = do {
     prefix \<leftarrow> index data 0;
     tail_bytes \<leftarrow> slice_from data 1;
     if prefix = 0xfd then map_option (\<lambda>v. (ucast v, 3)) (get_le16 tail_bytes)
     else if prefix = 0xfe then map_option (\<lambda>v. (ucast v, 5)) (get_le32 tail_bytes)
     else if prefix = 0xff then map_option (\<lambda>v. (v, 9)) (get_le64 tail_bytes)
     else Some (ucast prefix, 1) }"

text \<open>The rounds of \<open>for i := 0; i < int(count); i++\<close>.\<close>

definition rounds :: "u64 \<Rightarrow> nat" where
  "rounds count = nat (sint count)"

definition parse_input :: "bytes \<times> 'a \<Rightarrow> (bytes \<times> 'a) option" where
  "parse_input st = do {
     data \<leftarrow> slice_from (fst st) 36;
     (sig_size, adv) \<leftarrow> btc_parse_varint data;
     data \<leftarrow> slice_from data (unat (ucast adv + sig_size + 4));
     Some (data, snd st) }"

definition parse_output :: "bytes \<times> hash256 list \<Rightarrow> (bytes \<times> hash256 list) option" where
  "parse_output st = do {
     data \<leftarrow> slice_from (fst st) 8;
     (pub_size, adv) \<leftarrow> btc_parse_varint data;
     data \<leftarrow> slice_from data (unat (ucast adv :: u64));
     commits \<leftarrow>
       (if pub_size = 34 then do {
          b0 \<leftarrow> index data 0;
          if b0 = 0 then do {
            b1 \<leftarrow> index data 1;
            if b1 = 32 then do {
              current_commit \<leftarrow> slice data 2 34;
              Some (snd st @ [current_commit]) }
            else Some (snd st) }
          else Some (snd st) }
        else Some (snd st));
     data \<leftarrow> slice_from data (unat pub_size);
     Some (data, commits) }"

definition parse_witness_item :: "bytes \<times> 'a \<Rightarrow> (bytes \<times> 'a) option" where
  "parse_witness_item st = do {
     (witness_size, adv) \<leftarrow> btc_parse_varint (fst st);
     data \<leftarrow> slice_from (fst st) (unat (ucast adv + witness_size));
     Some (data, snd st) }"

definition parse_witness :: "bytes \<times> 'a \<Rightarrow> (bytes \<times> 'a) option" where
  "parse_witness st = do {
     (witness_count, adv) \<leftarrow> btc_parse_varint (fst st);
     data \<leftarrow> slice_from (fst st) (unat adv);
     repeat_opt (rounds witness_count) parse_witness_item (data, snd st) }"

definition parse_tx :: "bytes \<times> hash256 list \<Rightarrow> (bytes \<times> hash256 list) option" where
  "parse_tx st = do {
     data \<leftarrow> slice_from (fst st) 4;
     (in_count, adv) \<leftarrow> btc_parse_varint data;
     (segwit, data, in_count, adv) \<leftarrow>
       (if in_count = 0 then do {
          data \<leftarrow> slice_from data 2;
          (in_count, adv) \<leftarrow> btc_parse_varint data;
          Some (True, data, in_count, adv) }
        else Some (False, data, in_count, adv));
     data \<leftarrow> slice_from data (unat adv);
     (data, commits) \<leftarrow> repeat_opt (rounds in_count) parse_input (data, snd st);
     (out_count, adv) \<leftarrow> btc_parse_varint data;
     data \<leftarrow> slice_from data (unat adv);
     (data, commits) \<leftarrow> repeat_opt (rounds out_count) parse_output (data, commits);
     (data, commits) \<leftarrow>
       (if segwit then repeat_opt (rounds in_count) parse_witness (data, commits)
        else Some (data, commits));
     data \<leftarrow> slice_from data 4;
     Some (data, commits) }"

definition btc_parse_block :: "bytes \<Rightarrow> BlockData \<Rightarrow> BlockData option" where
  "btc_parse_block data block = do {
     header \<leftarrow> slice data 0 80;
     let hash = sha256 (sha256 header);
     data \<leftarrow> slice_from data 4;
     previous \<leftarrow> slice data 0 32;
     data \<leftarrow> slice_from data 32;
     data \<leftarrow> slice_from data 44;
     (tx_count, adv) \<leftarrow> btc_parse_varint data;
     data \<leftarrow> slice_from data (unat adv);
     (data, commits) \<leftarrow> repeat_opt (rounds tx_count) parse_tx (data, BD_Commits block);
     Some (block\<lparr>BD_Hash := swap_endian hash, BD_Previous := swap_endian previous,
                 BD_Commits := commits\<rparr>) }"

end
