(* ===== verification/Combcore.thy ===== *)
theory Combcore
  imports DB
begin

section \<open>combcore.go: the node's chain state\<close>

text \<open>
  The globals of the program (\<open>COMBInfo\<close>, \<open>DBInfo\<close>, \<open>NeoInfo\<close>, \<open>BTC.Chain\<close>, \<open>db\<close> and
  the state of \<open>libcomb\<close>) are the fields of one record, passed to and returned by every
  operation; the prefix of a field is the struct it belongs to. A result \<open>Inl\<close> says how the
  goroutine stopped. Logging, the signal handler of \<open>setup_graceful_shutdown\<close> and the flag
  parsing of \<open>combcore_init\<close> are left out; the flag \<open>comb_network\<close> is an argument.
\<close>

subsection \<open>The state of the node\<close>

record ChainData =
  Chain_Height :: u64
  Chain_KnownHeight :: u64
  Chain_TopHash :: hash256

record ('d, 'l) node =
  COMB_Height :: u64
  COMB_Hash :: hash256
  COMB_Chain :: "hash256 \<rightharpoonup> hash256"
  COMB_Status :: string
  COMB_StatusLock :: bool
  COMB_Network :: string
  COMB_Magic :: u32
  COMB_Prefix :: "string \<rightharpoonup> string"
  COMB_Path :: string
  DB_InitialLoad :: bool
  DB_Version :: u16
  node_db :: 'd
  node_db_is_new :: bool
  Neo_BatchCapacity :: u64
  Neo_BatchCached :: u64
  Neo_Batch :: batch
  BTC_RestURL :: string
  BTC_DirectPath :: string
  BTC_Chain :: ChainData
  node_lib :: 'l

subsection \<open>Status\<close>

definition combcore_set_status :: "string \<Rightarrow> ('d, 'l) node \<Rightarrow> ('d, 'l) node" where
  "combcore_set_status status s = (if \<not> COMB_StatusLock s then s\<lparr>COMB_Status := status\<rparr> else s)"

definition combcore_lock_status :: "('d, 'l) node \<Rightarrow> ('d, 'l) node" where
  "combcore_lock_status s = s\<lparr>COMB_StatusLock := True\<rparr>"

definition combcore_unlock_status :: "('d, 'l) node \<Rightarrow> ('d, 'l) node" where
  "combcore_unlock_status s = s\<lparr>COMB_StatusLock := False\<rparr>"

subsection \<open>Networks\<close>

text \<open>\<open>COMBInfo.Hash, _ = parse_hex(...)\<close>: the error is dropped, and the value is zero then.\<close>

definition hash_literal :: "string \<Rightarrow> hash256" where
  "hash_literal s = (case parse_hex s of Inl _ \<Rightarrow> zero32 | Inr h \<Rightarrow> h)"

definition le32_literal :: "bytes \<Rightarrow> u32" where
  "le32_literal bs = (case get_le32 bs of None \<Rightarrow> 0 | Some v \<Rightarrow> v)"

definition mainnet_prefix :: "string \<rightharpoonup> string" where
  "mainnet_prefix =
     [''stack'' \<mapsto> ''/stack/data/'', ''tx'' \<mapsto> ''/tx/recv/'', ''key'' \<mapsto> ''/wallet/data/'',
      ''merkle'' \<mapsto> ''/merkle/data/'', ''unsigned_merkle'' \<mapsto> ''/contract/data/'',
      ''decider'' \<mapsto> ''/purse/data/'']"

text \<open>The testnet prefixes are written with backslashes (character 92).\<close>

definition backslashed :: "string \<Rightarrow> string" where
  "backslashed s = map (\<lambda>c. if c = CHR ''/'' then CHR 0x5C else c) s"

definition testnet_prefix :: "string \<rightharpoonup> string" where
  "testnet_prefix =
     [''stack'' \<mapsto> backslashed ''/stack/data/'', ''tx'' \<mapsto> backslashed ''/tx/recv/'',
      ''key'' \<mapsto> backslashed ''/wallet/data/'', ''merkle'' \<mapsto> backslashed ''/merkle/data/'',
      ''unsigned_merkle'' \<mapsto> backslashed ''/contract/data/'',
      ''decider'' \<mapsto> backslashed ''/purse/data/'']"

definition combcore_set_network :: "'l libcomb \<Rightarrow> ('d, 'l) node \<Rightarrow> go_stop + ('d, 'l) node" where
  "combcore_set_network C s =
     (if COMB_Network s = ''mainnet'' then
        Inr (s\<lparr>COMB_Height := 481822,
               COMB_Hash := hash_literal ''0000000000000000003bec88b7ba0bebd8eb3b1c1c599e44a2b270ad3e8203ca'',
               COMB_Magic := le32_literal [0xf9, 0xbe, 0xb4, 0xd9],
               COMB_Path := ''commits'',
               COMB_Prefix := mainnet_prefix,
               node_lib := lib_SetHeight C 481822 (node_lib s)\<rparr>)
      else if COMB_Network s = ''testnet'' then
        Inr (s\<lparr>COMB_Height := 0,
               COMB_Hash := hash_literal ''000000000933ea01ad0ee984209779baaec3ced90fa3f408719526f8d77f4943'',
               COMB_Magic := le32_literal [0x0B, 0x11, 0x09, 0x07],
               COMB_Path := ''commits_testnet'',
               COMB_Prefix := testnet_prefix,
               node_lib := lib_SetHeight C 0 (lib_SwitchToTestnet C (node_lib s))\<rparr>)
      else Inl PanicUnknownNetwork)"

definition combcore_init :: "'l libcomb \<Rightarrow> string \<Rightarrow> ('d, 'l) node \<Rightarrow> go_stop + ('d, 'l) node" where
  "combcore_init C comb_network s =
     try_then
       (combcore_set_network C (s\<lparr>node_lib := lib_Reset C (node_lib s), COMB_Network := comb_network\<rparr>))
       (\<lambda>s. Inr (s\<lparr>COMB_Chain := [COMB_Hash s \<mapsto> zero32]\<rparr>))"

subsection \<open>Processing a block\<close>

definition combcore_process_block ::
  "'l libcomb \<Rightarrow> Block \<Rightarrow> ('d, 'l) node \<Rightarrow> go_stop + ('d, 'l) node" where
  "combcore_process_block C block s =
     (if BM_Hash (Blk_Metadata block) = zero32 then Inr s
      else if BM_Previous (Blk_Metadata block) \<noteq> COMB_Hash s then Inl PanicSanityChain
      else
        let lib = lib_LoadBlock C (Blk_Commits block) (node_lib s);
            s = s\<lparr>node_lib := lib, COMB_Height := lib_GetHeight C lib\<rparr>
        in if COMB_Height s \<noteq> BM_Height (Blk_Metadata block) then Inl PanicSanityHeight
           else Inr (s\<lparr>COMB_Chain := (COMB_Chain s)(BM_Hash (Blk_Metadata block) \<mapsto> COMB_Hash s),
                       COMB_Hash := BM_Hash (Blk_Metadata block)\<rparr>))"

subsection \<open>Reorganisation\<close>

text \<open>
  The two loops of \<open>combcore_reorg\<close> have no bound of their own: the first ends when the
  walk over \<open>COMBInfo.Chain\<close> meets the target or leaves the map, the second when the
  library's height is the target's. \<open>None\<close> means that the loop does not end.
\<close>

partial_function (option) trace_back ::
  "(hash256 \<rightharpoonup> hash256) \<Rightarrow> hash256 \<Rightarrow> hash256 \<Rightarrow> (go_stop + hash256) option" where
  "trace_back chain target hash =
     (if hash = target then Some (Inr hash)
      else case chain hash of
             None \<Rightarrow> Some (Inl PanicPastCheckpoint)
           | Some parent \<Rightarrow> trace_back chain target parent)"

partial_function (option) unload_to ::
  "'l libcomb \<Rightarrow> u64 \<Rightarrow> u64 \<Rightarrow> 'l \<Rightarrow> (u64 \<times> 'l) option" where
  "unload_to C target height lib =
     (if height = target then Some (height, lib)
      else unload_to C target (snd (lib_UnloadBlock C lib)) (fst (lib_UnloadBlock C lib)))"

definition combcore_reorg ::
  "'d leveldb \<Rightarrow> 'l libcomb \<Rightarrow> hash256 \<Rightarrow> ('d, 'l) node \<Rightarrow> go_stop + ('d, 'l) node" where
  "combcore_reorg L C target s =
     try_then (or_else PanicBounds (db_get_block_by_hash L (node_db s) target)) (\<lambda>metadata.
     try_then (case trace_back (COMB_Chain s) target (COMB_Hash s) of
                 None \<Rightarrow> Inl NoReturn | Some r \<Rightarrow> r) (\<lambda>hash.
     case db_remove_blocks_after L (node_db s) (BM_Height metadata + 1) of (_, d) \<Rightarrow>
     try_then (or_else NoReturn (unload_to C (BM_Height metadata) (COMB_Height s) (node_lib s)))
       (\<lambda>(height, lib).
     Inr (s\<lparr>COMB_Hash := hash, node_db := d, COMB_Height := height,
            node_lib := lib_FinishReorg C lib\<rparr>))))"

end
