(* ===== verification/Btc_Rest.thy ===== *)
theory Btc_Rest
  imports Btc Combcore
begin

section \<open>btc_rest.go: blocks over Bitcoin's REST interface\<close>

text \<open>
  The outside world of the Bitcoin side is a record of functions: the HTTP client, the JSON
  decoder (of a decoded header only the fields the code declares; it is given the old contents
  of the variable it decodes into), the file system, and the formatting of a percentage for
  the status line. The channel a range function sends its blocks on is unbuffered and closed
  by it; its value here is the list of blocks sent, with how the function ended: a stop of the
  program, an error, or nothing.
\<close>

record btc_world =
  web_get :: "string \<Rightarrow> go_error + bytes"
  json_headers :: "bytes \<Rightarrow> (u64 \<times> string) list \<Rightarrow> go_error + (u64 \<times> string) list"
  json_chaininfo :: "bytes \<Rightarrow> go_error + u64 \<times> u64 \<times> string"
  fs_stat :: "string \<Rightarrow> go_error option"
  fs_glob :: "string \<Rightarrow> go_error + string list"
  fs_read :: "string \<Rightarrow> bytes option"
  fmt_percent :: "nat \<Rightarrow> u64 \<Rightarrow> string"

type_synonym ('d, 'l) sent = "BlockData list \<times> (go_stop + go_error option) \<times> ('d, 'l) node"

definition btc_rest_call :: "btc_world \<Rightarrow> string \<Rightarrow> go_error + bytes" where
  "btc_rest_call W url = web_get W url"

subsection \<open>Tracing back to a known block\<close>

definition headers_url :: "string \<Rightarrow> hash256 \<Rightarrow> string" where
  "headers_url url hash = url @ ''/headers/1/'' @ fmt_x hash @ ''.json''"

definition progress_status :: "string \<Rightarrow> string \<Rightarrow> string" where
  "progress_status word percent = word @ '' ('' @ percent @ '')...''"

text \<open>One round: ask for the header of \<open>hash\<close> and read its parent.\<close>

definition rest_parent ::
  "btc_world \<Rightarrow> string \<Rightarrow> hash256 \<Rightarrow> (u64 \<times> string) list \<Rightarrow> go_error + hash256 \<times> (u64 \<times> string) list" where
  "rest_parent W url hash headers =
     try_then (btc_rest_call W (headers_url url hash)) (\<lambda>raw_json.
       case json_headers W raw_json headers of
         Inl _ \<Rightarrow> Inl ErrGibberish
       | Inr [] \<Rightarrow> Inl ErrNoHeader
       | Inr (header # headers) \<Rightarrow>
           try_then (parse_hex (snd header)) (\<lambda>hash. Inr (hash, header # headers)))"

partial_function (option) rest_trace_loop ::
  "btc_world \<Rightarrow> string \<Rightarrow> (hash256 \<rightharpoonup> hash256) \<Rightarrow> u64 \<Rightarrow> hash256 \<Rightarrow> hash256 list \<Rightarrow> (u64 \<times> string) list
     \<Rightarrow> ('d, 'l) node \<Rightarrow> ((go_error + hash256 list) \<times> ('d, 'l) node) option" where
  "rest_trace_loop W url history len hash chain headers s =
     (if history hash \<noteq> None then Some (Inr chain, s)
      else case rest_parent W url hash headers of
             Inl err \<Rightarrow> Some (Inl err, s)
           | Inr (parent, headers) \<Rightarrow>
               rest_trace_loop W url history len parent (chain @ [hash]) headers
                 (combcore_set_status
                    (progress_status ''Tracing'' (fmt_percent W (length (chain @ [hash])) len)) s))"

definition rest_trace_chain ::
  "btc_world \<Rightarrow> string \<Rightarrow> hash256 \<Rightarrow> (hash256 \<rightharpoonup> hash256) \<Rightarrow> u64 \<Rightarrow> ('d, 'l) node
     \<Rightarrow> ((go_error + hash256 list) \<times> ('d, 'l) node) option" where
  "rest_trace_chain W url target history len s =
     (if history target \<noteq> None then Some (Inr [], s)
      else case rest_trace_loop W url history len target [] [] s of
             None \<Rightarrow> None
           | Some (Inl err, s) \<Rightarrow> Some (Inl err, s)
           | Some (Inr chain, s) \<Rightarrow> Some (Inr (reverse_in_place chain), s))"

subsection \<open>Blocks\<close>

definition block_url :: "string \<Rightarrow> hash256 \<Rightarrow> string" where
  "block_url url hash = url @ ''/block/'' @ fmt_x hash @ ''.bin''"

definition rest_get_block :: "btc_world \<Rightarrow> string \<Rightarrow> hash256 \<Rightarrow> go_stop + go_error + BlockData" where
  "rest_get_block W url hash =
     (case btc_rest_call W (block_url url hash) of
        Inl err \<Rightarrow> Inr (Inl err)
      | Inr raw_data \<Rightarrow>
          (case btc_parse_block raw_data zero_block_data of
             None \<Rightarrow> Inl PanicBounds
           | Some raw_block \<Rightarrow>
               if BD_Hash raw_block \<noteq> hash then Inl PanicWrongBlock
               else Inr (Inr \<lparr>BD_Hash = BD_Hash raw_block, BD_Previous = BD_Previous raw_block,
                              BD_Commits = BD_Commits raw_block\<rparr>)))"

fun rest_send_blocks ::
  "btc_world \<Rightarrow> string \<Rightarrow> u64 \<Rightarrow> nat \<Rightarrow> hash256 list \<Rightarrow> ('d, 'l) node \<Rightarrow> ('d, 'l) sent" where
  "rest_send_blocks W url len i [] s = ([], Inr None, s)"
| "rest_send_blocks W url len i (h # chain) s =
     (case rest_get_block W url h of
        Inl stop \<Rightarrow> ([], Inl stop, s)
      | Inr (Inl err) \<Rightarrow> ([], Inr (Some err), s)
      | Inr (Inr block) \<Rightarrow>
          (case rest_send_blocks W url len (i + 1) chain
                  (combcore_set_status (progress_status ''Mining'' (fmt_percent W i len)) s) of
             (out, r, s) \<Rightarrow> (block # out, r, s)))"

definition rest_get_block_range ::
  "btc_world \<Rightarrow> string \<Rightarrow> hash256 \<Rightarrow> (hash256 \<rightharpoonup> hash256) \<Rightarrow> u64 \<Rightarrow> ('d, 'l) node \<Rightarrow> ('d, 'l) sent" where
  "rest_get_block_range W url target history len s =
     (case rest_trace_chain W url target history len s of
        None \<Rightarrow> ([], Inl NoReturn, s)
      | Some (Inl err, s) \<Rightarrow> ([], Inr (Some err), s)
      | Some (Inr chain, s) \<Rightarrow> rest_send_blocks W url len 0 chain s)"

subsection \<open>The peer's chain\<close>

definition rest_get_chains :: "btc_world \<Rightarrow> string \<Rightarrow> go_error + ChainData" where
  "rest_get_chains W url =
     try_then (btc_rest_call W (url @ ''/chaininfo.json'')) (\<lambda>raw_json.
       case json_chaininfo W raw_json of
         Inl _ \<Rightarrow> Inl ErrGibberish
       | Inr (n_blocks, n_headers, best_block_hash) \<Rightarrow>
           try_then (parse_hex best_block_hash) (\<lambda>top_hash.
             Inr \<lparr>Chain_Height = n_blocks, Chain_KnownHeight = n_headers, Chain_TopHash = top_hash\<rparr>))"

end
