(* ===== verification/Btc_Direct.thy ===== *)
theory Btc_Direct
  imports Btc_Rest
begin

section \<open>btc_direct.go: blocks from Bitcoin's block files\<close>

text \<open>
  The block files are read one after the other into one buffer, newest file first, until the
  target can be traced back to a known block through the blocks loaded so far. The buffer is
  not cleared between files, and slice expressions on it are bounded by its capacity, so a
  frame that runs past the end of a file reads what an earlier file left there; the model
  keeps the whole buffer. One \<open>Read\<close> is taken to return the whole file.
\<close>

type_synonym raw_data = "hash256 \<rightharpoonup> BlockData"

subsection \<open>One file\<close>

function direct_parse_loop :: "u32 \<Rightarrow> bytes \<Rightarrow> nat \<Rightarrow> nat \<Rightarrow> raw_data \<Rightarrow> raw_data option" where
  "direct_parse_loop magic buf len p bs =
     (if p \<ge> len then Some bs
      else case Option.bind (slice buf p (p + 4)) get_le32 of
             None \<Rightarrow> None
           | Some m \<Rightarrow>
               if m \<noteq> magic then Some bs
               else case Option.bind (slice buf (p + 4) (p + 8)) get_le32 of
                      None \<Rightarrow> None
                    | Some n \<Rightarrow>
                        (case Option.bind (slice buf (p + 8) (p + 8 + unat n))
                                (\<lambda>data. btc_parse_block data zero_block_data) of
                           None \<Rightarrow> None
                         | Some block \<Rightarrow>
                             direct_parse_loop magic buf len (p + 8 + unat n)
                               (bs(BD_Hash block \<mapsto> block))))"
  by pat_completeness auto
termination
  by (relation "measure (\<lambda>(magic, buf, len, p, bs). len - p)") auto

declare direct_parse_loop.simps [simp del]

text \<open>The result is the buffer as the next file finds it, and the blocks.\<close>

definition direct_parse_block_file ::
  "btc_world \<Rightarrow> u32 \<Rightarrow> bytes \<Rightarrow> raw_data \<Rightarrow> string \<Rightarrow> (bytes \<times> raw_data) option" where
  "direct_parse_block_file W magic data bs path =
     (case fs_read W path of
        None \<Rightarrow> Some (data, bs)
      | Some contents \<Rightarrow>
          if length contents > length data then None
          else let data = contents @ drop (length contents) data
               in map_option (Pair data) (direct_parse_loop magic data (length contents) 0 bs))"

subsection \<open>Tracing back to a known block\<close>

partial_function (option) direct_trace_loop ::
  "raw_data \<Rightarrow> (hash256 \<rightharpoonup> hash256) \<Rightarrow> hash256 \<Rightarrow> hash256 list \<Rightarrow> (hash256 list \<times> hash256) option" where
  "direct_trace_loop bs history hash chain =
     (case bs hash of
        None \<Rightarrow> Some (chain, hash)
      | Some block \<Rightarrow>
          if history (BD_Previous block) \<noteq> None then Some (chain @ [hash], BD_Previous block)
          else direct_trace_loop bs history (BD_Previous block) (chain @ [hash]))"

definition direct_trace_chain ::
  "btc_world \<Rightarrow> raw_data \<Rightarrow> hash256 \<Rightarrow> (hash256 \<rightharpoonup> hash256) \<Rightarrow> u64 \<Rightarrow> ('d, 'l) node
     \<Rightarrow> (hash256 list \<times> ('d, 'l) node) option" where
  "direct_trace_chain W bs target history len s =
     (case direct_trace_loop bs history target [] of
        None \<Rightarrow> None
      | Some (chain, hash) \<Rightarrow>
          let s = combcore_set_status (progress_status ''Mining'' (fmt_percent W (length chain) len)) s
          in Some (if history hash = None then [] else reverse_in_place chain, s))"

fun direct_load_files ::
  "btc_world \<Rightarrow> hash256 \<Rightarrow> (hash256 \<rightharpoonup> hash256) \<Rightarrow> u64 \<Rightarrow> string list \<Rightarrow> bytes \<Rightarrow> raw_data \<Rightarrow> ('d, 'l) node
     \<Rightarrow> go_stop + raw_data \<times> hash256 list \<times> ('d, 'l) node" where
  "direct_load_files W target history len [] block_data bs s = Inr (bs, [], s)"
| "direct_load_files W target history len (file # files) block_data bs s =
     try_then (or_else PanicBounds (direct_parse_block_file W (COMB_Magic s) block_data bs file))
       (\<lambda>(block_data, bs).
     try_then (or_else NoReturn (direct_trace_chain W bs target history len s)) (\<lambda>(chain, s).
       if length chain \<noteq> 0 then Inr (bs, chain, s)
       else direct_load_files W target history len files block_data bs s))"

definition block_buffer :: bytes where
  "block_buffer = replicate (128 * 1024 * 1024) 0"

definition direct_load_trace ::
  "btc_world \<Rightarrow> string \<Rightarrow> hash256 \<Rightarrow> (hash256 \<rightharpoonup> hash256) \<Rightarrow> u64 \<Rightarrow> ('d, 'l) node
     \<Rightarrow> go_stop + go_error + raw_data \<times> hash256 list \<times> ('d, 'l) node" where
  "direct_load_trace W path target history len s =
     (case fs_glob W (path @ ''/blocks/blk*.dat'') of
        Inl err \<Rightarrow> Inr (Inl err)
      | Inr block_files \<Rightarrow>
          try_then (direct_load_files W target history len (reverse_in_place block_files)
                      block_buffer Map.empty s) (\<lambda>r. Inr (Inr r)))"

subsection \<open>The range\<close>

fun direct_send_blocks :: "raw_data \<Rightarrow> hash256 list \<Rightarrow> BlockData list \<times> (go_stop + go_error option)" where
  "direct_send_blocks bs [] = ([], Inr None)"
| "direct_send_blocks bs (hash # chain) =
     (case bs hash of
        None \<Rightarrow> ([], Inl PanicNilPointer)
      | Some block \<Rightarrow> (case direct_send_blocks bs chain of (out, r) \<Rightarrow> (block # out, r)))"

definition direct_get_block_range ::
  "btc_world \<Rightarrow> string \<Rightarrow> hash256 \<Rightarrow> (hash256 \<rightharpoonup> hash256) \<Rightarrow> u64 \<Rightarrow> ('d, 'l) node \<Rightarrow> ('d, 'l) sent" where
  "direct_get_block_range W path target history len s =
     (case direct_load_trace W path target history len s of
        Inl stop \<Rightarrow> ([], Inl stop, s)
      | Inr (Inl err) \<Rightarrow> ([], Inr (Some err), s)
      | Inr (Inr (bs, chain, s)) \<Rightarrow>
          (case direct_send_blocks bs chain of
             (out, r) \<Rightarrow> (out, r, combcore_set_status ''Storing...'' s)))"

definition direct_check_path :: "btc_world \<Rightarrow> string \<Rightarrow> go_error option" where
  "direct_check_path W path =
     (if path = '''' then Some ErrNoPath
      else case fs_stat W (path @ ''/blocks'') of
             Some err \<Rightarrow> Some err
           | None \<Rightarrow>
               (case fs_glob W (path @ ''/blocks'' @ ''/blk*.dat'') of
                  Inl err \<Rightarrow> Some err
                | Inr block_files \<Rightarrow> if block_files = [] then Some ErrNoBlockFiles else None))"

end
