(* ===== verification/Neominer.thy ===== *)
theory Neominer
  imports Combcore
begin

section \<open>neominer.go: taking blocks in\<close>

text \<open>
  The miner keeps a batch of records not yet written (\<open>NeoInfo\<close>), stores every delivered
  block through it, and starts a reorganisation when a block does not extend the tip. The
  boolean \<open>neominer_process_block\<close> returns is always false and unused; it is left out.
\<close>

definition neominer_init :: "('d, 'l) node \<Rightarrow> ('d, 'l) node" where
  "neominer_init s = s\<lparr>Neo_BatchCapacity := 10000, Neo_BatchCached := 0, Neo_Batch := []\<rparr>"

definition neominer_write :: "'d leveldb \<Rightarrow> ('d, 'l) node \<Rightarrow> go_stop + ('d, 'l) node" where
  "neominer_write L s =
     (case db_write L (node_db s) (Neo_Batch s) of
        (Some err, _, _) \<Rightarrow> Inl (PanicBatchWrite err)
      | (None, d, b) \<Rightarrow> Inr (s\<lparr>node_db := d, Neo_Batch := b, Neo_BatchCached := 0\<rparr>))"

definition neominer_block :: "BlockData \<Rightarrow> u64 \<Rightarrow> Block" where
  "neominer_block block_data height =
     \<lparr>Blk_Metadata =
        \<lparr>BM_Height = height, BM_Hash = BD_Hash block_data, BM_Previous = BD_Previous block_data,
         BM_Fingerprint = db_compute_block_fingerprint (BD_Commits block_data)\<rparr>,
      Blk_Commits = BD_Commits block_data\<rparr>"

definition neominer_reorg ::
  "'d leveldb \<Rightarrow> 'l libcomb \<Rightarrow> hash256 \<Rightarrow> ('d, 'l) node \<Rightarrow> go_stop + ('d, 'l) node" where
  "neominer_reorg L C previous s =
     (if previous \<noteq> COMB_Hash s then
        (case COMB_Chain s previous of
           None \<Rightarrow> Inl PanicChainBroken
         | Some _ \<Rightarrow> try_then (neominer_write L s) (combcore_reorg L C previous))
      else Inr s)"

definition neominer_process_block ::
  "'d leveldb \<Rightarrow> 'l libcomb \<Rightarrow> BlockData \<Rightarrow> ('d, 'l) node \<Rightarrow> go_stop + ('d, 'l) node" where
  "neominer_process_block L C block_data s =
     try_then (neominer_reorg L C (BD_Previous block_data) s) (\<lambda>s.
       if BD_Previous block_data \<noteq> COMB_Hash s then Inl PanicReorgFailed
       else
         let block = neominer_block block_data (COMB_Height s + 1)
         in case db_process_block L (node_db s) (Neo_Batch s) block of
              (Some err, _) \<Rightarrow> Inl (PanicStoreBlock err)
            | (None, b) \<Rightarrow>
                try_then
                  (combcore_process_block C block
                     (s\<lparr>Neo_Batch := b, Neo_BatchCached := Neo_BatchCached s + 1\<rparr>))
                  (\<lambda>s. if Neo_BatchCached s \<ge> Neo_BatchCapacity s then neominer_write L s
                       else Inr s))"

subsection \<open>Inspection\<close>

text \<open>
  The lines that \<open>neominer_inspect\<close> logs, and with the counts of \<open>db_inspect\<close> before them those
  of \<open>combcore_dump\<close>; the version is a string of \<open>libcomb\<close>.
\<close>

definition neominer_inspect :: "string \<Rightarrow> ('d, 'l) node \<Rightarrow> string list" where
  "neominer_inspect version s =
     [''BTC Node:'',
      CHR 0x09 # ''Height: '' @ fmt_d (unat (Chain_Height (BTC_Chain s))) @ '' of ''
        @ fmt_d (unat (Chain_KnownHeight (BTC_Chain s))),
      ''COMB Node:'',
      CHR 0x09 # ''Version: '' @ version,
      CHR 0x09 # ''Height: '' @ fmt_d (unat (COMB_Height s))]"

definition combcore_dump ::
  "'d leveldb \<Rightarrow> string \<Rightarrow> ('d, 'l) node \<Rightarrow> (u64 \<times> u64 \<times> (u16 \<Rightarrow> u64)) \<times> string list" where
  "combcore_dump L version s = (db_inspect L (node_db s), neominer_inspect version s)"

end
