(* ===== verification/Btc_Sync.thy ===== *)
theory Btc_Sync
  imports Btc_Direct Neominer
begin

section \<open>btc.go: synchronising with the Bitcoin node\<close>

text \<open>
  \<open>btc_sync\<close> runs the range function in the main goroutine and the miner in another one. The
  range function reads the child-to-parent map only before it sends its first block, and
  afterwards touches only the status line, which the miner does not; so the two commute, and
  the model runs the miner on the list of sent blocks. The program dies when either panics.
\<close>

definition btc_init :: "btc_world \<Rightarrow> string \<Rightarrow> nat \<Rightarrow> string \<Rightarrow> ('d, 'l) node \<Rightarrow> ('d, 'l) node" where
  "btc_init W btc_peer btc_port btc_data s =
     (let s = s\<lparr>BTC_RestURL := ''http://'' @ btc_peer @ '':'' @ fmt_d btc_port @ ''/rest''\<rparr>
      in case direct_check_path W btc_data of
           Some _ \<Rightarrow> s
         | None \<Rightarrow> s\<lparr>BTC_DirectPath := btc_data\<rparr>)"

definition btc_get_block_range ::
  "btc_world \<Rightarrow> hash256 \<Rightarrow> (hash256 \<rightharpoonup> hash256) \<Rightarrow> u64 \<Rightarrow> ('d, 'l) node \<Rightarrow> ('d, 'l) sent" where
  "btc_get_block_range W target chain delta s =
     (if BTC_DirectPath s \<noteq> '''' \<and> delta > 10
      then direct_get_block_range W (BTC_DirectPath s) target chain delta s
      else rest_get_block_range W (BTC_RestURL s) target chain delta s)"

text \<open>\<open>uint64(int64(a) - int64(b))\<close> is the difference of the words.\<close>

definition btc_sync ::
  "btc_world \<Rightarrow> 'd leveldb \<Rightarrow> 'l libcomb \<Rightarrow> ('d, 'l) node \<Rightarrow> go_stop + ('d, 'l) node" where
  "btc_sync W L C s =
     (case rest_get_chains W (BTC_RestURL s) of
        Inl _ \<Rightarrow>
          Inr (s\<lparr>BTC_Chain := \<lparr>Chain_Height = 0, Chain_KnownHeight = 0, Chain_TopHash = zero32\<rparr>\<rparr>)
      | Inr chain \<Rightarrow>
          let s = s\<lparr>BTC_Chain := chain\<rparr>
          in if COMB_Hash s = Chain_TopHash chain then Inr s
             else case btc_get_block_range W (Chain_TopHash chain) (COMB_Chain s)
                         (Chain_Height chain - COMB_Height s) s of
                    (blocks, r, s) \<Rightarrow>
                      try_then (fold_res (neominer_process_block L C) blocks s) (\<lambda>s.
                        case r of Inl stop \<Rightarrow> Inl stop | Inr _ \<Rightarrow> neominer_write L s))"

end
