(* ===== verification/DB_Load.thy ===== *)
theory DB_Load
  imports Combcore
begin

section \<open>db.go: opening and loading the database\<close>

text \<open>
  \<open>db_load\<close> runs \<open>db_load_blocks\<close> in the main goroutine and consumes its channel in another
  one, which nothing else runs beside: the channel is unbuffered and only the consumer changes
  the node, so the model consumes the list of sent blocks. A panic in the consumer is
  recovered: the remaining blocks are discarded and, when the panic was a fingerprint mismatch,
  the blocks from the corrupted height on are removed; any other panic leaves
  \<open>corruption_height\<close> at zero and panics again. (In the code the removal runs after the main
  goroutine has been released; here it is finished before \<open>db_load\<close> returns, and \<open>Load_Race\<close>
  has the other order.)
  \<open>leveldb.OpenFile\<close> is the parameter \<open>open_file\<close>, of the path and \<open>ErrorIfMissing\<close>.
\<close>

definition db_open ::
  "(string \<Rightarrow> bool \<Rightarrow> go_error + 'd) \<Rightarrow> ('d, 'l) node \<Rightarrow> go_error + ('d, 'l) node" where
  "db_open open_file s =
     (case open_file (COMB_Path s) True of
        Inr d \<Rightarrow> Inr (s\<lparr>node_db := d\<rparr>)
      | Inl _ \<Rightarrow>
          (case open_file (COMB_Path s) False of
             Inr d \<Rightarrow> Inr (s\<lparr>node_db_is_new := True, node_db := d\<rparr>)
           | Inl err \<Rightarrow> Inl err))"

definition db_load_recover ::
  "'d leveldb \<Rightarrow> u64 \<Rightarrow> ('d, 'l) node \<Rightarrow> go_stop + ('d, 'l) node" where
  "db_load_recover L corruption_height s =
     (if corruption_height = 0 then Inl PanicCorruptionZero
      else case db_remove_blocks_after L (node_db s) corruption_height of
             (_, d) \<Rightarrow> Inr (s\<lparr>node_db := d\<rparr>))"

fun db_load_consume ::
  "'d leveldb \<Rightarrow> 'l libcomb \<Rightarrow> Block list \<Rightarrow> ('d, 'l) node \<Rightarrow> go_stop + ('d, 'l) node" where
  "db_load_consume L C [] s = Inr s"
| "db_load_consume L C (block # blocks) s =
     (if BM_Fingerprint (Blk_Metadata block) \<noteq> db_compute_block_fingerprint (Blk_Commits block)
      then db_load_recover L (BM_Height (Blk_Metadata block)) s
      else case combcore_process_block C block s of
             Inl _ \<Rightarrow> db_load_recover L 0 s
           | Inr s \<Rightarrow> db_load_consume L C blocks s)"

definition db_load ::
  "'d leveldb \<Rightarrow> 'l libcomb \<Rightarrow> ('d, 'l) node \<Rightarrow> go_stop + ('d, 'l) node" where
  "db_load L C s =
     try_then (or_else PanicBounds (db_load_blocks L (node_db s) 0 (NOT 0 - 1)))
       (\<lambda>blocks. db_load_consume L C blocks s)"

definition db_start ::
  "'d leveldb \<Rightarrow> 'l libcomb \<Rightarrow> ('d, 'l) node \<Rightarrow> go_stop + ('d, 'l) node" where
  "db_start L C s =
     (if node_db_is_new s then
        (case db_new L (node_db s) of (d, v) \<Rightarrow> Inr (s\<lparr>node_db := d, DB_Version := v\<rparr>))
      else
        try_then (or_else PanicBounds (db_get_version L (node_db s))) (\<lambda>v.
          if v \<noteq> DB_CURRENT_VERSION then Inl PanicLegacyDB
          else try_then (db_load L C (s\<lparr>DB_Version := v, DB_InitialLoad := True\<rparr>))
                 (\<lambda>s. Inr (s\<lparr>DB_InitialLoad := False\<rparr>))))"

end
