(* ===== verification/Combcore_Main.thy ===== *)
theory Combcore_Main
  imports Config Btc_Sync DB_Load
begin

section \<open>main.go: start-up and the synchronisation loop\<close>

text \<open>
  The globals start as Go's zero values; \<open>'d\<close> and \<open>'l\<close> are then the nil database handle and
  the library's initial state. \<open>rpc_start\<close> and \<open>ghetto_rpc\<close> (in \<open>Rpc_Server\<close> and
  \<open>Ghetto_Server\<close>) start the servers beside this and change nothing of the state; they are left out here
  with the log file and the sleep between two rounds.
  \<open>log.Fatal\<close> on a database that cannot be opened is the stop \<open>FatalOpen\<close>. The loop of a full
  node has no end: \<open>full_node_rounds\<close> is what its first rounds do, one per element of the list,
  which is the world outside at that round.
\<close>

definition globals :: "'d \<Rightarrow> 'l \<Rightarrow> ('d, 'l) node" where
  "globals d l =
     \<lparr>COMB_Height = 0, COMB_Hash = zero32, COMB_Chain = Map.empty, COMB_Status = '''',
      COMB_StatusLock = False, COMB_Network = '''', COMB_Magic = 0, COMB_Prefix = Map.empty,
      COMB_Path = '''', DB_InitialLoad = False, DB_Version = 0, node_db = d, node_db_is_new = False,
      Neo_BatchCapacity = 0, Neo_BatchCached = 0, Neo_Batch = [], BTC_RestURL = '''', BTC_DirectPath = '''',
      BTC_Chain = \<lparr>Chain_Height = 0, Chain_KnownHeight = 0, Chain_TopHash = zero32\<rparr>, node_lib = l\<rparr>"

definition main_start ::
  "flags \<Rightarrow> (string \<Rightarrow> bool \<Rightarrow> go_error + 'd) \<Rightarrow> 'd leveldb \<Rightarrow> 'l libcomb \<Rightarrow> ('d, 'l) node
     \<Rightarrow> go_stop + ('d, 'l) node" where
  "main_start F open_file L C s =
     (let s = combcore_set_status ''Initializing...'' s
      in try_then (combcore_init C (comb_network F) s) (\<lambda>s.
         let s = neominer_init s
         in case db_open open_file s of
              Inl err \<Rightarrow> Inl (FatalOpen err)
            | Inr s \<Rightarrow>
                try_then (db_start L C (combcore_set_status ''Loading...'' s)) (\<lambda>s.
                  Inr (combcore_set_status ''Idle'' s))))"

definition full_node_rounds ::
  "'d leveldb \<Rightarrow> 'l libcomb \<Rightarrow> btc_world list \<Rightarrow> ('d, 'l) node \<Rightarrow> go_stop + ('d, 'l) node" where
  "full_node_rounds L C worlds s =
     fold_res (\<lambda>W s. try_then (btc_sync W L C s) (\<lambda>s. Inr (combcore_set_status ''Idle'' s))) worlds s"

text \<open>\<open>worlds\<close> begins with the world \<open>btc_init\<close> sees; other modes only serve requests.\<close>

definition main_run ::
  "flags \<Rightarrow> (string \<Rightarrow> bool \<Rightarrow> go_error + 'd) \<Rightarrow> 'd leveldb \<Rightarrow> 'l libcomb \<Rightarrow> btc_world \<Rightarrow> btc_world list
     \<Rightarrow> ('d, 'l) node \<Rightarrow> go_stop + ('d, 'l) node" where
  "main_run F open_file L C W worlds s =
     try_then (main_start F open_file L C s) (\<lambda>s.
       if node_mode F = FULL_NODE
       then full_node_rounds L C worlds (btc_init W (btc_peer F) (btc_port F) (btc_data F) s)
       else Inr s)"

end
