(* ===== verification/DB_Layout.thy ===== *)
theory DB_Layout
  imports DB "HOL-Library.Multiset"
begin

section \<open>What the block database contains\<close>

text \<open>
  The contract of \<open>db.go\<close>: a database that holds a list of blocks contains the version
  record and, block by block in ascending height, the metadata record (an 8-byte key) and
  the commits (16-byte keys: height, position, four zero bytes). The lemmas describe every
  operation of \<open>DB\<close> on such a database as an operation on the list of blocks; they are
  proved once in the context of the LevelDB laws.
\<close>

abbreviation blk_height :: "Block \<Rightarrow> u64" where
  "blk_height b \<equiv> BM_Height (Blk_Metadata b)"

abbreviation blk_hash :: "Block \<Rightarrow> hash256" where
  "blk_hash b \<equiv> BM_Hash (Blk_Metadata b)"

abbreviation blk_previous :: "Block \<Rightarrow> hash256" where
  "blk_previous b \<equiv> BM_Previous (Blk_Metadata b)"

fun commit_entries :: "tag \<Rightarrow> hash256 list \<Rightarrow> (bytes \<times> bytes) list" where
  "commit_entries t [] = []"
| "commit_entries t (c # cs) =
     (encode_tag t, c) # commit_entries (t\<lparr>Tag_Order := Tag_Order t + 1\<rparr>) cs"

definition block_entries :: "Block \<Rightarrow> (bytes \<times> bytes) list" where
  "block_entries b =
     encode_block_metadata (Blk_Metadata b)
     # commit_entries \<lparr>Tag_Height = blk_height b, Tag_Order = 0\<rparr> (Blk_Commits b)"

definition chain_entries :: "Block list \<Rightarrow> (bytes \<times> bytes) list" where
  "chain_entries bs = concat (map block_entries bs)"

definition stored :: "Block list \<Rightarrow> (bytes \<times> bytes) list" where
  "stored bs = (replicate 2 0, put_be16 DB_CURRENT_VERSION) # chain_entries bs"

definition wf_block :: "Block \<Rightarrow> bool" where
  "wf_block b \<longleftrightarrow> wf_metadata (Blk_Metadata b) \<and> list_all is32 (Blk_Commits b)
                 \<and> length (Blk_Commits b) \<le> 4294967296"

definition wf_chain :: "Block list \<Rightarrow> bool" where
  "wf_chain bs \<longleftrightarrow> list_all wf_block bs \<and> sorted_wrt (<) (map blk_height bs)"

definition db_holds :: "'d leveldb \<Rightarrow> 'd \<Rightarrow> Block list \<Rightarrow> bool" where
  "db_holds L d bs \<longleftrightarrow> ldb_entries L d = stored bs \<and> wf_chain bs"

lemma wf_chain_simps [simp]:
  "wf_chain []"
  "wf_chain (b # bs) \<longleftrightarrow> wf_block b \<and> (\<forall>x \<in> set bs. blk_height b < blk_height x) \<and> wf_chain bs"
  by (auto simp: wf_chain_def)

lemma wf_chain_append:
  "wf_chain (as @ bs) \<longleftrightarrow>
     wf_chain as \<and> wf_chain bs \<and> (\<forall>a \<in> set as. \<forall>b \<in> set bs. blk_height a < blk_height b)"
  by (induction as) auto

lemma wf_chain_le_last:
  "wf_chain bs \<Longrightarrow> b \<in> set bs \<Longrightarrow> blk_height b \<le> blk_height (last bs)"
  by (induction bs) (auto dest: less_imp_le)

lemma wf_chain_filter: "wf_chain bs \<Longrightarrow> wf_chain (filter P bs)"
  by (induction bs) auto

lemma chain_entries_simps [simp]:
  "chain_entries [] = []"
  "chain_entries (b # bs) = block_entries b @ chain_entries bs"
  "chain_entries (as @ bs) = chain_entries as @ chain_entries bs"
  by (simp_all add: chain_entries_def)

subsection \<open>Keys and their order\<close>

lemma key_order [simp]:
  "put_be64 h \<le> put_be64 g @ r \<longleftrightarrow> h \<le> g"
  "put_be64 g @ r < put_be64 h \<longleftrightarrow> g < h"
  "prefix (put_be64 h) (put_be64 g @ r) \<longleftrightarrow> h = g"
proof -
  show less: "put_be64 g @ r < put_be64 h \<longleftrightarrow> g < h"
    using list_less_append_same [of "put_be64 g" "put_be64 h" r "[]"] by auto
  show "put_be64 h \<le> put_be64 g @ r \<longleftrightarrow> h \<le> g"
    using less by (metis linorder_not_less)
  show "prefix (put_be64 h) (put_be64 g @ r) \<longleftrightarrow> h = g"
    by (auto simp: prefix_def append_eq_append_conv)
qed

lemma key_block_order: "g < h \<Longrightarrow> put_be64 g @ r < put_be64 h @ s"
  by (simp add: list_less_append_same)

lemma version_key_less:
  "replicate 2 0 < put_be64 h @ r" "\<not> put_be64 h \<le> replicate 2 0" "\<not> prefix (put_be64 h) (replicate 2 0)"
proof -
  obtain x y zs where hd: "put_be64 h = x # y # zs" and zs: "zs \<noteq> []"
  proof -
    have "length (put_be64 h) = Suc (Suc (Suc 5))" by simp
    then obtain x y z zs where "put_be64 h = x # y # z # zs"
      unfolding length_Suc_conv by blast
    then show ?thesis using that by blast
  qed
  have "(0::byte) < x \<or> x = 0" "(0::byte) < y \<or> y = 0"
    by (auto simp: word_neq_0_conv)
  then show less: "replicate 2 0 < put_be64 h @ r"
    using hd zs by (auto simp: numeral_eq_Suc neq_Nil_conv)
  show "\<not> put_be64 h \<le> replicate 2 0"
    using hd zs \<open>(0::byte) < x \<or> x = 0\<close> \<open>(0::byte) < y \<or> y = 0\<close>
    by (auto simp: numeral_eq_Suc neq_Nil_conv not_le)
  show "\<not> prefix (put_be64 h) (replicate 2 0)"
    using hd zs by (auto simp: prefix_def numeral_eq_Suc)
qed

lemma commit_entries_key:
  "e \<in> set (commit_entries t cs) \<Longrightarrow>
     \<exists>i. fst e = encode_tag (t\<lparr>Tag_Order := i\<rparr>) \<and> length (fst e) = 16"
proof (induction t cs rule: commit_entries.induct)
  case (2 t c cs)
  show ?case
  proof (cases "e = (encode_tag t, c)")
    case True
    then show ?thesis by (auto intro!: exI [of _ "Tag_Order t"])
  next
    case False
    with 2 show ?thesis by auto
  qed
qed simp

lemma block_entries_key: "e \<in> set (block_entries b) \<Longrightarrow> \<exists>r. fst e = put_be64 (blk_height b) @ r"
  unfolding block_entries_def
  by (auto simp: encode_block_metadata_def encode_tag_def dest!: commit_entries_key)

lemma commit_entries_after:
  assumes "unat (Tag_Order t) + length cs \<le> 4294967296" "e \<in> set (commit_entries t cs)"
  shows "\<exists>i. fst e = encode_tag (t\<lparr>Tag_Order := i\<rparr>) \<and> Tag_Order t \<le> i"
  using assms
proof (induction t cs rule: commit_entries.induct)
  case (2 t c cs)
  show ?case
  proof (cases "e = (encode_tag t, c)")
    case True
    then show ?thesis by (auto intro!: exI [of _ "Tag_Order t"])
  next
    case False
    with "2.prems" have e: "e \<in> set (commit_entries (t\<lparr>Tag_Order := Tag_Order t + 1\<rparr>) cs)" by simp
    then have "cs \<noteq> []" by auto
    with "2.prems"(1) have "unat (Tag_Order t) + 1 < 4294967296" by (cases cs) auto
    then have next_order: "unat (Tag_Order t + 1) = unat (Tag_Order t) + 1"
      by (simp add: unat_word_ariths)
    with "2.IH" "2.prems" e obtain i where
      "fst e = encode_tag (t\<lparr>Tag_Order := i\<rparr>)" "Tag_Order t + 1 \<le> i" by auto
    with next_order show ?thesis
      by (auto intro!: exI [of _ i] simp: word_le_nat_alt)
  qed
qed simp

lemma commit_entries_ascending:
  "unat (Tag_Order t) + length cs \<le> 4294967296 \<Longrightarrow> ascending (commit_entries t cs)"
proof (induction t cs rule: commit_entries.induct)
  case (2 t c cs)
  let ?t = "t\<lparr>Tag_Order := Tag_Order t + 1\<rparr>"
  show ?case
  proof (cases "cs = []")
    case False
    with "2.prems" have "unat (Tag_Order t) + 1 < 4294967296" by (cases cs) auto
    then have next_order: "unat (Tag_Order t + 1) = unat (Tag_Order t) + 1"
      by (simp add: unat_word_ariths)
    have "encode_tag t < fst e" if e: "e \<in> set (commit_entries ?t cs)" for e
    proof -
      obtain i where "fst e = encode_tag (?t\<lparr>Tag_Order := i\<rparr>)" "Tag_Order ?t \<le> i"
        using commit_entries_after [of ?t cs e] e "2.prems" next_order by auto
      then show ?thesis
        using next_order
        by (simp add: encode_tag_less tag_less_iff word_less_nat_alt word_le_nat_alt)
    qed
    with "2.IH" "2.prems" next_order show ?thesis by simp
  qed simp
qed simp

lemma block_entries_ascending: "wf_block b \<Longrightarrow> ascending (block_entries b)"
  by (auto simp: block_entries_def wf_block_def commit_entries_ascending encode_block_metadata_def
      encode_tag_def list_less_prefix dest!: commit_entries_key)

lemma chain_entries_key:
  "e \<in> set (chain_entries bs) \<Longrightarrow> \<exists>b \<in> set bs. e \<in> set (block_entries b)"
  by (auto simp: chain_entries_def)

lemma chain_entries_ascending: "wf_chain bs \<Longrightarrow> ascending (chain_entries bs)"
proof (induction bs)
  case (Cons b bs)
  then show ?case
    by (fastforce simp: ascending_append block_entries_ascending key_block_order
        dest!: chain_entries_key block_entries_key)
qed simp

lemma stored_ascending: "wf_chain bs \<Longrightarrow> ascending (stored bs)"
  using version_key_less
  by (fastforce simp: stored_def chain_entries_ascending dest!: chain_entries_key block_entries_key)

text \<open>A test on keys that looks only at the height selects whole blocks.\<close>

lemma filter_block_entries:
  assumes "\<And>r. P (put_be64 (blk_height b) @ r) \<longleftrightarrow> Q (blk_height b)"
  shows "filter (\<lambda>e. P (fst e)) (block_entries b) = (if Q (blk_height b) then block_entries b else [])"
  using assms block_entries_key [of _ b] by (fastforce simp: filter_empty_conv intro: filter_True)

lemma filter_chain_entries:
  assumes "\<And>h r. P (put_be64 h @ r) \<longleftrightarrow> Q h"
  shows "filter (\<lambda>e. P (fst e)) (chain_entries bs) = chain_entries (filter (\<lambda>b. Q (blk_height b)) bs)"
  by (induction bs) (simp_all add: filter_block_entries [where P = P and Q = Q] assms)

lemma stored_filter:
  assumes "\<And>h r. P (put_be64 h @ r) \<longleftrightarrow> Q h" "\<not> P (replicate 2 0)"
  shows "filter (\<lambda>e. P (fst e)) (stored bs) = chain_entries (filter (\<lambda>b. Q (blk_height b)) bs)"
  using filter_chain_entries [where P = P and Q = Q, OF assms(1)] assms(2) by (simp add: stored_def)

lemma stored_from:
  "filter (\<lambda>e. put_be64 h \<le> fst e) (stored bs) = chain_entries (filter (\<lambda>b. h \<le> blk_height b) bs)"
  by (rule stored_filter [where P = "\<lambda>k. put_be64 h \<le> k"]) (simp_all add: version_key_less)

lemma stored_prefix:
  "filter (\<lambda>e. prefix (put_be64 h) (fst e)) (stored bs) = chain_entries (filter (\<lambda>b. h = blk_height b) bs)"
  by (rule stored_filter [where P = "prefix (put_be64 h)"]) (simp_all add: version_key_less)

lemma stored_between:
  "filter (\<lambda>e. put_be64 g \<le> fst e \<and> fst e < put_be64 h) (stored bs) =
     chain_entries (filter (\<lambda>b. g \<le> blk_height b \<and> blk_height b < h) bs)"
  by (rule stored_filter [where P = "\<lambda>k. put_be64 g \<le> k \<and> k < put_be64 h"])
    (simp_all add: version_key_less)

lemma stored_except:
  assumes "\<And>h r. P (put_be64 h @ r) \<longleftrightarrow> Q h" "P (replicate 2 0)"
  shows "filter (\<lambda>e. P (fst e)) (stored bs) = stored (filter (\<lambda>b. Q (blk_height b)) bs)"
  using filter_chain_entries [where P = P and Q = Q, OF assms(1)] assms(2) by (simp add: stored_def)

subsection \<open>Deleting and adding blocks\<close>

text \<open>Deleting the keys a filter of an ascending list selects leaves the other pairs.\<close>

lemma delete_filtered:
  "apply_batch (map (\<lambda>e. Delete (fst e)) (filter (\<lambda>e. P (fst e)) es)) (map_of es)
     = map_of (filter (\<lambda>e. \<not> P (fst e)) es)"
proof -
  have "apply_batch (map Delete (map fst (filter (\<lambda>e. P (fst e)) es))) (map_of es)
          = map_of es |` (- set (map fst (filter (\<lambda>e. P (fst e)) es)))"
    by (rule apply_deletes)
  also have "\<dots> = map_of es |` {k. \<not> P k}"
  proof (rule ext)
    fix k
    have "map_of es k = None" if "P k" "k \<notin> set (map fst (filter (\<lambda>e. P (fst e)) es))"
      using that by (force simp: map_of_eq_None_iff)
    then show "(map_of es |` (- set (map fst (filter (\<lambda>e. P (fst e)) es)))) k
                 = (map_of es |` {k. \<not> P k}) k"
      by (auto simp: restrict_map_def)
  qed
  finally show ?thesis
    by (simp add: map_of_filter_key [where P = "\<lambda>k. \<not> P k"] comp_def)
qed

lemma store_commits_eq:
  "store_commits t cs b = b @ map (\<lambda>(k, v). Put k v) (commit_entries t cs)"
  by (induction t cs b rule: store_commits.induct) auto

lemma db_store_block_eq:
  "db_store_block b block =
     b @ map (\<lambda>(k, v). Put k v) (tl (block_entries block) @ [hd (block_entries block)])"
  by (simp add: db_store_block_def store_commits_eq block_entries_def Let_def split: prod.splits)

lemma apply_store_block:
  assumes "wf_block block"
  shows "apply_batch (db_store_block [] block) m = m ++ map_of (block_entries block)"
proof -
  let ?es = "block_entries block"
  have dist: "distinct (map fst (tl ?es @ [hd ?es]))"
    using ascending_distinct [OF block_entries_ascending [OF assms]]
    by (auto simp: block_entries_def)
  have "map_of (tl ?es @ [hd ?es]) = map_of ?es"
    using dist ascending_distinct [OF block_entries_ascending [OF assms]]
    by (intro map_of_inject_set [THEN iffD2]) (auto simp: block_entries_def)
  with dist show ?thesis
    by (simp only: db_store_block_eq apply_puts_distinct append_Nil)
qed

lemma wf_chain_split:
  assumes "wf_chain bs" "h \<notin> blk_height ` set bs"
  shows "bs = filter (\<lambda>b. blk_height b < h) bs @ filter (\<lambda>b. h < blk_height b) bs"
  using assms
proof (induction bs)
  case (Cons b bs)
  show ?case
  proof (cases "blk_height b < h")
    case True
    with Cons show ?thesis by simp
  next
    case False
    with Cons.prems have above: "\<forall>x \<in> set (b # bs). h < blk_height x" by fastforce
    then have "filter (\<lambda>b. h < blk_height b) (b # bs) = b # bs"
      "filter (\<lambda>b. blk_height b < h) (b # bs) = []"
      by (auto simp: filter_empty_conv)
    then show ?thesis by simp
  qed
qed simp

lemma map_of_mset_eq:
  assumes "mset xs = mset ys" "distinct (map fst ys)"
  shows "map_of xs = map_of ys"
proof -
  have "distinct (map fst xs)"
    using assms by (metis mset_map mset_eq_imp_distinct_iff)
  then show ?thesis
    using map_of_inject_set [OF _ assms(2)] mset_eq_setD [OF assms(1)] by blast
qed

text \<open>Storing a block over a stored chain, where its height is free.\<close>

lemma store_block_stored:
  assumes "wf_chain bs" "wf_block block" "blk_height block \<notin> blk_height ` set bs"
  shows "apply_batch (db_store_block [] block) (map_of (stored bs)) =
    map_of (stored (filter (\<lambda>b. blk_height b < blk_height block) bs @ [block]
              @ filter (\<lambda>b. blk_height block < blk_height b) bs))" (is "_ = map_of (stored ?bs)")
proof -
  have wf: "wf_chain ?bs"
    using assms by (auto simp: wf_chain_append wf_chain_filter)
  have "map_of (stored bs) ++ map_of (block_entries block) = map_of (stored ?bs)"
  proof -
    let ?lo = "filter (\<lambda>b. blk_height b < blk_height block) bs"
    let ?hi = "filter (\<lambda>b. blk_height block < blk_height b) bs"
    have bs: "bs = ?lo @ ?hi"
      by (rule wf_chain_split) fact+
    have "stored bs = stored (?lo @ ?hi)"
      by (rule arg_cong [OF bs])
    then have perm: "mset (stored bs @ block_entries block) = mset (stored ?bs)"
      by (simp add: stored_def)
    have dist: "distinct (map fst (stored ?bs))"
      by (rule ascending_distinct [OF stored_ascending [OF wf]])
    have "mset (block_entries block @ stored bs) = mset (stored ?bs)"
      using perm by (simp only: mset_append add.commute)
    then have "map_of (block_entries block @ stored bs) = map_of (stored ?bs)"
      using dist by (rule map_of_mset_eq)
    then show ?thesis by (simp only: map_of_append)
  qed
  then show ?thesis
    by (simp add: apply_store_block assms(2))
qed

subsection \<open>Scans over whole blocks\<close>

lemma block_entries_lengths:
  "e \<in> set (commit_entries t cs) \<Longrightarrow> length (fst e) = 16"
  using commit_entries_key by blast

lemma commit_entries_values: "map snd (commit_entries t cs) = cs"
  by (induction t cs rule: commit_entries.induct) auto

lemma by_hash_skip:
  "(\<And>e. e \<in> set xs \<Longrightarrow> length (fst e) \<noteq> 8) \<Longrightarrow> by_hash_loop hash md (xs @ ys) = by_hash_loop hash md ys"
  by (induction xs) (auto simp: db_lengths)

text \<open>
  The backward scan over a stored chain: the newest block with the hash, otherwise the oldest
  block of the database, otherwise the initial value.
\<close>

definition scan_result :: "hash256 \<Rightarrow> BlockMetadata \<Rightarrow> Block list \<Rightarrow> BlockMetadata" where
  "scan_result hash md bs =
     (case List.find (\<lambda>b. blk_hash b = hash) (rev bs) of
        Some b \<Rightarrow> Blk_Metadata b
      | None \<Rightarrow> (case bs of [] \<Rightarrow> md | b # _ \<Rightarrow> Blk_Metadata b))"

lemma by_hash_block:
  assumes "wf_block b"
  shows "by_hash_loop hash md (rev (block_entries b) @ ys) =
    (if blk_hash b = hash then Some (Blk_Metadata b) else by_hash_loop hash (Blk_Metadata b) ys)"
proof -
  have "by_hash_loop hash md (rev (commit_entries t cs) @ zs) = by_hash_loop hash md zs" for t cs zs
    by (rule by_hash_skip) (auto dest: block_entries_lengths)
  with assms show ?thesis
    by (simp add: block_entries_def encode_block_metadata_def wf_block_def db_lengths)
qed

lemma by_hash_stored:
  "wf_chain bs \<Longrightarrow> by_hash_loop hash md (rev (stored bs)) = Some (scan_result hash md bs)"
proof (induction bs arbitrary: md rule: rev_induct)
  case Nil
  then show ?case by (simp add: stored_def scan_result_def db_lengths)
next
  case (snoc b bs)
  then show ?case
    by (cases bs) (auto simp: stored_def by_hash_block wf_chain_append scan_result_def split: option.split)
qed

lemma load_block_commits:
  "list_all is32 cs \<Longrightarrow>
   fold_opt load_blocks_step (commit_entries t cs) (out, blk, e)
     = Some (out, blk\<lparr>Blk_Commits := Blk_Commits blk @ cs\<rparr>, e)"
proof (induction t cs arbitrary: blk rule: commit_entries.induct)
  case (2 t c cs)
  then show ?case
    by (simp add: load_blocks_step_def db_lengths decode_commit_def)
qed simp

lemma load_one_block:
  assumes "wf_block b"
  shows "fold_opt load_blocks_step (block_entries b) (out, blk, e) = Some (out @ [blk], b, False)"
  using assms load_block_commits
  by (simp add: block_entries_def encode_block_metadata_def load_blocks_step_def db_lengths wf_block_def)

lemma load_chain_entries:
  "wf_chain bs \<Longrightarrow> fold_opt load_blocks_step (chain_entries bs) (out, blk, e) =
     Some (if bs = [] then (out, blk, e) else (out @ blk # butlast bs, last bs, False))"
proof (induction bs arbitrary: out blk e)
  case (Cons b bs)
  then show ?case
    by (simp add: fold_opt_append load_one_block)
qed simp

lemma fingerprint_skip:
  "(\<And>e. e \<in> set xs \<Longrightarrow> length (fst e) \<noteq> 8) \<Longrightarrow> fold_opt fingerprint_step xs f = Some f"
  by (induction xs) (auto simp: fingerprint_step_def db_lengths)

lemma fingerprint_block_key:
  "wf_metadata md \<Longrightarrow> fingerprint_step (encode_block_metadata md) f = Some (xor_hex f (BM_Fingerprint md))"
  by (simp add: fingerprint_step_def encode_block_metadata_def db_lengths)

lemma fingerprint_chain_entries:
  "wf_chain bs \<Longrightarrow> fold_opt fingerprint_step (chain_entries bs) f =
     Some (fold (\<lambda>b f. xor_hex f (BM_Fingerprint (Blk_Metadata b))) bs f)"
proof (induction bs arbitrary: f)
  case (Cons b bs)
  have "fold_opt fingerprint_step (commit_entries t cs) f = Some f" for t cs f
    by (rule fingerprint_skip) (auto dest: block_entries_lengths)
  with Cons show ?case
    by (simp add: fold_opt_append block_entries_def fingerprint_block_key wf_block_def)
qed simp

lemma find_commits_block:
  "list_all is32 cs \<Longrightarrow> fold_opt (find_commits_step c) (commit_entries t cs) (h, out)
     = Some (h, out @ replicate (count_list cs c) h)"
proof (induction t cs arbitrary: out rule: commit_entries.induct)
  case (2 t c' cs)
  then show ?case
    by (simp add: find_commits_step_def db_lengths)
qed simp

lemma find_commits_chain:
  "wf_chain bs \<Longrightarrow> \<exists>h'. fold_opt (find_commits_step c) (chain_entries bs) (h, out) =
     Some (h', out @ concat (map (\<lambda>b. replicate (count_list (Blk_Commits b) c) (blk_height b)) bs))"
proof (induction bs arbitrary: h out)
  case (Cons b bs)
  have "fold_opt (find_commits_step c) (block_entries b) (h, out)
          = Some (blk_height b, out @ replicate (count_list (Blk_Commits b) c) (blk_height b))"
    using Cons.prems find_commits_block
    by (simp add: block_entries_def encode_block_metadata_def find_commits_step_def db_lengths wf_block_def)
  moreover obtain h' where "fold_opt (find_commits_step c) (chain_entries bs)
      (blk_height b, out @ replicate (count_list (Blk_Commits b) c) (blk_height b)) =
    Some (h', (out @ replicate (count_list (Blk_Commits b) c) (blk_height b))
      @ concat (map (\<lambda>b. replicate (count_list (Blk_Commits b) c) (blk_height b)) bs))"
    using Cons by fastforce
  ultimately show ?case
    by (simp add: fold_opt_append)
qed simp

subsection \<open>The operations on a store that keeps the laws\<close>

context leveldb_store
begin

lemma load_blocks_holds:
  assumes "db_holds L d bs"
  shows "db_load_blocks L d start end_height =
    Some (let sel = filter (\<lambda>b. start \<le> blk_height b \<and> blk_height b < end_height + 1) bs
          in if sel = [] then [] else zero_block # sel)"
  using assms
  by (simp add: db_load_blocks_def db_holds_def range_entries stored_between load_chain_entries
      wf_chain_filter Let_def)

lemma by_hash_holds:
  "db_holds L d bs \<Longrightarrow> db_get_block_by_hash L d hash = Some (scan_result hash zero_metadata bs)"
  by (simp add: db_get_block_by_hash_def db_holds_def by_hash_stored)

lemma by_height_holds:
  assumes "db_holds L d bs"
  shows "db_get_block_by_height L d h =
    Some (case filter (\<lambda>b. h \<le> blk_height b) bs of [] \<Rightarrow> zero_metadata | b # _ \<Rightarrow> Blk_Metadata b)"
proof (cases "filter (\<lambda>b. h \<le> blk_height b) bs")
  case (Cons b cs)
  then have "b \<in> set (filter (\<lambda>b. h \<le> blk_height b) bs)" by simp
  then have "b \<in> set bs" by simp
  with assms have "wf_block b" by (auto simp: db_holds_def wf_chain_def list_all_iff)
  with assms Cons show ?thesis
    by (simp add: db_get_block_by_height_def db_holds_def seek_entries stored_from block_entries_def
        encode_block_metadata_def wf_block_def)
qed (use assms in \<open>simp add: db_get_block_by_height_def db_holds_def seek_entries stored_from\<close>)

lemma fingerprint_holds:
  "db_holds L d bs \<Longrightarrow> db_compute_db_fingerprint L d =
     Some (fold (\<lambda>b f. xor_hex f (BM_Fingerprint (Blk_Metadata b))) bs zero32)"
  by (simp add: db_compute_db_fingerprint_def db_holds_def stored_def fingerprint_step_def db_lengths
      fingerprint_chain_entries)

lemma find_commits_holds:
  assumes "db_holds L d bs"
  shows "db_find_commits L d c =
    Some (concat (map (\<lambda>b. replicate (count_list (Blk_Commits b) c) (blk_height b)) bs))"
  using find_commits_chain [of bs c 0 "[]"] assms
  by (auto simp: db_find_commits_def db_holds_def stored_def find_commits_step_def db_lengths)

lemma version_holds: "db_holds L d bs \<Longrightarrow> db_get_version L d = Some DB_CURRENT_VERSION"
  by (simp add: db_get_version_def db_holds_def get_entries stored_def)

end

lemma db_store_block_append: "db_store_block b block = b @ db_store_block [] block"
  by (simp add: db_store_block_eq)

context reliable_store
begin

lemma db_write_ok: obtains d' where "db_write L d ops = (None, d', [])" "ldb_write L d ops = (None, d')"
  using write_cases [of d ops] by (auto simp: db_write_def)

lemma write_holds:
  assumes "wf_chain bs" "apply_batch ops (map_of (ldb_entries L d)) = map_of (stored bs)"
  obtains d' where "db_write L d ops = (None, d', [])" "db_holds L d' bs"
proof -
  obtain d' where "db_write L d ops = (None, d', [])" "ldb_write L d ops = (None, d')"
    by (rule db_write_ok)
  with assms show ?thesis
    using that write_entries_eq [OF _ stored_ascending] by (metis db_holds_def)
qed

lemma new_holds:
  assumes "ldb_entries L d = []"
  shows "db_holds L (fst (db_new L d)) [] \<and> snd (db_new L d) = DB_CURRENT_VERSION"
proof -
  have "apply_batch [Put (replicate 2 0) (put_be16 DB_CURRENT_VERSION)] (map_of (ldb_entries L d))
          = map_of (stored [])"
    using assms by (simp add: stored_def)
  then show ?thesis
    by (rule write_holds [OF wf_chain_simps(1)]) (simp add: db_new_def)
qed

lemma remove_after_holds:
  assumes "db_holds L d bs"
  obtains d' where "db_remove_blocks_after L d h = (None, d')"
    "db_holds L d' (filter (\<lambda>b. blk_height b < h) bs)"
proof -
  let ?ops = "map (\<lambda>e. Delete (fst e)) (ldb_seek L d (put_be64 h))"
  have "filter (\<lambda>e. \<not> put_be64 h \<le> fst e) (stored bs) = stored (filter (\<lambda>b. \<not> h \<le> blk_height b) bs)"
    by (rule stored_except [where P = "\<lambda>k. \<not> put_be64 h \<le> k"]) (simp_all add: version_key_less)
  then have ops: "apply_batch ?ops (map_of (ldb_entries L d))
               = map_of (stored (filter (\<lambda>b. blk_height b < h) bs))"
    using assms delete_filtered [of "\<lambda>k. put_be64 h \<le> k" "stored bs"]
    by (simp add: db_holds_def seek_entries not_le)
  have "wf_chain (filter (\<lambda>b. blk_height b < h) bs)"
    using assms by (simp add: db_holds_def wf_chain_filter)
  then obtain d' where "db_write L d ?ops = (None, d', [])"
    "db_holds L d' (filter (\<lambda>b. blk_height b < h) bs)"
    using ops by (rule write_holds)
  then show ?thesis
    by (intro that [of d']) (simp_all add: db_remove_blocks_after_def iter_succeeds)
qed

lemma process_block_batch:
  assumes "db_holds L d bs" "blk_height block \<notin> blk_height ` set bs"
  shows "db_process_block L d b block = (None, b @ db_store_block [] block)"
proof -
  have "filter (\<lambda>b. blk_height block = blk_height b) bs = []"
    using assms(2) by (auto simp: filter_empty_conv)
  with assms(1) show ?thesis
    by (simp add: db_process_block_def db_remove_block_def db_holds_def prefix_entries stored_prefix
        iter_succeeds flip: db_store_block_append)
qed

lemma process_block_holds:
  assumes "db_holds L d bs" "wf_block block"
  obtains ops d' where "db_process_block L d [] block = (None, ops)" "db_write L d ops = (None, d', [])"
    "db_holds L d' (filter (\<lambda>b. blk_height b < blk_height block) bs @ [block]
                    @ filter (\<lambda>b. blk_height block < blk_height b) bs)"
proof -
  let ?h = "blk_height block"
  let ?others = "filter (\<lambda>b. ?h \<noteq> blk_height b) bs"
  let ?bs = "filter (\<lambda>b. blk_height b < ?h) bs @ [block] @ filter (\<lambda>b. ?h < blk_height b) bs"
  let ?del = "map (\<lambda>e. Delete (fst e)) (ldb_prefix L d (put_be64 ?h))"
  let ?ops = "?del @ db_store_block [] block"
  have wf: "wf_chain bs" "wf_chain ?bs" "wf_chain ?others"
    using assms by (auto simp: db_holds_def wf_chain_append wf_chain_filter)
  have "filter (\<lambda>e. \<not> prefix (put_be64 ?h) (fst e)) (stored bs) = stored ?others"
    by (rule stored_except [where P = "\<lambda>k. \<not> prefix (put_be64 ?h) k"])
      (simp_all add: version_key_less)
  then have del: "apply_batch ?del (map_of (ldb_entries L d)) = map_of (stored ?others)"
    using assms delete_filtered [of "prefix (put_be64 ?h)" "stored bs"]
    by (simp add: db_holds_def prefix_entries)
  have lo: "filter (\<lambda>b. blk_height b < ?h) ?others = filter (\<lambda>b. blk_height b < ?h) bs"
    and hi: "filter (\<lambda>b. ?h < blk_height b) ?others = filter (\<lambda>b. ?h < blk_height b) bs"
    by (auto intro!: filter_cong)
  have put: "apply_batch (db_store_block [] block) (map_of (stored ?others)) = map_of (stored ?bs)"
    using store_block_stored [OF wf(3) assms(2)] unfolding lo hi by fastforce
  obtain d' where "db_write L d ?ops = (None, d', [])" "db_holds L d' ?bs"
    using write_holds [OF wf(2), of ?ops d] del put by auto
  moreover have "db_process_block L d [] block = (None, ?ops)"
    by (simp add: db_process_block_def db_remove_block_def iter_succeeds flip: db_store_block_append)
  ultimately show ?thesis using that by blast
qed

end

subsection \<open>Reading a full block\<close>

text \<open>
  \<open>goleveldb\<close> copies the current value into one buffer that it reuses while the new value
  fits, so a slice taken before sees the new bytes. This is what the store does, not what its
  documentation promises; the locale names it.
\<close>

locale reusing_store = reliable_store +
  assumes reuse_buffer: "length new \<le> length old \<Longrightarrow> ldb_reuse L old new = new @ drop (length new) old"
begin

lemma full_block_commits:
  assumes "list_all is32 cs" "32 \<le> length val" "es = [] \<or> length (fst (hd es)) \<noteq> 16"
  shows "full_block_loop L val (commit_entries t cs @ es) block
           = Some (block\<lparr>BD_Commits := BD_Commits block @ cs\<rparr>)"
  using assms
proof (induction t cs arbitrary: block val rule: commit_entries.induct)
  case (1 t)
  then show ?case by (cases es) (auto simp: db_lengths)
next
  case (2 t c cs)
  then show ?case
    by (simp add: Let_def reuse_buffer db_lengths decode_commit_def)
qed

lemma full_block_holds:
  assumes "db_holds L d bs"
  shows "db_get_full_block_by_height L d h =
    Some (case filter (\<lambda>b. h \<le> blk_height b) bs of
            [] \<Rightarrow> zero_block_data
          | b # _ \<Rightarrow> \<lparr>BD_Hash = if blk_height b = h then blk_hash b else zero32,
                      BD_Previous = if blk_height b = h then blk_previous b else zero32,
                      BD_Commits = Blk_Commits b\<rparr>)"
proof (cases "filter (\<lambda>b. h \<le> blk_height b) bs")
  case (Cons b cs)
  then have "b \<in> set (filter (\<lambda>b. h \<le> blk_height b) bs)" by simp
  with assms have b: "wf_metadata (Blk_Metadata b)" "list_all is32 (Blk_Commits b)"
    by (auto simp: db_holds_def wf_chain_def wf_block_def list_all_iff)
  have "chain_entries cs = [] \<or> length (fst (hd (chain_entries cs))) \<noteq> 16"
    by (cases cs) (auto simp: block_entries_def encode_block_metadata_def)
  note commits = full_block_commits [OF b(2) _ this]
  show ?thesis
    using assms Cons b commits [of "BM_Hash (Blk_Metadata b) @ BM_Previous (Blk_Metadata b)
            @ BM_Fingerprint (Blk_Metadata b)"]
    by (simp add: db_get_full_block_by_height_def db_holds_def seek_entries stored_from
        block_entries_def encode_block_metadata_def wf_metadata_def zero_block_data_def Let_def)
qed (use assms in \<open>simp add: db_get_full_block_by_height_def db_holds_def seek_entries stored_from\<close>)

end

interpretation reusing_log: reusing_store log_store
  by unfold_locales (simp add: log_store_def)

lemma log_store_reusing: "reusing_store log_store"
  by (rule reusing_log.reusing_store_axioms)

end
