(* ===== verification/Chain.thy ===== *)
theory Chain
  imports Neominer DB_Load DB_Layout
begin

section \<open>The main chain: one list of blocks behind four copies of it\<close>

text \<open>
  The node keeps its chain four times: in \<open>COMBInfo\<close> (height, tip and the child-to-parent
  map), in \<open>libcomb\<close>, in the database and in the batch that is not yet written. The
  invariant \<open>node_inv\<close> says that all four are one list of blocks above the checkpoint, and
  the lemmas describe the operations of \<open>combcore.go\<close>, \<open>neominer.go\<close> and \<open>db_load\<close> as
  operations on that list.
\<close>

subsection \<open>Linked blocks\<close>

fun linked :: "hash256 \<Rightarrow> u64 \<Rightarrow> Block list \<Rightarrow> bool" where
  "linked prev h [] = True"
| "linked prev h (b # bs) =
     (blk_previous b = prev \<and> blk_height b = h + 1 \<and> linked (blk_hash b) (h + 1) bs)"

definition tip :: "hash256 \<Rightarrow> Block list \<Rightarrow> hash256" where
  "tip cp bs = (if bs = [] then cp else blk_hash (last bs))"

definition good_fingerprint :: "Block \<Rightarrow> bool" where
  "good_fingerprint b \<longleftrightarrow> BM_Fingerprint (Blk_Metadata b) = db_compute_block_fingerprint (Blk_Commits b)"

definition valid_chain :: "hash256 \<Rightarrow> u64 \<Rightarrow> Block list \<Rightarrow> bool" where
  "valid_chain cp h bs \<longleftrightarrow>
     linked cp h bs \<and> list_all wf_block bs \<and> distinct (zero32 # cp # map blk_hash bs)
     \<and> is32 cp \<and> unat h + length bs < 2 ^ 64 - 1"

lemma tip_simps [simp]:
  "tip cp [] = cp" "tip cp (bs @ [b]) = blk_hash b" "tip cp [b] = blk_hash b"
  by (simp_all add: tip_def)

lemma tip_Cons: "tip (blk_hash b) bs = tip cp (b # bs)"
  by (simp add: tip_def)

lemma linked_append:
  "linked cp h (as @ bs) \<longleftrightarrow> linked cp h as \<and> linked (tip cp as) (h + of_nat (length as)) bs"
proof (induction as arbitrary: cp h)
  case (Cons a as)
  then show ?case by (simp add: tip_Cons [of _ _ cp] add.assoc)
qed simp

lemma linked_heights:
  "linked cp h bs \<Longrightarrow> unat h + length bs < 2 ^ 64 \<Longrightarrow> i < length bs \<Longrightarrow>
     unat (blk_height (bs ! i)) = unat h + Suc i"
proof (induction cp h bs arbitrary: i rule: linked.induct)
  case (2 cp h b bs)
  have h1: "unat (h + 1) = Suc (unat h)"
    using "2.prems"(2) by (simp add: unat_word_ariths)
  show ?case
  proof (cases i)
    case 0
    with "2.prems" h1 show ?thesis by simp
  next
    case (Suc j)
    with "2.IH" [of j] "2.prems" h1 show ?thesis by simp
  qed
qed simp

lemma linked_wf_chain:
  assumes "linked cp h bs" "list_all wf_block bs" "unat h + length bs < 2 ^ 64"
  shows "wf_chain bs"
proof -
  have "blk_height (bs ! i) < blk_height (bs ! j)" if "i < j" "j < length bs" for i j
    using that linked_heights [OF assms(1,3)] by (simp add: word_less_nat_alt)
  with assms(2) show ?thesis
    by (simp add: wf_chain_def sorted_wrt_iff_nth_less)
qed

lemma valid_chain_wf: "valid_chain cp h bs \<Longrightarrow> wf_chain bs"
  by (auto simp: valid_chain_def intro!: linked_wf_chain)

lemma valid_chain_take: "valid_chain cp h (as @ bs) \<Longrightarrow> valid_chain cp h as"
  by (auto simp: valid_chain_def linked_append)

lemma valid_chain_height:
  "valid_chain cp h bs \<Longrightarrow> i < length bs \<Longrightarrow> unat (blk_height (bs ! i)) = unat h + Suc i"
  using linked_heights by (auto simp: valid_chain_def)

lemma valid_chain_below:
  assumes "valid_chain cp h bs" "b \<in> set bs"
  shows "blk_height b < NOT 0"
proof -
  obtain i where "i < length bs" "b = bs ! i"
    using assms(2) by (auto simp: in_set_conv_nth)
  with assms(1) valid_chain_height [OF assms(1), of i] show ?thesis
    by (simp add: valid_chain_def word_less_nat_alt unsigned_minus_1_eq_mask mask_eq_exp_minus_1)
qed

lemma valid_chain_extend:
  assumes "valid_chain cp h bs" "linked (tip cp bs) (h + of_nat (length bs)) [b]" "wf_block b"
    and "blk_hash b \<notin> insert zero32 (insert cp (blk_hash ` set bs))"
    and "unat h + length bs + 1 < 2 ^ 64 - 1"
  shows "valid_chain cp h (bs @ [b])"
  using assms by (auto simp: valid_chain_def linked_append)

lemma tip_member: "tip cp bs \<in> insert cp (blk_hash ` set bs)"
  by (simp add: tip_def)

lemma tip_not_zero: "valid_chain cp h bs \<Longrightarrow> tip cp bs \<noteq> zero32"
proof -
  assume "valid_chain cp h bs"
  then have "zero32 \<notin> insert cp (blk_hash ` set bs)"
    by (simp add: valid_chain_def)
  then show ?thesis
    using tip_member by metis
qed

text \<open>The height of the tip, and that it does not wrap.\<close>

lemma chain_top:
  assumes "valid_chain cp h bs"
  shows "unat (h + of_nat (length bs)) = unat h + length bs"
proof -
  have "unat (of_nat (length bs) :: u64) = length bs"
    using assms by (simp add: valid_chain_def unat_of_nat)
  with assms show ?thesis
    by (simp add: unat_word_ariths valid_chain_def)
qed

subsection \<open>The parent map\<close>

text \<open>The map has the parent of every block of the chain, and the zero hash has none.\<close>

definition maps_chain :: "hash256 \<Rightarrow> Block list \<Rightarrow> (hash256 \<rightharpoonup> hash256) \<Rightarrow> bool" where
  "maps_chain cp bs m \<longleftrightarrow>
     m cp = Some zero32 \<and> m zero32 = None \<and> (\<forall>b \<in> set bs. m (blk_hash b) = Some (blk_previous b))"

lemma maps_chain_append:
  "maps_chain cp (as @ bs) m \<longleftrightarrow>
     maps_chain cp as m \<and> (\<forall>b \<in> set bs. m (blk_hash b) = Some (blk_previous b))"
  by (auto simp: maps_chain_def)

lemma maps_chain_extend:
  assumes "maps_chain cp bs m" "blk_hash b \<notin> insert zero32 (insert cp (blk_hash ` set bs))"
  shows "maps_chain cp (bs @ [b]) (m(blk_hash b \<mapsto> blk_previous b))"
proof -
  have "blk_hash x \<noteq> blk_hash b" if "x \<in> set bs" for x
    using assms(2) that by (metis imageI insertI2)
  with assms show ?thesis by (auto simp: maps_chain_def)
qed

lemma trace_back_found: "trace_back m t t = Some (Inr t)"
  by (simp add: trace_back.simps)

lemma trace_back_step:
  "hash \<noteq> t \<Longrightarrow> m hash = Some parent \<Longrightarrow> trace_back m t hash = trace_back m t parent"
  by (simp add: trace_back.simps [of m t hash])

lemma trace_back_missing:
  "hash \<noteq> t \<Longrightarrow> m hash = None \<Longrightarrow> trace_back m t hash = Some (Inl PanicPastCheckpoint)"
  by (simp add: trace_back.simps [of m t hash])

text \<open>From the tip, the walk passes the blocks above the target.\<close>

lemma trace_back_over:
  assumes "linked cp h (as @ cs)" "\<forall>b \<in> set cs. m (blk_hash b) = Some (blk_previous b)"
    and "\<forall>b \<in> set cs. blk_hash b \<noteq> t"
  shows "trace_back m t (tip cp (as @ cs)) = trace_back m t (tip cp as)"
  using assms
proof (induction cs rule: rev_induct)
  case (snoc c cs)
  have "blk_previous c = tip cp (as @ cs)"
    using snoc.prems(1) by (simp add: linked_append flip: append_assoc)
  with snoc show ?case
    by (simp add: linked_append trace_back_step flip: append_assoc)
qed simp

lemma trace_back_to_tip:
  assumes "valid_chain cp h (as @ cs)" "maps_chain cp (as @ cs) m"
  shows "trace_back m (tip cp as) (tip cp (as @ cs)) = Some (Inr (tip cp as))"
proof -
  have "\<forall>b \<in> set cs. blk_hash b \<noteq> tip cp as"
  proof
    fix b assume "b \<in> set cs"
    then have "blk_hash b \<notin> insert cp (blk_hash ` set as)"
      using assms(1) by (auto simp: valid_chain_def)
    then show "blk_hash b \<noteq> tip cp as"
      using tip_member by metis
  qed
  with assms have "trace_back m (tip cp as) (tip cp (as @ cs)) = trace_back m (tip cp as) (tip cp as)"
    by (intro trace_back_over) (auto simp: valid_chain_def maps_chain_append)
  then show ?thesis by (simp add: trace_back_found)
qed

text \<open>A target that is not on the chain makes the walk fall off at the zero hash.\<close>

lemma trace_back_off_chain:
  assumes "valid_chain cp h bs" "maps_chain cp bs m" "t \<notin> insert zero32 (insert cp (blk_hash ` set bs))"
  shows "trace_back m t (tip cp bs) = Some (Inl PanicPastCheckpoint)"
proof -
  have "trace_back m t (tip cp ([] @ bs)) = trace_back m t (tip cp [])"
    using assms by (intro trace_back_over) (auto simp: valid_chain_def maps_chain_def)
  also have "\<dots> = trace_back m t zero32"
    using assms by (intro trace_back_step) (auto simp: maps_chain_def)
  also have "\<dots> = Some (Inl PanicPastCheckpoint)"
    using assms by (intro trace_back_missing) (auto simp: maps_chain_def)
  finally show ?thesis by simp
qed

end
