(* ===== verification/DB_Correct.thy ===== *)
theory DB_Correct
  imports DB_Layout
begin

section \<open>The block database keeps what it is given\<close>

text \<open>
  The properties of \<open>db.go\<close>, for every store that keeps the LevelDB laws. The concrete
  database \<open>sample_db\<close> holds two blocks in the log-structured store.
\<close>

subsection \<open>A concrete database\<close>

definition sample_hash :: "nat \<Rightarrow> hash256" where
  "sample_hash n = replicate 32 (word_of_nat n)"

definition sample_block :: "u64 \<Rightarrow> nat \<Rightarrow> nat \<Rightarrow> hash256 list \<Rightarrow> Block" where
  "sample_block h n p cs =
     \<lparr>Blk_Metadata = \<lparr>BM_Height = h, BM_Hash = sample_hash n, BM_Previous = sample_hash p,
                      BM_Fingerprint = db_compute_block_fingerprint cs\<rparr>,
      Blk_Commits = cs\<rparr>"

definition sample_1 :: Block where
  "sample_1 = sample_block 11 101 100 [sample_hash 7, sample_hash 8]"

definition sample_2 :: Block where
  "sample_2 = sample_block 12 102 101 [sample_hash 7]"

definition sample_3 :: Block where
  "sample_3 = sample_block 13 103 102 []"

definition sample_db :: batch where
  "sample_db = [Put (replicate 2 0) (put_be16 DB_CURRENT_VERSION)]
               @ db_store_block [] sample_1 @ db_store_block [] sample_2"

lemma sample_hash_length [simp]: "length (sample_hash n) = 32"
  by (simp add: sample_hash_def)

lemma db_compute_block_fingerprint_length [simp]: "length (db_compute_block_fingerprint cs) = 32"
  by (simp add: db_compute_block_fingerprint_def)

lemma sample_hash_inject [simp]:
  "sample_hash m = sample_hash n \<longleftrightarrow> (word_of_nat m :: byte) = word_of_nat n"
  by (simp add: sample_hash_def numeral_eq_Suc)

lemma sample_hash_zero: "zero32 = sample_hash 0"
  by (simp add: sample_hash_def zero32_def)

lemmas sample_defs = sample_1_def sample_2_def sample_3_def sample_block_def

lemma sample_blocks_wf: "wf_chain [sample_1, sample_2, sample_3]"
  by (simp add: sample_defs wf_block_def wf_metadata_def)

lemma sample_wf [simp]: "wf_block sample_1" "wf_block sample_2" "wf_block sample_3"
  using sample_blocks_wf by simp_all

lemma log_store_write [simp]: "ldb_write log_store d ops = (None, d @ ops)"
  by (simp add: log_store_def)

lemma log_store_entries: "map_of (ldb_entries log_store d) = apply_batch d Map.empty"
  by (simp add: log_store_def replay_def fold_store_lookup)

lemma sample_db_holds: "db_holds log_store sample_db [sample_1, sample_2]"
proof -
  have "apply_batch sample_db Map.empty =
    apply_batch (db_store_block [] sample_2) (apply_batch (db_store_block [] sample_1) (map_of (stored [])))"
    by (simp add: sample_db_def stored_def)
  also have "\<dots> = map_of (stored [sample_1, sample_2])"
    using store_block_stored [of "[]" sample_1] store_block_stored [of "[sample_1]" sample_2]
    by (simp add: sample_defs wf_block_def wf_metadata_def)
  finally show ?thesis
    using sample_blocks_wf unfolding db_holds_def
    by (auto intro!: logged.entries_eqI stored_ascending simp: log_store_entries)
qed

subsection \<open>Codecs\<close>

text \<open>
  Commit keys: \<open>decode_tag\<close> inverts \<open>encode_tag\<close> at every height and order, and the
  byte order of the keys is the order of the tags, by height and then by position in the block.
\<close>

lemma tag_keys:
  "decode_tag (encode_tag s) = Some s \<and> (encode_tag s < encode_tag t \<longleftrightarrow> s < t)"
  by (simp add: encode_tag_less)

text \<open>
  Block records: \<open>decode_block_metadata\<close> inverts \<open>encode_block_metadata\<close>, and the
  three hashes come back from their own 32-byte fields.
\<close>

lemma metadata_round_trip:
  assumes "wf_metadata md"
  shows "(case encode_block_metadata md of (key, val) \<Rightarrow>
            length key = DB_BLOCK_KEY_LENGTH \<and> length val = 96
            \<and> decode_block_metadata key val = Some md)"
  using assms by (simp add: encode_block_metadata_def db_lengths wf_metadata_def [of md])

subsection \<open>Storing and removing\<close>

text \<open>
  C23. \<open>db_process_block\<close> followed by \<open>db_write\<close> puts a block into the database at its
  height: a block stored there before is replaced with all its commits, every other block is
  untouched, and neither call fails.
\<close>

theorem process_block_replaces:
  assumes "reliable_store L" "db_holds L d bs" "wf_block block"
  shows "\<exists>ops d'. db_process_block L d [] block = (None, ops) \<and> db_write L d ops = (None, d', [])
    \<and> db_holds L d' (filter (\<lambda>b. blk_height b < blk_height block) bs @ [block]
                     @ filter (\<lambda>b. blk_height block < blk_height b) bs)"
  using reliable_store.process_block_holds [OF assms] by blast

theorem process_block_replaces_witness:
  "\<exists>ops d'. db_process_block log_store sample_db [] (sample_block 11 104 100 []) = (None, ops)
    \<and> db_write log_store sample_db ops = (None, d', [])
    \<and> db_holds log_store d' [sample_block 11 104 100 [], sample_2]"
proof -
  have "wf_block (sample_block 11 104 100 [])"
    by (simp add: sample_block_def wf_block_def wf_metadata_def)
  from process_block_replaces [OF log_store_reliable sample_db_holds this]
  show ?thesis by (simp add: sample_defs)
qed

text \<open>
  C22. \<open>db_remove_blocks_after height\<close> removes exactly the blocks at \<open>height\<close> and above,
  with their commits, and keeps every block below.
\<close>

theorem remove_blocks_after_correct:
  assumes "reliable_store L" "db_holds L d bs"
  shows "\<exists>d'. db_remove_blocks_after L d h = (None, d')
    \<and> db_holds L d' (filter (\<lambda>b. blk_height b < h) bs)"
  using reliable_store.remove_after_holds [OF assms] by blast

theorem remove_blocks_after_correct_witness:
  "\<exists>d'. db_remove_blocks_after log_store sample_db 12 = (None, d')
    \<and> db_holds log_store d' [sample_1]"
  using remove_blocks_after_correct [OF log_store_reliable sample_db_holds, of 12]
  by (simp add: sample_defs)

subsection \<open>Loading\<close>

text \<open>
  \<open>db_load_blocks start end\<close> sends the stored blocks with heights from \<open>start\<close> to
  \<open>end\<close> in ascending order, each with its metadata and all its commits in their order,
  after one zero block; with no such block it sends nothing.
\<close>

theorem load_blocks_in_order:
  assumes "leveldb_store L" "db_holds L d bs"
  shows "db_load_blocks L d start end_height =
    (case filter (\<lambda>b. start \<le> blk_height b \<and> blk_height b < end_height + 1) bs of
       [] \<Rightarrow> Some []
     | sel \<Rightarrow> Some (zero_block # sel))"
  using leveldb_store.load_blocks_holds [OF assms] by (simp add: Let_def split: list.split)

theorem load_blocks_in_order_witness:
  "db_load_blocks log_store sample_db 12 20 = Some [zero_block, sample_2]"
  using load_blocks_in_order [OF reliable_store.axioms(1) [OF log_store_reliable] sample_db_holds, of 12 20]
  by (simp add: sample_defs)

text \<open>Storing one block and writing the batch, as the miner does with a capacity of one.\<close>

definition store_one :: "'d leveldb \<Rightarrow> Block \<Rightarrow> 'd \<Rightarrow> 'd" where
  "store_one L block d =
     (case db_process_block L d [] block of (_, ops) \<Rightarrow>
        case db_write L d ops of (_, d', _) \<Rightarrow> d')"

lemma store_one_holds:
  assumes "reliable_store L" "db_holds L d bs" "wf_chain (bs @ [block])"
  shows "db_holds L (store_one L block d) (bs @ [block])"
proof -
  have wf: "wf_block block" and above: "\<forall>b \<in> set bs. blk_height b < blk_height block"
    using assms(3) by (auto simp: wf_chain_append)
  then have "filter (\<lambda>b. blk_height b < blk_height block) bs = bs"
    "filter (\<lambda>b. blk_height block < blk_height b) bs = []"
    by (auto simp: filter_empty_conv)
  with reliable_store.process_block_holds [OF assms(1,2) wf] show ?thesis
    by (metis (no_types, lifting) append.right_neutral case_prod_conv store_one_def)
qed

lemma store_all_holds:
  assumes "reliable_store L" "db_holds L d bs" "wf_chain (bs @ cs)"
  shows "db_holds L (fold (store_one L) cs d) (bs @ cs)"
  using assms(2,3)
proof (induction cs arbitrary: d bs)
  case (Cons c cs)
  have "wf_chain (bs @ [c])"
    using Cons.prems(2) by (simp add: wf_chain_append)
  with Cons.IH [of "store_one L c d" "bs @ [c]"] Cons.prems show ?case
    by (simp add: store_one_holds [OF assms(1)])
qed simp

text \<open>
  C14. Round trip through the database: the blocks written one by one into a new database come
  back from \<open>db_load_blocks\<close> over the range \<open>db_load\<close> asks for, all of them, unchanged and
  in order, whatever their heights below the largest 64-bit number.
\<close>

theorem store_then_load:
  assumes "reliable_store L" "ldb_entries L d = []" "wf_chain bs" "bs \<noteq> []"
    and "blk_height (last bs) < NOT 0"
  shows "db_load_blocks L (fold (store_one L) bs (fst (db_new L d))) 0 (NOT 0 - 1)
           = Some (zero_block # bs)"
proof -
  have "db_holds L (fold (store_one L) bs (fst (db_new L d))) bs"
    using store_all_holds [OF assms(1) _, of "fst (db_new L d)" "[]" bs]
      reliable_store.new_holds [OF assms(1,2)] assms(3) by simp
  from leveldb_store.load_blocks_holds [OF reliable_store.axioms(1) [OF assms(1)] this]
  have load: "db_load_blocks L (fold (store_one L) bs (fst (db_new L d))) 0 (NOT 0 - 1) =
    Some (let sel = filter (\<lambda>b. blk_height b < NOT 0) bs in if sel = [] then [] else zero_block # sel)"
    by simp
  have "blk_height b < NOT 0" if "b \<in> set bs" for b
    using wf_chain_le_last [OF assms(3) that] assms(5) by (rule order_le_less_trans)
  then have "filter (\<lambda>b. blk_height b < NOT 0) bs = bs" by simp
  with load assms(4) show ?thesis by (simp add: Let_def)
qed

theorem store_then_load_witness:
  "db_load_blocks log_store (fold (store_one log_store) [sample_1, sample_2, sample_3]
      (fst (db_new log_store []))) 0 (NOT 0 - 1)
     = Some [zero_block, sample_1, sample_2, sample_3]"
  by (rule store_then_load [OF log_store_reliable _ sample_blocks_wf])
    (simp_all add: log_store_def replay_def sample_defs)

subsection \<open>Lookups\<close>

lemma find_missing: "y \<notin> f ` set bs \<Longrightarrow> List.find (\<lambda>x. f x = y) (rev bs) = None"
  by (auto simp: find_None_iff)

lemma find_unique:
  assumes "distinct (map f bs)" "b \<in> set bs"
  shows "List.find (\<lambda>x. f x = f b) (rev bs) = Some b"
proof -
  have "List.find (\<lambda>x. f x = f b) (rev bs) \<noteq> None"
    using assms(2) by (auto simp: find_None_iff)
  then obtain x where x: "List.find (\<lambda>x. f x = f b) (rev bs) = Some x" by blast
  then have "x \<in> set (rev bs) \<and> f x = f b"
    by (metis (mono_tags, lifting) find_Some_iff nth_mem)
  then have "x \<in> set bs" "f x = f b" by auto
  with assms x show ?thesis
    by (auto simp: distinct_map dest: inj_onD)
qed

lemma find_rev:
  assumes "distinct (map f bs)"
  shows "List.find (\<lambda>x. f x = y) (rev bs) = List.find (\<lambda>x. f x = y) bs"
proof (cases "y \<in> f ` set bs")
  case True
  then obtain b where "b \<in> set bs" "y = f b" by blast
  with find_unique [of f bs b] find_unique [of f "rev bs" b] assms show ?thesis
    by (simp add: rev_map [symmetric])
next
  case False
  with find_missing [of y f bs] find_missing [of y f "rev bs"] show ?thesis by simp
qed

text \<open>
  C36. \<open>db_get_block_by_hash\<close> finds every stored block when the stored hashes are distinct. A miss
  is not reported: for a hash that no stored block has, it returns the metadata of the lowest
  block of the database, which is where its backward scan ends, and not the zero value (an
  empty database apart).
\<close>

theorem block_by_hash_result:
  assumes "leveldb_store L" "db_holds L d bs" "distinct (map blk_hash bs)"
  shows "db_get_block_by_hash L d hash =
    Some (case List.find (\<lambda>b. blk_hash b = hash) bs of
            Some b \<Rightarrow> Blk_Metadata b
          | None \<Rightarrow> (case bs of [] \<Rightarrow> zero_metadata | b # _ \<Rightarrow> Blk_Metadata b))"
  using leveldb_store.by_hash_holds [OF assms(1,2)] find_rev [OF assms(3)]
  by (simp add: scan_result_def)

theorem block_by_hash_result_witness:
  "db_get_block_by_hash log_store sample_db (sample_hash 102) = Some (Blk_Metadata sample_2)
   \<and> db_get_block_by_hash log_store sample_db (sample_hash 55) = Some (Blk_Metadata sample_1)"
  using block_by_hash_result [OF reliable_store.axioms(1) [OF log_store_reliable] sample_db_holds]
  by (simp add: sample_defs)

text \<open>
  C37. \<open>db_get_block_by_height\<close> returns the metadata of the lowest block at or above the
  height: the block of that height if there is one, the next higher block if that height is
  missing, and the zero value only above the highest block.
\<close>

theorem block_by_height_result:
  assumes "leveldb_store L" "db_holds L d bs"
  shows "db_get_block_by_height L d h =
    Some (case filter (\<lambda>b. h \<le> blk_height b) bs of [] \<Rightarrow> zero_metadata | b # _ \<Rightarrow> Blk_Metadata b)"
  using assms by (rule leveldb_store.by_height_holds)

theorem block_by_height_result_witness:
  "db_get_block_by_height log_store sample_db 3 = Some (Blk_Metadata sample_1)
   \<and> db_get_block_by_height log_store sample_db 12 = Some (Blk_Metadata sample_2)
   \<and> db_get_block_by_height log_store sample_db 13 = Some zero_metadata"
  using block_by_height_result [OF reliable_store.axioms(1) [OF log_store_reliable] sample_db_holds]
  by (simp add: sample_defs)

text \<open>
  C38. \<open>db_get_full_block_by_height\<close> gives all commits of the block in their order, as long as
  the store reuses the buffer of the value slice the loop keeps reading; at a missing height it
  gives the commits of the next higher block under zero hashes.
\<close>

theorem full_block_result:
  assumes "reusing_store L" "db_holds L d bs"
  shows "db_get_full_block_by_height L d h =
    Some (case filter (\<lambda>b. h \<le> blk_height b) bs of
            [] \<Rightarrow> zero_block_data
          | b # _ \<Rightarrow> \<lparr>BD_Hash = if blk_height b = h then blk_hash b else zero32,
                      BD_Previous = if blk_height b = h then blk_previous b else zero32,
                      BD_Commits = Blk_Commits b\<rparr>)"
  using assms by (rule reusing_store.full_block_holds)

theorem full_block_result_witness:
  "db_get_full_block_by_height log_store sample_db 11 =
     Some \<lparr>BD_Hash = sample_hash 101, BD_Previous = sample_hash 100,
           BD_Commits = [sample_hash 7, sample_hash 8]\<rparr>"
  using full_block_result [OF log_store_reusing sample_db_holds, of 11] by (simp add: sample_defs)

text \<open>
  What the slice of the block's record holds after each step of the iterator over the commits. Go keeps
  the length of a slice, whatever its array comes to hold.
\<close>

fun slices :: "'d leveldb \<Rightarrow> bytes \<Rightarrow> bytes list \<Rightarrow> bytes list" where
  "slices L val [] = []"
| "slices L val (v # vs) = ldb_reuse L val v # slices L (ldb_reuse L val v) vs"

lemma slices_kept: "(\<And>old new. ldb_reuse L old new = old) \<Longrightarrow> slices L val vs = replicate (length vs) val"
  by (induction vs) simp_all

lemma full_block_slices:
  assumes "\<And>old new. length (ldb_reuse L old new) = length old" "32 \<le> length val"
    and "es = [] \<or> length (fst (hd es)) \<noteq> 16"
  shows "full_block_loop L val (commit_entries t cs @ es) blk =
    Some (blk\<lparr>BD_Commits := BD_Commits blk @ map (take 32) (slices L val cs)\<rparr>)"
  using assms(2,3)
proof (induction t cs arbitrary: blk val rule: commit_entries.induct)
  case (1 t)
  then show ?case by (cases es) (auto simp: db_lengths)
next
  case (2 t c cs)
  then show ?case
    by (simp add: Let_def db_lengths decode_commit_def slice_def assms(1))
qed

text \<open>
  C39. The commits that \<open>db_get_full_block_by_height\<close> returns, for any block of the database and on any
  store: the first 32 bytes of whatever the iterator has left in the slice of the block's own record,
  which the loop decodes again and again. LevelDB's documentation does not say what that is; on a store
  that leaves a returned slice alone, every commit of the answer is the hash of the block.
\<close>

theorem full_block_reads_slice:
  assumes "leveldb_store L" "db_holds L d bs" "b \<in> set bs"
    and "\<And>old new. length (ldb_reuse L old new) = length old"
  shows "db_get_full_block_by_height L d (blk_height b) =
      Some \<lparr>BD_Hash = blk_hash b, BD_Previous = blk_previous b,
            BD_Commits = map (take 32) (slices L (snd (encode_block_metadata (Blk_Metadata b))) (Blk_Commits b))\<rparr>
    \<and> ((\<forall>old new. ldb_reuse L old new = old) \<longrightarrow>
        db_get_full_block_by_height L d (blk_height b) =
          Some \<lparr>BD_Hash = blk_hash b, BD_Previous = blk_previous b,
                BD_Commits = replicate (length (Blk_Commits b)) (blk_hash b)\<rparr>)"
proof -
  obtain as cs where bs: "bs = as @ b # cs"
    using assms(3) by (auto simp: in_set_conv_decomp)
  have wf: "wf_metadata (Blk_Metadata b)" and from_b: "filter (\<lambda>x. blk_height b \<le> blk_height x) bs = b # cs"
    using assms(2) by (auto simp: bs db_holds_def wf_block_def wf_chain_append filter_empty_conv filter_id_conv not_le
        less_imp_le)
  have next_block: "chain_entries cs = [] \<or> length (fst (hd (chain_entries cs))) \<noteq> 16"
    by (cases cs) (auto simp: block_entries_def encode_block_metadata_def)
  define val where "val = snd (encode_block_metadata (Blk_Metadata b))"
  have val: "val = blk_hash b @ blk_previous b @ BM_Fingerprint (Blk_Metadata b)" "32 \<le> length val"
    "take 32 val = blk_hash b"
    using wf by (simp_all add: val_def encode_block_metadata_def wf_metadata_def)
  have all: "db_get_full_block_by_height L d (blk_height b) =
      Some \<lparr>BD_Hash = blk_hash b, BD_Previous = blk_previous b,
            BD_Commits = map (take 32) (slices L val (Blk_Commits b))\<rparr>"
    using wf assms(2) from_b full_block_slices [OF assms(4) val(2) next_block]
    by (simp add: db_get_full_block_by_height_def db_holds_def leveldb_store.seek_entries [OF assms(1)]
        stored_from block_entries_def encode_block_metadata_def wf_metadata_def zero_block_data_def Let_def val(1))
  moreover have "map (take 32) (slices L val (Blk_Commits b)) = replicate (length (Blk_Commits b)) (blk_hash b)"
    if "\<forall>old new. ldb_reuse L old new = old"
    using that slices_kept [of L val] by (simp add: val(3))
  ultimately show ?thesis
    by (simp add: val_def)
qed

definition snapshot_store :: "batch leveldb" where
  "snapshot_store = log_store\<lparr>ldb_reuse := (\<lambda>old new. old)\<rparr>"

interpretation snapshot: leveldb_store snapshot_store
  using logged.entries_ascending logged.write_entries
  by unfold_locales (auto simp: snapshot_store_def log_store_def)

theorem full_block_reads_slice_witness:
  "db_get_full_block_by_height snapshot_store sample_db 12 =
     Some \<lparr>BD_Hash = sample_hash 102, BD_Previous = sample_hash 101, BD_Commits = [sample_hash 102]\<rparr>"
proof -
  have db: "db_holds snapshot_store sample_db [sample_1, sample_2]"
    using sample_db_holds by (simp add: db_holds_def snapshot_store_def log_store_def)
  have keep: "ldb_reuse snapshot_store old new = old" for old new
    by (simp add: snapshot_store_def)
  then have "db_get_full_block_by_height snapshot_store sample_db (blk_height sample_2) =
      Some \<lparr>BD_Hash = blk_hash sample_2, BD_Previous = blk_previous sample_2,
            BD_Commits = replicate (length (Blk_Commits sample_2)) (blk_hash sample_2)\<rparr>"
    by (intro full_block_reads_slice [OF snapshot.leveldb_store_axioms db, THEN conjunct2, rule_format]) simp_all
  then show ?thesis by (simp add: sample_defs)
qed

subsection \<open>Scans\<close>

text \<open>
  \<open>db_find_commits\<close> returns the heights of the blocks that contain the commit, in
  ascending order, one entry for every occurrence (repeats in a block included).
\<close>

theorem find_commits_heights:
  assumes "leveldb_store L" "db_holds L d bs"
  shows "db_find_commits L d c =
    Some (concat (map (\<lambda>b. replicate (count_list (Blk_Commits b) c) (blk_height b)) bs))"
  using assms by (rule leveldb_store.find_commits_holds)

theorem find_commits_heights_witness:
  "db_find_commits log_store sample_db (sample_hash 7) = Some [11, 12]"
  using find_commits_heights [OF reliable_store.axioms(1) [OF log_store_reliable] sample_db_holds,
      of "sample_hash 7"]
  by (simp add: sample_defs)

lemma xor_hex_swap: "xor_hex (xor_hex f a) b = xor_hex (xor_hex f b) a"
  unfolding xor_hex_def by (rule nth_equalityI) (auto simp: ac_simps)

text \<open>
  C40. The database fingerprint is the XOR of the fingerprints of all stored blocks; it does not
  depend on the order in which they are combined, so two nodes with the same blocks agree.
\<close>

theorem db_fingerprint_any_order:
  assumes "leveldb_store L" "db_holds L d bs" "mset cs = mset bs"
  shows "db_compute_db_fingerprint L d =
    Some (fold (\<lambda>b f. xor_hex f (BM_Fingerprint (Blk_Metadata b))) cs zero32)"
proof -
  have "fold (\<lambda>b f. xor_hex f (BM_Fingerprint (Blk_Metadata b))) cs
          = fold (\<lambda>b f. xor_hex f (BM_Fingerprint (Blk_Metadata b))) bs"
    by (rule fold_multiset_equiv [OF _ assms(3)]) (simp add: fun_eq_iff xor_hex_swap)
  with leveldb_store.fingerprint_holds [OF assms(1,2)] show ?thesis by simp
qed

theorem db_fingerprint_any_order_witness:
  "db_compute_db_fingerprint log_store sample_db =
     Some (xor_hex (xor_hex zero32 (BM_Fingerprint (Blk_Metadata sample_2)))
                   (BM_Fingerprint (Blk_Metadata sample_1)))"
  using db_fingerprint_any_order [OF reliable_store.axioms(1) [OF log_store_reliable] sample_db_holds,
      of "[sample_2, sample_1]"]
  by (simp add: add_mset_commute)

end
