(* ===== verification/Ingest.thy ===== *)
theory Ingest
  imports Chain DB_Correct
begin

section \<open>Taking blocks in keeps the four copies of the chain together\<close>

text \<open>
  The invariant of the node and its preservation by \<open>neominer_write\<close>, \<open>combcore_reorg\<close> and
  \<open>neominer_process_block\<close>. The abstract specification is one line: a block whose parent is
  the tip is appended to the chain; a block whose parent is a block below the tip replaces
  everything above that parent.
\<close>

definition in_memory ::
  "'l libcomb \<Rightarrow> ('l \<Rightarrow> hash256 list list) \<Rightarrow> hash256 \<Rightarrow> u64 \<Rightarrow> Block list \<Rightarrow> ('d, 'l) node \<Rightarrow> bool" where
  "in_memory C loaded cp h bs s \<longleftrightarrow>
     COMB_Hash s = tip cp bs \<and> COMB_Height s = h + of_nat (length bs)
     \<and> lib_GetHeight C (node_lib s) = COMB_Height s \<and> loaded (node_lib s) = map Blk_Commits bs
     \<and> maps_chain cp bs (COMB_Chain s)"

text \<open>The database holds the first \<open>k\<close> blocks and the batch the others, fewer than its capacity.\<close>

definition on_disk :: "'d leveldb \<Rightarrow> Block list \<Rightarrow> ('d, 'l) node \<Rightarrow> bool" where
  "on_disk L bs s \<longleftrightarrow>
     (\<exists>k \<le> length bs. db_holds L (node_db s) (take k bs)
        \<and> Neo_BatchCached s = of_nat (length bs - k)
        \<and> length bs - k < unat (Neo_BatchCapacity s))
     \<and> apply_batch (Neo_Batch s) (map_of (ldb_entries L (node_db s))) = map_of (stored bs)"

text \<open>A node whose batch is empty and whose database holds the whole chain.\<close>

definition flushed :: "'d leveldb \<Rightarrow> Block list \<Rightarrow> ('d, 'l) node \<Rightarrow> bool" where
  "flushed L bs s \<longleftrightarrow> db_holds L (node_db s) bs \<and> Neo_Batch s = [] \<and> Neo_BatchCached s = 0
     \<and> 0 < Neo_BatchCapacity s"

lemma flushed_on_disk: "flushed L bs s \<Longrightarrow> on_disk L bs s"
  by (auto simp: flushed_def on_disk_def db_holds_def word_less_nat_alt intro!: exI [of _ "length bs"])

definition node_inv ::
  "'d leveldb \<Rightarrow> 'l libcomb \<Rightarrow> ('l \<Rightarrow> hash256 list list) \<Rightarrow> hash256 \<Rightarrow> u64 \<Rightarrow> Block list
     \<Rightarrow> ('d, 'l) node \<Rightarrow> bool" where
  "node_inv L C loaded cp h bs s \<longleftrightarrow>
     valid_chain cp h bs \<and> in_memory C loaded cp h bs s \<and> on_disk L bs s"

text \<open>Data a miner may deliver on top of a chain: well-formed, and with a hash not in use.\<close>

definition good_data :: "hash256 \<Rightarrow> u64 \<Rightarrow> Block list \<Rightarrow> BlockData \<Rightarrow> bool" where
  "good_data cp h bs d \<longleftrightarrow>
     is32 (BD_Hash d) \<and> is32 (BD_Previous d) \<and> list_all is32 (BD_Commits d)
     \<and> length (BD_Commits d) \<le> 4294967296
     \<and> BD_Hash d \<notin> insert zero32 (insert cp (blk_hash ` set bs))
     \<and> unat h + length bs + 1 < 2 ^ 64 - 1"

locale comb_node = reliable_store L + libcomb_chain C loaded
  for L :: "'d leveldb" and C :: "'l libcomb" and loaded :: "'l \<Rightarrow> hash256 list list"
begin

subsection \<open>Writing the batch\<close>

lemma write_on_disk:
  assumes "wf_chain bs" "on_disk L bs s"
  obtains d where "neominer_write L s = Inr (s\<lparr>node_db := d, Neo_Batch := [], Neo_BatchCached := 0\<rparr>)"
    "db_holds L d bs"
proof -
  have "apply_batch (Neo_Batch s) (map_of (ldb_entries L (node_db s))) = map_of (stored bs)"
    using assms(2) by (simp add: on_disk_def)
  with assms(1) obtain d where
    "db_write L (node_db s) (Neo_Batch s) = (None, d, [])" "db_holds L d bs"
    by (rule write_holds)
  then show ?thesis
    by (intro that [of d]) (simp_all add: neominer_write_def)
qed

lemma on_disk_flushed:
  "db_holds L d bs \<Longrightarrow> 0 < Neo_BatchCapacity s \<Longrightarrow>
     on_disk L bs (s\<lparr>node_db := d, Neo_Batch := [], Neo_BatchCached := 0\<rparr>)"
  by (auto simp: on_disk_def db_holds_def word_less_nat_alt intro!: exI [of _ "length bs"])

lemma write_flushes:
  assumes "node_inv L C loaded cp h bs s"
  obtains s' where "neominer_write L s = Inr s'" "node_inv L C loaded cp h bs s'" "flushed L bs s'"
proof -
  have wf: "wf_chain bs" and disk: "on_disk L bs s"
    using assms by (auto simp: node_inv_def intro: valid_chain_wf)
  obtain d where w: "neominer_write L s = Inr (s\<lparr>node_db := d, Neo_Batch := [], Neo_BatchCached := 0\<rparr>)"
    "db_holds L d bs"
    by (rule write_on_disk [OF wf disk])
  have "flushed L bs (s\<lparr>node_db := d, Neo_Batch := [], Neo_BatchCached := 0\<rparr>)"
    using disk w(2) by (auto simp: flushed_def on_disk_def word_less_nat_alt)
  with assms w(1) flushed_on_disk [OF this] show ?thesis
    by (intro that) (simp_all add: node_inv_def in_memory_def)
qed

subsection \<open>Unloading\<close>

lemma unload_rounds:
  assumes "n < 2 ^ 64" "lib_GetHeight C l = ht"
  obtains l' where "unload_to C (ht - of_nat n) ht l = Some (ht - of_nat n, l')"
    "lib_GetHeight C l' = ht - of_nat n" "loaded l' = take (length (loaded l) - n) (loaded l)"
proof -
  have "\<exists>l'. unload_to C (ht - of_nat n) ht l = Some (ht - of_nat n, l')
    \<and> lib_GetHeight C l' = ht - of_nat n \<and> loaded l' = take (length (loaded l) - n) (loaded l)"
    using assms
  proof (induction n arbitrary: ht l)
    case 0
    then show ?case by (simp add: unload_to.simps)
  next
    case (Suc n)
    have "(of_nat (Suc n) :: u64) \<noteq> 0"
      using Suc.prems(1) by (simp add: word_unat_eq_iff unat_of_nat del: of_nat_Suc)
    then have ne: "ht \<noteq> ht - of_nat (Suc n)" by (simp del: of_nat_Suc)
    have tgt: "ht - of_nat (Suc n) = (ht - 1) - of_nat n" by simp
    have "take (length (loaded l) - 1 - n) (butlast (loaded l))
            = take (length (loaded l) - Suc n) (loaded l)"
      by (simp add: butlast_conv_take)
    with Suc.IH [of "fst (lib_UnloadBlock C l)" "ht - 1"] Suc.prems ne show ?case
      unfolding tgt
      by (simp add: unload_to.simps [of C _ ht] unload_height unload_state unload_loaded)
  qed
  then show ?thesis using that by blast
qed

end

text \<open>The blocks at or below a block of the chain are the ones a removal above it keeps.\<close>

lemma keep_below:
  assumes "valid_chain cp h (as @ cs)" "as \<noteq> []"
  shows "filter (\<lambda>b. blk_height b < blk_height (last as) + 1) (as @ cs) = as"
proof -
  have wf: "wf_chain (as @ cs)"
    using assms(1) by (rule valid_chain_wf)
  have "unat (blk_height (last as)) = unat h + length as"
    using valid_chain_height [OF valid_chain_take [OF assms(1)], of "length as - 1"] assms(2)
    by (simp add: last_conv_nth)
  then have bound: "blk_height b < blk_height (last as) + 1 \<longleftrightarrow> blk_height b \<le> blk_height (last as)" for b
    using assms by (simp add: word_less_nat_alt word_le_nat_alt unat_word_ariths valid_chain_def less_Suc_eq_le)
  have "blk_height b \<le> blk_height (last as)" if "b \<in> set as" for b
    using wf that by (intro wf_chain_le_last) (auto simp: wf_chain_append)
  moreover have "\<not> blk_height b \<le> blk_height (last as)" if "b \<in> set cs" for b
    using wf assms(2) that by (auto simp: wf_chain_append not_le)
  ultimately show ?thesis
    by (simp add: bound filter_id_conv filter_empty_conv)
qed

lemma top_height:
  assumes "valid_chain cp h bs" "bs \<noteq> []"
  shows "blk_height (last bs) = h + of_nat (length bs)"
  using valid_chain_height [OF assms(1), of "length bs - 1"] chain_top [OF assms(1)] assms(2)
  by (simp add: last_conv_nth word_unat_eq_iff)

subsection \<open>Rolling back and extending\<close>

text \<open>The state after a block of the chain has been processed in memory.\<close>

definition after_block :: "'l libcomb \<Rightarrow> Block \<Rightarrow> ('d, 'l) node \<Rightarrow> ('d, 'l) node" where
  "after_block C b s =
     s\<lparr>node_lib := lib_LoadBlock C (Blk_Commits b) (node_lib s), COMB_Height := blk_height b,
       COMB_Chain := (COMB_Chain s)(blk_hash b \<mapsto> blk_previous b), COMB_Hash := blk_hash b\<rparr>"

lemma neominer_block_extends:
  assumes "valid_chain cp h bs" "BD_Previous d = tip cp bs" "good_data cp h bs d"
  shows "valid_chain cp h (bs @ [neominer_block d (h + of_nat (length bs) + 1)])"
  using assms
  by (intro valid_chain_extend [OF assms(1)])
    (auto simp: neominer_block_def good_data_def wf_block_def wf_metadata_def)

lemma find_top:
  assumes "valid_chain cp h (as @ cs)" "as \<noteq> []"
  shows "scan_result (tip cp as) md (as @ cs) = Blk_Metadata (last as)"
proof -
  have "distinct (map blk_hash (as @ cs))" "last as \<in> set (as @ cs)"
    using assms by (auto simp: valid_chain_def)
  from find_unique [OF this] show ?thesis
    using assms(2) by (simp add: scan_result_def tip_def)
qed

context comb_node
begin

lemma reorg_core:
  assumes chain: "valid_chain cp h (as @ cs)" and mem: "in_memory C loaded cp h (as @ cs) s"
    and db: "db_holds L (node_db s) (as @ cs)" and as: "as \<noteq> []"
    and md: "db_get_block_by_hash L (node_db s) t = Some (Blk_Metadata (last as))"
    and tr: "trace_back (COMB_Chain s) t (COMB_Hash s) = Some (Inr t)"
  obtains d l where
    "combcore_reorg L C t s =
       Inr (s\<lparr>COMB_Hash := t, node_db := d, COMB_Height := h + of_nat (length as), node_lib := l\<rparr>)"
    "db_holds L d as" "lib_GetHeight C l = h + of_nat (length as)" "loaded l = map Blk_Commits as"
proof -
  have ht: "blk_height (last as) = h + of_nat (length as)"
    by (rule top_height [OF valid_chain_take [OF chain] as])
  obtain d where d: "db_remove_blocks_after L (node_db s) (blk_height (last as) + 1) = (None, d)"
    "db_holds L d as"
    using remove_after_holds [OF db, of "blk_height (last as) + 1"]
    unfolding keep_below [OF chain as] by blast
  have "length cs < 2 ^ 64"
    using chain by (simp add: valid_chain_def)
  then obtain l where l:
    "unload_to C (COMB_Height s - of_nat (length cs)) (COMB_Height s) (node_lib s)
       = Some (COMB_Height s - of_nat (length cs), l)"
    "lib_GetHeight C l = COMB_Height s - of_nat (length cs)"
    "loaded l = take (length (loaded (node_lib s)) - length cs) (loaded (node_lib s))"
    using mem by (auto simp: in_memory_def intro: unload_rounds)
  have drop: "COMB_Height s - of_nat (length cs) = h + of_nat (length as)"
    using mem by (simp add: in_memory_def)
  show ?thesis
  proof (rule that [where d = d and l = "lib_FinishReorg C l"])
    show "combcore_reorg L C t s = Inr (s\<lparr>COMB_Hash := t, node_db := d,
            COMB_Height := h + of_nat (length as), node_lib := lib_FinishReorg C l\<rparr>)"
      using md tr d(1) l(1) unfolding ht drop by (simp add: combcore_reorg_def ht)
  qed (use mem l d(2) in \<open>simp_all add: drop in_memory_def finish_height finish_loaded\<close>)
qed

lemma reorg_to_block:
  assumes chain: "valid_chain cp h (as @ cs)" and mem: "in_memory C loaded cp h (as @ cs) s"
    and db: "db_holds L (node_db s) (as @ cs)" and as: "as \<noteq> []"
  obtains d l where
    "combcore_reorg L C (tip cp as) s =
       Inr (s\<lparr>COMB_Hash := tip cp as, node_db := d, COMB_Height := h + of_nat (length as), node_lib := l\<rparr>)"
    "db_holds L d as"
    "in_memory C loaded cp h as
       (s\<lparr>COMB_Hash := tip cp as, node_db := d, COMB_Height := h + of_nat (length as), node_lib := l\<rparr>)"
proof -
  have md: "db_get_block_by_hash L (node_db s) (tip cp as) = Some (Blk_Metadata (last as))"
    using by_hash_holds [OF db] find_top [OF chain as] by simp
  have tr: "trace_back (COMB_Chain s) (tip cp as) (COMB_Hash s) = Some (Inr (tip cp as))"
    using trace_back_to_tip [OF chain] mem by (simp add: in_memory_def)
  show ?thesis
    by (rule reorg_core [OF chain mem db as md tr], rule that)
      (use mem in \<open>simp_all add: in_memory_def maps_chain_append\<close>)
qed

text \<open>
  The checkpoint is not in the database, so the lookup of its height gives the first block
  above it, and the rollback stops one block too early.
\<close>

lemma reorg_to_checkpoint:
  assumes chain: "valid_chain cp h (b # bs)" and mem: "in_memory C loaded cp h (b # bs) s"
    and db: "db_holds L (node_db s) (b # bs)"
  obtains d l where
    "combcore_reorg L C cp s =
       Inr (s\<lparr>COMB_Hash := cp, node_db := d, COMB_Height := h + 1, node_lib := l\<rparr>)"
    "db_holds L d [b]" "lib_GetHeight C l = h + 1" "loaded l = [Blk_Commits b]"
proof -
  have "cp \<notin> blk_hash ` set (b # bs)"
    using chain by (simp add: valid_chain_def)
  then have md: "db_get_block_by_hash L (node_db s) cp = Some (Blk_Metadata (last [b]))"
    using by_hash_holds [OF db, of cp]
    by (simp only: find_missing scan_result_def option.case list.case last.simps if_True simp_thms)
  have tr: "trace_back (COMB_Chain s) cp (COMB_Hash s) = Some (Inr cp)"
    using trace_back_to_tip [of cp h "[]" "b # bs"] chain mem by (simp add: in_memory_def)
  have "valid_chain cp h ([b] @ bs)" "in_memory C loaded cp h ([b] @ bs) s"
    "db_holds L (node_db s) ([b] @ bs)" "[b] \<noteq> []"
    using chain mem db by simp_all
  from this md tr show ?thesis
    by (rule reorg_core) (simp add: that)
qed

text \<open>
  The zero hash is the checkpoint's parent in the map, so the walk from the tip ends there.
\<close>

lemma reorg_to_zero:
  assumes chain: "valid_chain cp h (b # bs)" and mem: "in_memory C loaded cp h (b # bs) s"
    and db: "db_holds L (node_db s) (b # bs)"
  obtains d l where
    "combcore_reorg L C zero32 s =
       Inr (s\<lparr>COMB_Hash := zero32, node_db := d, COMB_Height := h + 1, node_lib := l\<rparr>)"
    "db_holds L d [b]" "lib_GetHeight C l = h + 1" "loaded l = [Blk_Commits b]"
proof -
  have "zero32 \<notin> blk_hash ` set (b # bs)"
    using chain by (auto simp: valid_chain_def)
  then have md: "db_get_block_by_hash L (node_db s) zero32 = Some (Blk_Metadata (last [b]))"
    using by_hash_holds [OF db, of zero32]
    by (simp only: find_missing scan_result_def option.case list.case last.simps if_True simp_thms)
  have "trace_back (COMB_Chain s) zero32 (tip cp ([] @ b # bs)) = trace_back (COMB_Chain s) zero32 (tip cp [])"
    using chain mem by (intro trace_back_over) (auto simp: valid_chain_def in_memory_def maps_chain_def)
  also have "\<dots> = Some (Inr zero32)"
    using chain mem by (subst trace_back_step [where parent = zero32])
      (auto simp: valid_chain_def in_memory_def maps_chain_def trace_back_found)
  finally have tr: "trace_back (COMB_Chain s) zero32 (COMB_Hash s) = Some (Inr zero32)"
    using mem by (simp add: in_memory_def)
  have "valid_chain cp h ([b] @ bs)" "in_memory C loaded cp h ([b] @ bs) s"
    "db_holds L (node_db s) ([b] @ bs)" "[b] \<noteq> []"
    using chain mem db by simp_all
  from this md tr show ?thesis
    by (rule reorg_core) (simp add: that)
qed

lemma reorg_off_chain:
  assumes "valid_chain cp h bs" "in_memory C loaded cp h bs s" "db_holds L (node_db s) bs"
    and "t \<notin> insert zero32 (insert cp (blk_hash ` set bs))"
  shows "combcore_reorg L C t s = Inl PanicPastCheckpoint"
proof -
  have "trace_back (COMB_Chain s) t (COMB_Hash s) = Some (Inl PanicPastCheckpoint)"
    using trace_back_off_chain [OF assms(1) _ assms(4)] assms(2) by (simp add: in_memory_def)
  then show ?thesis
    using by_hash_holds [OF assms(3), of t] by (simp add: combcore_reorg_def)
qed

text \<open>The blocks that are left, by the target of the reorganisation.\<close>

lemma reorg_keeps:
  assumes chain: "valid_chain cp h bs" and mem: "in_memory C loaded cp h bs s" and db: "db_holds L (node_db s) bs"
    and bs: "bs \<noteq> []" and t: "t \<in> insert zero32 (insert cp (blk_hash ` set bs))"
  obtains as cs s' where "bs = as @ cs" "as \<noteq> []" "if t \<in> blk_hash ` set bs then t = tip cp as else length as = 1"
    "combcore_reorg L C t s = Inr s'" "COMB_Hash s' = t" "COMB_Height s' = h + of_nat (length as)"
    "db_holds L (node_db s') as" "loaded (node_lib s') = map Blk_Commits as"
proof (cases "t \<in> blk_hash ` set bs")
  case True
  then obtain xs b cs where b: "bs = xs @ b # cs" "t = blk_hash b"
    by (auto simp: in_set_conv_decomp)
  then have bs': "bs = (xs @ [b]) @ cs" "tip cp (xs @ [b]) = t" by simp_all
  obtain d l where r: "combcore_reorg L C (tip cp (xs @ [b])) s =
      Inr (s\<lparr>COMB_Hash := tip cp (xs @ [b]), node_db := d, COMB_Height := h + of_nat (length (xs @ [b])), node_lib := l\<rparr>)"
    "db_holds L d (xs @ [b])"
    "in_memory C loaded cp h (xs @ [b])
       (s\<lparr>COMB_Hash := tip cp (xs @ [b]), node_db := d, COMB_Height := h + of_nat (length (xs @ [b])), node_lib := l\<rparr>)"
    by (rule reorg_to_block [OF chain [unfolded bs'(1)] mem [unfolded bs'(1)] db [unfolded bs'(1)]]) simp_all
  with True bs'(2) show ?thesis
    by (intro that [OF bs'(1) _ _ r(1) [unfolded bs'(2)]]) (simp_all add: in_memory_def)
next
  case False
  obtain b cs where b: "bs = b # cs" using bs by (cases bs) auto
  note here = chain [unfolded b] mem [unfolded b] db [unfolded b]
  obtain d l where r: "combcore_reorg L C t s =
      Inr (s\<lparr>COMB_Hash := t, node_db := d, COMB_Height := h + 1, node_lib := l\<rparr>)"
    "db_holds L d [b]" "loaded l = [Blk_Commits b]"
  proof (cases "t = zero32")
    case True
    show ?thesis by (rule reorg_to_zero [OF here]) (use True that in simp)
  next
    case neither: False
    with False t have "t = cp" by simp
    show ?thesis by (rule reorg_to_checkpoint [OF here]) (use \<open>t = cp\<close> that in simp)
  qed
  with False b show ?thesis
    by (intro that [of "[b]" cs, OF _ _ _ r(1)]) simp_all
qed

text \<open>The new block is processed in memory.\<close>

lemma process_block_mem:
  assumes mem: "in_memory C loaded cp h bs s" and chain: "valid_chain cp h (bs @ [b])"
  shows "combcore_process_block C b s = Inr (after_block C b s)"
    and "in_memory C loaded cp h (bs @ [b]) (after_block C b s)"
proof -
  have b: "blk_previous b = tip cp bs" "blk_height b = h + of_nat (length bs) + 1"
    "blk_hash b \<notin> insert zero32 (insert cp (blk_hash ` set bs))"
    using chain by (auto simp: valid_chain_def linked_append)
  have ht: "lib_GetHeight C (node_lib s) + 1 = blk_height b"
    using mem b(2) by (simp add: in_memory_def)
  show "combcore_process_block C b s = Inr (after_block C b s)"
    using mem b ht by (simp add: combcore_process_block_def after_block_def load_height in_memory_def Let_def)
  show "in_memory C loaded cp h (bs @ [b]) (after_block C b s)"
    using mem b ht maps_chain_extend [OF _ b(3)]
    by (simp add: in_memory_def after_block_def load_height load_loaded add.assoc)
qed

text \<open>Its records join the batch, and the batch still gives the whole chain.\<close>

lemma store_pending:
  assumes disk: "on_disk L bs s" and wf: "wf_chain (bs @ [b])"
  shows "db_process_block L (node_db s) (Neo_Batch s) b = (None, Neo_Batch s @ db_store_block [] b)"
    and "apply_batch (Neo_Batch s @ db_store_block [] b) (map_of (ldb_entries L (node_db s)))
           = map_of (stored (bs @ [b]))"
proof -
  have parts: "wf_chain bs" "wf_block b" and above: "\<And>x. x \<in> set bs \<Longrightarrow> blk_height x < blk_height b"
    using wf by (simp_all add: wf_chain_append)
  have fresh: "blk_height b \<notin> blk_height ` set bs"
    using above less_irrefl by fastforce
  obtain k where k: "db_holds L (node_db s) (take k bs)"
    using disk by (auto simp: on_disk_def)
  show "db_process_block L (node_db s) (Neo_Batch s) b = (None, Neo_Batch s @ db_store_block [] b)"
    using fresh by (intro process_block_batch [OF k]) (auto dest: in_set_takeD)
  have "filter (\<lambda>x. blk_height x < blk_height b) bs = bs" "filter (\<lambda>x. blk_height b < blk_height x) bs = []"
    using above less_asym by (simp_all add: filter_id_conv filter_empty_conv) blast
  then show "apply_batch (Neo_Batch s @ db_store_block [] b) (map_of (ldb_entries L (node_db s)))
      = map_of (stored (bs @ [b]))"
    using disk store_block_stored [OF parts fresh] by (simp add: on_disk_def)
qed

lemma on_disk_pending:
  assumes disk: "on_disk L bs s" and wf: "wf_chain (bs @ [b])" and len: "length (bs @ [b]) < 2 ^ 64"
    and room: "Neo_BatchCached s + 1 < Neo_BatchCapacity s"
  shows "on_disk L (bs @ [b])
    (s\<lparr>Neo_Batch := Neo_Batch s @ db_store_block [] b, Neo_BatchCached := Neo_BatchCached s + 1\<rparr>)"
proof -
  obtain k where k: "k \<le> length bs" "db_holds L (node_db s) (take k bs)"
    "Neo_BatchCached s = of_nat (length bs - k)"
    using disk by (auto simp: on_disk_def)
  have cached: "Neo_BatchCached s + 1 = of_nat (length (bs @ [b]) - k)"
    using k(1,3) by (simp add: Suc_diff_le)
  have "length (bs @ [b]) - k < 2 ^ 64"
    using len by (rule order_le_less_trans [OF diff_le_self])
  then have "unat (Neo_BatchCached s + 1) = length (bs @ [b]) - k"
    unfolding cached by (simp add: unat_of_nat)
  with store_pending [OF disk wf] k cached room show ?thesis
    by (auto simp: on_disk_def word_less_nat_alt intro!: exI [of _ k])
qed

text \<open>
  The second half of \<open>neominer_process_block\<close>: the block extends the tip. The stored blocks
  need not be linked here, only ascending.
\<close>

lemma process_stores:
  assumes disk: "on_disk L bs s" and hash: "COMB_Hash s = BD_Previous d"
    and ht: "lib_GetHeight C (node_lib s) = COMB_Height s"
    and b: "b = neominer_block d (COMB_Height s + 1)"
    and wf: "wf_chain (bs @ [b])" and len: "length (bs @ [b]) < 2 ^ 64" and nz: "BD_Hash d \<noteq> zero32"
  obtains e q n where
    "neominer_process_block L C d s =
       Inr ((after_block C b s)\<lparr>node_db := e, Neo_Batch := q, Neo_BatchCached := n\<rparr>)"
    "on_disk L (bs @ [b]) ((after_block C b s)\<lparr>node_db := e, Neo_Batch := q, Neo_BatchCached := n\<rparr>)"
proof -
  define q where "q = Neo_Batch s @ db_store_block [] b"
  define s2 where "s2 = after_block C b (s\<lparr>Neo_Batch := q, Neo_BatchCached := Neo_BatchCached s + 1\<rparr>)"
  have run: "neominer_process_block L C d s =
      (if Neo_BatchCached s2 \<ge> Neo_BatchCapacity s2 then neominer_write L s2 else Inr s2)"
    using hash ht nz store_pending(1) [OF disk wf]
    by (simp add: neominer_process_block_def neominer_reorg_def combcore_process_block_def b
        neominer_block_def s2_def q_def after_block_def load_height Let_def)
  show ?thesis
  proof (cases "Neo_BatchCached s2 \<ge> Neo_BatchCapacity s2")
    case False
    then have "on_disk L (bs @ [b]) (s\<lparr>Neo_Batch := q, Neo_BatchCached := Neo_BatchCached s + 1\<rparr>)"
      unfolding q_def by (intro on_disk_pending [OF disk wf len]) (simp add: s2_def after_block_def)
    then have "on_disk L (bs @ [b]) s2"
      by (simp add: on_disk_def s2_def after_block_def)
    with False run show ?thesis
      by (intro that [where e = "node_db s" and q = q and n = "Neo_BatchCached s + 1"])
        (simp_all add: s2_def after_block_def on_disk_def)
  next
    case True
    have "apply_batch (Neo_Batch s2) (map_of (ldb_entries L (node_db s2))) = map_of (stored (bs @ [b]))"
      using store_pending(2) [OF disk wf] by (simp add: s2_def q_def after_block_def)
    then obtain e where e: "db_write L (node_db s2) (Neo_Batch s2) = (None, e, [])" "db_holds L e (bs @ [b])"
      by (rule write_holds [OF wf])
    have "0 < Neo_BatchCapacity s2"
      using disk by (auto simp: on_disk_def word_less_nat_alt s2_def after_block_def)
    then have "on_disk L (bs @ [b]) (s2\<lparr>node_db := e, Neo_Batch := [], Neo_BatchCached := 0\<rparr>)"
      by (rule on_disk_flushed [OF e(2)])
    with True run e(1) show ?thesis
      by (intro that [where e = e and q = "[]" and n = 0])
        (simp_all add: s2_def after_block_def neominer_write_def on_disk_def)
  qed
qed

lemma process_extends:
  assumes inv: "node_inv L C loaded cp h bs s"
    and prev: "BD_Previous d = tip cp bs" and good: "good_data cp h bs d"
  obtains s' where "neominer_process_block L C d s = Inr s'"
    "node_inv L C loaded cp h (bs @ [neominer_block d (h + of_nat (length bs) + 1)]) s'"
    "COMB_Chain s' = (COMB_Chain s)(BD_Hash d \<mapsto> BD_Previous d)"
proof -
  define b where "b = neominer_block d (h + of_nat (length bs) + 1)"
  have mem: "in_memory C loaded cp h bs s" and disk: "on_disk L bs s"
    using inv by (simp_all add: node_inv_def)
  have chain: "valid_chain cp h (bs @ [b])"
    using neominer_block_extends [OF _ prev good] inv by (simp add: node_inv_def b_def)
  have len: "length (bs @ [b]) < 2 ^ 64"
    using chain by (simp add: valid_chain_def)
  have here: "COMB_Hash s = BD_Previous d" "lib_GetHeight C (node_lib s) = COMB_Height s"
    "b = neominer_block d (COMB_Height s + 1)" "BD_Hash d \<noteq> zero32"
    using mem prev good by (auto simp: in_memory_def b_def good_data_def)
  obtain e q n where r: "neominer_process_block L C d s =
       Inr ((after_block C b s)\<lparr>node_db := e, Neo_Batch := q, Neo_BatchCached := n\<rparr>)"
    "on_disk L (bs @ [b]) ((after_block C b s)\<lparr>node_db := e, Neo_Batch := q, Neo_BatchCached := n\<rparr>)"
    by (rule process_stores [OF disk here(1-3) valid_chain_wf [OF chain] len here(4)])
  show ?thesis
    using r chain process_block_mem(2) [OF mem chain]
    by (intro that [OF r(1)])
      (simp_all add: node_inv_def in_memory_def b_def after_block_def neominer_block_def)
qed

end

lemma process_after_reorg:
  "neominer_reorg L C (BD_Previous d) s = Inr s1 \<Longrightarrow> COMB_Hash s1 = BD_Previous d \<Longrightarrow>
     neominer_process_block L C d s = neominer_process_block L C d s1"
  by (simp add: neominer_process_block_def neominer_reorg_def)

lemma tip_below_differs:
  assumes "valid_chain cp h (as @ cs)" "cs \<noteq> []"
  shows "tip cp as \<noteq> tip cp (as @ cs)"
proof -
  have "blk_hash (last cs) \<in> blk_hash ` set cs"
    using assms(2) by simp
  moreover have "insert cp (blk_hash ` set as) \<inter> blk_hash ` set cs = {}"
    using assms(1) by (auto simp: valid_chain_def)
  moreover have "tip cp (as @ cs) = blk_hash (last cs)"
    using assms(2) by (simp add: tip_def)
  ultimately show ?thesis
    using tip_member [of cp as] by auto
qed

context comb_node
begin

text \<open>The first half: the rollback leaves a node at the parent.\<close>

lemma reorg_keeps_inv:
  assumes inv: "node_inv L C loaded cp h (as @ cs) s" and as: "as \<noteq> []"
  obtains s1 where "neominer_reorg L C (tip cp as) s = Inr s1" "node_inv L C loaded cp h as s1"
    "COMB_Chain s1 = COMB_Chain s"
proof (cases "cs = []")
  case True
  with inv have "neominer_reorg L C (tip cp as) s = Inr s" "node_inv L C loaded cp h as s"
    by (auto simp: neominer_reorg_def node_inv_def in_memory_def)
  then show ?thesis using that by blast
next
  case False
  have chain: "valid_chain cp h (as @ cs)" and mem: "in_memory C loaded cp h (as @ cs) s"
    and disk: "on_disk L (as @ cs) s"
    using inv by (simp_all add: node_inv_def)
  have hash: "COMB_Hash s = tip cp (as @ cs)" and ne: "tip cp as \<noteq> tip cp (as @ cs)"
    using mem tip_below_differs [OF chain False] by (simp_all add: in_memory_def)
  have "last as \<in> set (as @ cs)" using as by simp
  with mem have known: "COMB_Chain s (tip cp as) = Some (blk_previous (last as))"
    using as by (simp add: in_memory_def maps_chain_def tip_def del: set_append)
  obtain d where w: "neominer_write L s = Inr (s\<lparr>node_db := d, Neo_Batch := [], Neo_BatchCached := 0\<rparr>)"
    "db_holds L d (as @ cs)"
    by (rule write_on_disk [OF valid_chain_wf [OF chain] disk])
  define s0 where "s0 = s\<lparr>node_db := d, Neo_Batch := [], Neo_BatchCached := 0\<rparr>"
  have mem0: "in_memory C loaded cp h (as @ cs) s0" and db0: "db_holds L (node_db s0) (as @ cs)"
    using mem w(2) by (simp_all add: in_memory_def s0_def)
  obtain e l where r: "combcore_reorg L C (tip cp as) s0 =
      Inr (s0\<lparr>COMB_Hash := tip cp as, node_db := e, COMB_Height := h + of_nat (length as), node_lib := l\<rparr>)"
    "db_holds L e as"
    "in_memory C loaded cp h as
      (s0\<lparr>COMB_Hash := tip cp as, node_db := e, COMB_Height := h + of_nat (length as), node_lib := l\<rparr>)"
    by (rule reorg_to_block [OF chain mem0 db0 as])
  define s1 where "s1 = s0\<lparr>COMB_Hash := tip cp as, node_db := e, COMB_Height := h + of_nat (length as), node_lib := l\<rparr>"
  have cap: "0 < Neo_BatchCapacity s"
    using disk by (auto simp: on_disk_def word_less_nat_alt)
  have "on_disk L as s1"
    using r(2) cap by (auto simp: on_disk_def s1_def s0_def db_holds_def word_less_nat_alt)
  then have "node_inv L C loaded cp h as s1"
    using valid_chain_take [OF chain] r(3) by (simp add: node_inv_def s1_def)
  moreover have "neominer_reorg L C (tip cp as) s = Inr s1"
    using ne hash known w(1) r(1) by (simp add: neominer_reorg_def s0_def s1_def)
  moreover have "COMB_Chain s1 = COMB_Chain s"
    by (simp add: s1_def s0_def)
  ultimately show ?thesis using that by blast
qed

lemma process_block_inv:
  assumes inv: "node_inv L C loaded cp h (as @ cs) s" and as: "as \<noteq> [] \<or> cs = []"
    and prev: "BD_Previous d = tip cp as" and good: "good_data cp h as d"
  obtains s' where "neominer_process_block L C d s = Inr s'"
    "node_inv L C loaded cp h (as @ [neominer_block d (h + of_nat (length as) + 1)]) s'"
    "COMB_Chain s' = (COMB_Chain s)(BD_Hash d \<mapsto> BD_Previous d)"
proof -
  obtain s1 where s1: "neominer_process_block L C d s = neominer_process_block L C d s1"
    "node_inv L C loaded cp h as s1" "COMB_Chain s1 = COMB_Chain s"
  proof (cases "as = []")
    case True
    with inv as show ?thesis using that [of s] by simp
  next
    case False
    obtain s1 where r: "neominer_reorg L C (tip cp as) s = Inr s1" "node_inv L C loaded cp h as s1"
      "COMB_Chain s1 = COMB_Chain s"
      by (rule reorg_keeps_inv [OF inv False])
    then have "COMB_Hash s1 = BD_Previous d"
      using prev by (simp add: node_inv_def in_memory_def)
    with r prev that show ?thesis
      by (metis process_after_reorg)
  qed
  show ?thesis
    by (rule process_extends [OF s1(2) prev good]) (use s1 that in \<open>simp_all\<close>)
qed

text \<open>Where the code goes wrong: a parent that was rolled back, and the checkpoint.\<close>

lemma orphan_parent_panics:
  assumes inv: "node_inv L C loaded cp h bs s"
    and known: "COMB_Chain s (BD_Previous d) = Some p"
    and off: "BD_Previous d \<notin> insert zero32 (insert cp (blk_hash ` set bs))"
  shows "neominer_process_block L C d s = Inl PanicPastCheckpoint"
proof -
  have chain: "valid_chain cp h bs" and mem: "in_memory C loaded cp h bs s" and disk: "on_disk L bs s"
    using inv by (simp_all add: node_inv_def)
  obtain e where w: "neominer_write L s = Inr (s\<lparr>node_db := e, Neo_Batch := [], Neo_BatchCached := 0\<rparr>)"
    "db_holds L e bs"
    by (rule write_on_disk [OF valid_chain_wf [OF chain] disk])
  have "BD_Previous d \<noteq> COMB_Hash s"
    using off tip_member [of cp bs] mem by (auto simp: in_memory_def)
  moreover have "combcore_reorg L C (BD_Previous d) (s\<lparr>node_db := e, Neo_Batch := [], Neo_BatchCached := 0\<rparr>) =
      Inl PanicPastCheckpoint"
    using mem w(2) off by (intro reorg_off_chain [OF chain]) (simp_all add: in_memory_def)
  ultimately show ?thesis
    using known w(1) by (simp add: neominer_process_block_def neominer_reorg_def)
qed

lemma checkpoint_block:
  assumes inv: "node_inv L C loaded cp h (b # bs) s" and prev: "BD_Previous d = cp"
    and good: "good_data cp h [b] d"
  obtains s' where "neominer_process_block L C d s = Inr s'"
    "on_disk L [b, neominer_block d (h + 1 + 1)] s'" "wf_chain [b, neominer_block d (h + 1 + 1)]"
    "COMB_Hash s' = BD_Hash d" "COMB_Height s' = h + 1 + 1"
    "loaded (node_lib s') = [Blk_Commits b, BD_Commits d]"
proof -
  have chain: "valid_chain cp h (b # bs)" and mem: "in_memory C loaded cp h (b # bs) s"
    and disk: "on_disk L (b # bs) s"
    using inv by (simp_all add: node_inv_def)
  have off: "cp \<noteq> COMB_Hash s"
    using mem tip_below_differs [of cp h "[]" "b # bs"] chain by (simp add: in_memory_def)
  obtain e where w: "neominer_write L s = Inr (s\<lparr>node_db := e, Neo_Batch := [], Neo_BatchCached := 0\<rparr>)"
    "db_holds L e (b # bs)"
    by (rule write_on_disk [OF valid_chain_wf [OF chain] disk])
  define s0 where "s0 = s\<lparr>node_db := e, Neo_Batch := [], Neo_BatchCached := 0\<rparr>"
  have mem0: "in_memory C loaded cp h (b # bs) s0" and db0: "db_holds L (node_db s0) (b # bs)"
    using mem w(2) by (simp_all add: in_memory_def s0_def)
  obtain f l where r: "combcore_reorg L C cp s0 =
      Inr (s0\<lparr>COMB_Hash := cp, node_db := f, COMB_Height := h + 1, node_lib := l\<rparr>)"
    "db_holds L f [b]" "lib_GetHeight C l = h + 1" "loaded l = [Blk_Commits b]"
    by (rule reorg_to_checkpoint [OF chain mem0 db0])
  define s1 where "s1 = s0\<lparr>COMB_Hash := cp, node_db := f, COMB_Height := h + 1, node_lib := l\<rparr>"
  have "COMB_Chain s cp \<noteq> None"
    using mem by (simp add: in_memory_def maps_chain_def)
  then have run: "neominer_process_block L C d s = neominer_process_block L C d s1"
    using off w(1) r(1) prev
    by (intro process_after_reorg) (auto simp: neominer_reorg_def s1_def simp flip: s0_def)
  have "0 < Neo_BatchCapacity s1"
    using disk by (auto simp: on_disk_def word_less_nat_alt s1_def s0_def)
  then have disk1: "on_disk L [b] s1"
    using on_disk_flushed [OF r(2), of s1] by (simp add: s1_def s0_def on_disk_def)
  define b2 where "b2 = neominer_block d (h + 1 + 1)"
  have ht: "blk_height b = h + 1" "unat (h + 1) = unat h + 1" "unat (h + 1 + 1) = unat h + 2"
    using chain good by (simp_all add: valid_chain_def good_data_def unat_word_ariths)
  have wf: "wf_chain ([b] @ [b2])"
    using valid_chain_wf [OF chain] good ht
    by (simp add: b2_def neominer_block_def wf_block_def wf_metadata_def good_data_def word_less_nat_alt)
  have here: "COMB_Hash s1 = BD_Previous d" "lib_GetHeight C (node_lib s1) = COMB_Height s1"
    "b2 = neominer_block d (COMB_Height s1 + 1)" "length ([b] @ [b2]) < 2 ^ 64" "BD_Hash d \<noteq> zero32"
    using prev r(3) good by (auto simp: s1_def b2_def good_data_def)
  obtain g q n where p: "neominer_process_block L C d s1 =
       Inr ((after_block C b2 s1)\<lparr>node_db := g, Neo_Batch := q, Neo_BatchCached := n\<rparr>)"
    "on_disk L ([b] @ [b2]) ((after_block C b2 s1)\<lparr>node_db := g, Neo_Batch := q, Neo_BatchCached := n\<rparr>)"
    by (rule process_stores [OF disk1 here(1-3) wf here(4,5)])
  show ?thesis
    using wf p r(4)
    by (intro that [unfolded run, OF p(1)])
      (simp_all add: after_block_def b2_def neominer_block_def load_loaded s1_def)
qed

end

end
