(* ===== verification/Startup.thy ===== *)
theory Startup
  imports Ingest
begin

section \<open>Starting the node: checkpoint, database, recovery\<close>

text \<open>
  Properties of \<open>combcore_init\<close>, \<open>db_start\<close> and \<open>db_load\<close>: what a node holds in memory
  after it has loaded an intact database, a database with a corrupted block, and a database
  whose first block does not extend the checkpoint.
\<close>

subsection \<open>Consuming the loaded blocks\<close>

text \<open>The zero block that \<open>db_load_blocks\<close> sends first is discarded.\<close>

lemma consume_zero_block: "db_load_consume L C (zero_block # blocks) s = db_load_consume L C blocks s"
  by (simp add: combcore_process_block_def zero_block_def zero_metadata_def db_compute_block_fingerprint_def)

lemma after_block_db [simp]:
  "node_db (after_block C b s) = node_db s" "Neo_Batch (after_block C b s) = Neo_Batch s"
  "Neo_BatchCached (after_block C b s) = Neo_BatchCached s"
  "Neo_BatchCapacity (after_block C b s) = Neo_BatchCapacity s"
  "COMB_StatusLock (after_block C b s) = COMB_StatusLock s" "BTC_DirectPath (after_block C b s) = BTC_DirectPath s"
  by (simp_all add: after_block_def)

lemma after_blocks_db [simp]:
  "node_db (fold (after_block C) bs s) = node_db s" "Neo_Batch (fold (after_block C) bs s) = Neo_Batch s"
  "Neo_BatchCached (fold (after_block C) bs s) = Neo_BatchCached s"
  "Neo_BatchCapacity (fold (after_block C) bs s) = Neo_BatchCapacity s"
  "COMB_StatusLock (fold (after_block C) bs s) = COMB_StatusLock s"
  "BTC_DirectPath (fold (after_block C) bs s) = BTC_DirectPath s"
  by (induction bs arbitrary: s) simp_all

lemma after_blocks_known:
  "dom (COMB_Chain (fold (after_block C) bs s)) = dom (COMB_Chain s) \<union> blk_hash ` set bs"
  by (induction bs arbitrary: s) (auto simp: after_block_def)

context comb_node
begin

lemma consume_good:
  assumes "valid_chain cp h (as @ bs)" "in_memory C loaded cp h as s" "list_all good_fingerprint bs"
  shows "db_load_consume L C (bs @ rest) s = db_load_consume L C rest (fold (after_block C) bs s)"
    and "in_memory C loaded cp h (as @ bs) (fold (after_block C) bs s)"
proof -
  have "db_load_consume L C (bs @ rest) s = db_load_consume L C rest (fold (after_block C) bs s)
    \<and> in_memory C loaded cp h (as @ bs) (fold (after_block C) bs s)"
    using assms
  proof (induction bs arbitrary: as s)
    case (Cons b bs)
    have chain: "valid_chain cp h (as @ [b])"
      using Cons.prems(1) valid_chain_take [of cp h "as @ [b]" bs] by simp
    note step = process_block_mem [OF Cons.prems(2) chain]
    from Cons.IH [OF _ step(2)] Cons.prems step(1) show ?case
      by (simp add: good_fingerprint_def)
  qed simp
  then show "db_load_consume L C (bs @ rest) s = db_load_consume L C rest (fold (after_block C) bs s)"
    and "in_memory C loaded cp h (as @ bs) (fold (after_block C) bs s)" by auto
qed

text \<open>All stored blocks are asked for: the range ends below the largest height.\<close>

lemma load_sends_below:
  assumes "db_holds L (node_db s) bs" "\<And>b. b \<in> set bs \<Longrightarrow> blk_height b < NOT 0"
  shows "db_load L C s = db_load_consume L C bs s"
proof -
  have "filter (\<lambda>b. blk_height b < NOT 0) bs = bs"
    using assms(2) unfolding filter_id_conv by (rule ballI)
  with load_blocks_holds [OF assms(1), of 0 "NOT 0 - 1"] show ?thesis
    by (cases "bs = []") (simp_all add: db_load_def Let_def consume_zero_block del: db_load_consume.simps(2))
qed

lemma load_sends_all:
  assumes "db_holds L (node_db s) bs" "valid_chain cp h bs"
  shows "db_load L C s = db_load_consume L C bs s"
  using load_sends_below [OF assms(1)] valid_chain_below [OF assms(2)] by blast

lemma load_intact:
  assumes "db_holds L (node_db s) bs" "valid_chain cp h bs" "in_memory C loaded cp h [] s"
    and "list_all good_fingerprint bs"
  shows "db_load L C s = Inr (fold (after_block C) bs s)"
    and "in_memory C loaded cp h bs (fold (after_block C) bs s)"
  using load_sends_all [OF assms(1,2)] consume_good(1) [of cp h "[]" bs s "[]"]
    consume_good(2) [of cp h "[]" bs s] assms
  by simp_all

lemma load_corrupted:
  assumes db: "db_holds L (node_db s) (as @ b # bs)" and chain: "valid_chain cp h (as @ b # bs)"
    and start: "in_memory C loaded cp h [] s"
    and good: "list_all good_fingerprint as" and bad: "\<not> good_fingerprint b"
  obtains s' where "db_load L C s = Inr s'" "in_memory C loaded cp h as s'" "db_holds L (node_db s') as"
proof -
  define s1 where "s1 = fold (after_block C) as s"
  have db1: "db_holds L (node_db s1) (as @ b # bs)"
    using db by (simp add: s1_def)
  have mem: "in_memory C loaded cp h as s1"
    using consume_good(2) [of cp h "[]" as s] valid_chain_take [OF chain] start good by (simp add: s1_def)
  have top: "unat (blk_height b) = unat h + Suc (length as)"
    using valid_chain_height [OF chain, of "length as"] by simp
  have "\<forall>x \<in> set as. blk_height x < blk_height b" "\<forall>x \<in> set bs. blk_height b < blk_height x"
    using valid_chain_wf [OF chain] by (auto simp: wf_chain_append)
  then have keep: "filter (\<lambda>x. blk_height x < blk_height b) (as @ b # bs) = as"
    by (auto simp: filter_id_conv filter_empty_conv dest: less_asym)
  obtain d where d: "db_remove_blocks_after L (node_db s1) (blk_height b) = (None, d)" "db_holds L d as"
    using remove_after_holds [OF db1, of "blk_height b"] unfolding keep by blast
  have "db_load L C s = db_load_consume L C (b # bs) s1"
    using load_sends_all [OF db chain] consume_good(1) [of cp h "[]" as s "b # bs"]
      valid_chain_take [OF chain] start good by (simp add: s1_def)
  also have "\<dots> = db_load_recover L (blk_height b) s1"
    using bad by (simp add: good_fingerprint_def)
  also have "\<dots> = Inr (s1\<lparr>node_db := d\<rparr>)"
    using top d(1) by (auto simp: db_load_recover_def)
  finally have run: "db_load L C s = Inr (s1\<lparr>node_db := d\<rparr>)" .
  show ?thesis
    using that [OF run] mem d(2) by (simp add: in_memory_def)
qed

lemma load_unlinked:
  assumes "db_holds L (node_db s) (as @ b # bs)" "valid_chain cp h as" "in_memory C loaded cp h [] s"
    and "list_all good_fingerprint as" "good_fingerprint b"
    and "blk_previous b \<noteq> tip cp as" "blk_hash b \<noteq> zero32"
    and "blk_height (last (b # bs)) < NOT 0"
  shows "db_load L C s = Inl PanicCorruptionZero"
proof -
  define s1 where "s1 = fold (after_block C) as s"
  have wf: "wf_chain (as @ b # bs)"
    using assms(1) by (simp add: db_holds_def)
  have mem: "in_memory C loaded cp h as s1"
    using consume_good(2) [of cp h "[]" as s] assms(2-4) by (simp add: s1_def)
  have "db_load L C s = db_load_consume L C (as @ b # bs) s"
  proof (rule load_sends_below [OF assms(1)], rule order_le_less_trans)
    fix x assume "x \<in> set (as @ b # bs)"
    then show "blk_height x \<le> blk_height (last (b # bs))"
      using wf_chain_le_last [OF wf] by simp
  qed (rule assms(8))
  also have "\<dots> = db_load_consume L C (b # bs) s1"
    using consume_good(1) [of cp h "[]" as s "b # bs"] assms(2-4) by (simp add: s1_def)
  also have "\<dots> = Inl PanicCorruptionZero"
    using mem assms(5-7)
    by (simp add: good_fingerprint_def combcore_process_block_def in_memory_def db_load_recover_def)
  finally show ?thesis .
qed

end

end
