(* ===== verification/Node_Correct.thy ===== *)
theory Node_Correct
  imports Startup
begin

section \<open>The node follows the chain it is given\<close>

text \<open>
  The properties of the chain handling, over every LevelDB store and every library that keep
  their laws: the blocks a miner delivers move the node along \<open>chain_step\<close>, the abstract
  specification.
\<close>

interpretation comb: comb_node log_store plain_libcomb snd
  by (rule comb_node.intro [OF log_store_reliable plain_libcomb_chain])

lemma comb_nodeI: "reliable_store L \<Longrightarrow> libcomb_chain C loaded \<Longrightarrow> comb_node L C loaded"
  by (rule comb_node.intro)

subsection \<open>A concrete node\<close>

text \<open>A node above a checkpoint of height 10, with two blocks, both written.\<close>

definition sample_node :: "(batch, u64 \<times> hash256 list list) node" where
  "sample_node =
     \<lparr>COMB_Height = 12, COMB_Hash = sample_hash 102,
      COMB_Chain = [sample_hash 100 \<mapsto> zero32, sample_hash 101 \<mapsto> sample_hash 100,
                    sample_hash 102 \<mapsto> sample_hash 101],
      COMB_Status = ''Idle'', COMB_StatusLock = False, COMB_Network = ''testnet'', COMB_Magic = 0,
      COMB_Prefix = Map.empty, COMB_Path = ''commits_testnet'', DB_InitialLoad = False,
      DB_Version = DB_CURRENT_VERSION, node_db = sample_db, node_db_is_new = False,
      Neo_BatchCapacity = 10000, Neo_BatchCached = 0, Neo_Batch = [],
      BTC_RestURL = '''', BTC_DirectPath = '''',
      BTC_Chain = \<lparr>Chain_Height = 0, Chain_KnownHeight = 0, Chain_TopHash = zero32\<rparr>,
      node_lib = (12, [[sample_hash 7, sample_hash 8], [sample_hash 7]])\<rparr>"

text \<open>The same node before it has loaded its database.\<close>

definition sample_start :: "(batch, u64 \<times> hash256 list list) node" where
  "sample_start = sample_node\<lparr>COMB_Height := 10, COMB_Hash := sample_hash 100,
     COMB_Chain := [sample_hash 100 \<mapsto> zero32], node_lib := (10, [])\<rparr>"

lemma sample_valid: "valid_chain (sample_hash 100) 10 [sample_1, sample_2]"
  by (simp add: valid_chain_def sample_defs wf_block_def wf_metadata_def sample_hash_zero)

lemma sample_inv: "node_inv log_store plain_libcomb snd (sample_hash 100) 10 [sample_1, sample_2] sample_node"
proof -
  have "in_memory plain_libcomb snd (sample_hash 100) 10 [sample_1, sample_2] sample_node"
    by (simp add: in_memory_def sample_node_def sample_defs plain_libcomb_def maps_chain_def
        sample_hash_zero tip_def)
  moreover have "on_disk log_store [sample_1, sample_2] sample_node"
    using sample_db_holds
    by (auto simp: on_disk_def sample_node_def db_holds_def intro!: exI [of _ 2])
  ultimately show ?thesis
    using sample_valid by (simp add: node_inv_def)
qed

lemma sample_start_memory: "in_memory plain_libcomb snd (sample_hash 100) 10 [] sample_start"
  by (simp add: in_memory_def sample_start_def plain_libcomb_def maps_chain_def sample_hash_zero)

subsection \<open>The specification\<close>

text \<open>
  A delivered block extends the chain when its parent is the tip; when its parent is a block
  below the tip, it replaces everything above the parent. The checkpoint itself can only be
  the parent of the first block.
\<close>

inductive chain_step :: "hash256 \<Rightarrow> u64 \<Rightarrow> Block list \<Rightarrow> BlockData \<Rightarrow> Block list \<Rightarrow> bool"
  for cp :: hash256 and h :: u64 where
  extend: "BD_Previous d = tip cp bs \<Longrightarrow> good_data cp h bs d \<Longrightarrow>
    chain_step cp h bs d (bs @ [neominer_block d (h + of_nat (length bs) + 1)])"
| replace: "as \<noteq> [] \<Longrightarrow> BD_Previous d = tip cp as \<Longrightarrow> good_data cp h as d \<Longrightarrow>
    chain_step cp h (as @ cs) d (as @ [neominer_block d (h + of_nat (length as) + 1)])"

inductive chain_run :: "hash256 \<Rightarrow> u64 \<Rightarrow> Block list \<Rightarrow> BlockData list \<Rightarrow> Block list \<Rightarrow> bool"
  for cp :: hash256 and h :: u64 where
  run_done: "chain_run cp h bs [] bs"
| run_more: "chain_step cp h bs d bs' \<Longrightarrow> chain_run cp h bs' ds bs'' \<Longrightarrow> chain_run cp h bs (d # ds) bs''"

inductive_simps chain_run_simps [simp]:
  "chain_run cp h bs [] bs'" "chain_run cp h bs (d # ds) bs'"

lemma neominer_block_good: "good_fingerprint (neominer_block d h)"
  by (simp add: good_fingerprint_def neominer_block_def)

lemma chain_step_good:
  "chain_step cp h bs d bs' \<Longrightarrow> list_all good_fingerprint bs \<Longrightarrow> list_all good_fingerprint bs'"
  by (induction rule: chain_step.induct) (simp_all add: neominer_block_good)

lemma chain_run_good:
  "chain_run cp h bs ds bs' \<Longrightarrow> list_all good_fingerprint bs \<Longrightarrow> list_all good_fingerprint bs'"
  by (induction rule: chain_run.induct) (simp_all add: chain_step_good)

context comb_node
begin

lemma step_follows:
  assumes "chain_step cp h bs d bs'" "node_inv L C loaded cp h bs s"
  obtains s' where "neominer_process_block L C d s = Inr s'" "node_inv L C loaded cp h bs' s'"
  using assms
proof (cases rule: chain_step.cases)
  case extend
  with assms(2) show ?thesis
    using process_block_inv [of cp h bs "[]" s d] that by auto
next
  case (replace as cs)
  with assms(2) show ?thesis
    using process_block_inv [of cp h as cs s d] that by auto
qed

lemma run_follows:
  assumes "chain_run cp h bs ds bs'" "node_inv L C loaded cp h bs s"
  shows "\<exists>s'. fold_res (neominer_process_block L C) ds s = Inr s' \<and> node_inv L C loaded cp h bs' s'"
  using assms
proof (induction arbitrary: s rule: chain_run.induct)
  case (run_more bs d bs' ds bs'')
  obtain s' where "neominer_process_block L C d s = Inr s'" "node_inv L C loaded cp h bs' s'"
    by (rule step_follows [OF run_more.hyps(1) run_more.prems])
  with run_more.IH show ?case by simp
qed simp

lemma start_result:
  assumes "db_holds L (node_db s) bs" "valid_chain cp h bs" "in_memory C loaded cp h [] s"
    and "list_all good_fingerprint bs" "\<not> node_db_is_new s"
  obtains s' where "db_start L C s = Inr s'" "in_memory C loaded cp h bs s'"
    "s' = (fold (after_block C) bs (s\<lparr>DB_Version := DB_CURRENT_VERSION, DB_InitialLoad := True\<rparr>))
       \<lparr>DB_InitialLoad := False\<rparr>"
proof -
  define s1 where "s1 = s\<lparr>DB_Version := DB_CURRENT_VERSION, DB_InitialLoad := True\<rparr>"
  have pre: "db_holds L (node_db s1) bs" "in_memory C loaded cp h [] s1"
    using assms(1,3) by (simp_all add: s1_def in_memory_def)
  note ld = load_intact [OF pre(1) assms(2) pre(2) assms(4)]
  have "db_start L C s = Inr ((fold (after_block C) bs s1)\<lparr>DB_InitialLoad := False\<rparr>)"
    using version_holds [OF assms(1)] ld(1) assms(5) by (simp add: db_start_def flip: s1_def)
  then show ?thesis
    by (rule that) (use ld(2) in \<open>simp_all add: in_memory_def s1_def\<close>)
qed

lemma start_loads:
  assumes "db_holds L (node_db s) bs" "valid_chain cp h bs" "in_memory C loaded cp h [] s"
    and "list_all good_fingerprint bs" "\<not> node_db_is_new s"
  obtains s' where "db_start L C s = Inr s'" "in_memory C loaded cp h bs s'" "node_db s' = node_db s"
proof -
  obtain s' where s': "db_start L C s = Inr s'" "in_memory C loaded cp h bs s'"
    "s' = (fold (after_block C) bs (s\<lparr>DB_Version := DB_CURRENT_VERSION, DB_InitialLoad := True\<rparr>))
       \<lparr>DB_InitialLoad := False\<rparr>"
    by (rule start_result [OF assms])
  show ?thesis
    by (rule that [OF s'(1,2)]) (simp add: s'(3))
qed

lemma start_flushed:
  assumes "flushed L bs s" "valid_chain cp h bs" "in_memory C loaded cp h [] s"
    and "list_all good_fingerprint bs" "\<not> node_db_is_new s"
  obtains s' where "db_start L C s = Inr s'" "node_inv L C loaded cp h bs s'" "flushed L bs s'"
    "COMB_StatusLock s' = COMB_StatusLock s" "BTC_DirectPath s' = BTC_DirectPath s"
    "dom (COMB_Chain s') = dom (COMB_Chain s) \<union> blk_hash ` set bs"
proof -
  have "db_holds L (node_db s) bs"
    using assms(1) by (simp add: flushed_def)
  then obtain s' where s': "db_start L C s = Inr s'" "in_memory C loaded cp h bs s'"
    "s' = (fold (after_block C) bs (s\<lparr>DB_Version := DB_CURRENT_VERSION, DB_InitialLoad := True\<rparr>))
       \<lparr>DB_InitialLoad := False\<rparr>"
    by (rule start_result [OF _ assms(2-5)])
  then have fl: "flushed L bs s'"
    using assms(1) by (simp add: flushed_def)
  have inv: "node_inv L C loaded cp h bs s'"
    using s'(2) assms(2) flushed_on_disk [OF fl] by (simp add: node_inv_def)
  show ?thesis
    by (rule that [OF s'(1) inv fl]) (simp_all add: s'(3) after_blocks_known)
qed

end

subsection \<open>Blocks to deliver to the concrete node\<close>

definition sample_data :: "nat \<Rightarrow> nat \<Rightarrow> hash256 list \<Rightarrow> BlockData" where
  "sample_data n p cs = \<lparr>BD_Hash = sample_hash n, BD_Previous = sample_hash p, BD_Commits = cs\<rparr>"

definition fork_block :: Block where
  "fork_block = neominer_block (sample_data 113 101 [sample_hash 9]) 12"

lemma sample_tips:
  "blk_hash sample_1 = sample_hash 101" "blk_hash sample_2 = sample_hash 102"
  "tip (sample_hash 100) [sample_1, sample_2] = sample_hash 102"
  by (simp_all add: tip_def sample_defs)

lemma sample_fork_good:
  "good_data (sample_hash 100) 10 [sample_1] (sample_data 113 101 [sample_hash 9])"
  by (simp add: good_data_def sample_data_def sample_defs sample_hash_zero)

lemma sample_extend:
  "chain_step (sample_hash 100) 10 [sample_1, sample_2] (sample_data 103 102 [])
     [sample_1, sample_2, neominer_block (sample_data 103 102 []) 13]"
  using chain_step.extend [of "sample_data 103 102 []" "sample_hash 100" "[sample_1, sample_2]" 10]
  by (simp add: good_data_def sample_data_def sample_tips sample_hash_zero)

lemma sample_replace:
  "chain_step (sample_hash 100) 10 (sample_1 # cs) (sample_data 113 101 [sample_hash 9])
     [sample_1, fork_block]"
  using chain_step.replace [of "[sample_1]" "sample_data 113 101 [sample_hash 9]" "sample_hash 100" 10 cs]
    sample_fork_good
  by (simp add: sample_data_def sample_tips fork_block_def)

lemma sample_run:
  "chain_run (sample_hash 100) 10 [sample_1, sample_2]
     [sample_data 103 102 [], sample_data 113 101 [sample_hash 9]] [sample_1, fork_block]"
  using sample_extend sample_replace by (fastforce intro: chain_run.intros)

lemma sample_good: "list_all good_fingerprint [sample_1, sample_2]"
  by (simp add: good_fingerprint_def sample_defs)

subsection \<open>Following the chain\<close>

text \<open>
  One delivered block: a block on top of the tip is appended, a block on top of an earlier
  block replaces everything above that block, and neither call panics. Afterwards
  \<open>COMBInfo\<close>, \<open>libcomb\<close>, the child-to-parent map, the database and the batch all describe the new
  chain.
\<close>

theorem process_block_follows:
  assumes "reliable_store L" "libcomb_chain C loaded"
    and "node_inv L C loaded cp h bs s" "chain_step cp h bs d bs'"
  shows "\<exists>s'. neominer_process_block L C d s = Inr s' \<and> node_inv L C loaded cp h bs' s'"
  using comb_node.step_follows [OF comb_nodeI [OF assms(1,2)] assms(4,3)] by blast

theorem process_block_follows_witness:
  "\<exists>s'. neominer_process_block log_store plain_libcomb (sample_data 113 101 [sample_hash 9]) sample_node = Inr s'
     \<and> node_inv log_store plain_libcomb snd (sample_hash 100) 10 [sample_1, fork_block] s'"
  by (rule process_block_follows [OF log_store_reliable plain_libcomb_chain sample_inv sample_replace])

text \<open>
  C1. Any sequence of delivered blocks, extensions and reorganisations in any order, is
  processed to the end without a panic, and then flushing the batch leaves exactly the
  specification's chain in the database, and its commits in the library, in order.
\<close>

theorem deliveries_then_flush:
  assumes "reliable_store L" "libcomb_chain C loaded"
    and "node_inv L C loaded cp h bs s" "chain_run cp h bs ds bs'"
  shows "\<exists>s' d. try_then (fold_res (neominer_process_block L C) ds s) (neominer_write L) = Inr s'
    \<and> db_holds L (node_db s') bs' \<and> loaded (node_lib s') = map Blk_Commits bs'
    \<and> COMB_Hash s' = tip cp bs' \<and> COMB_Height s' = h + of_nat (length bs')"
proof -
  note node = comb_nodeI [OF assms(1,2)]
  obtain s' where s': "fold_res (neominer_process_block L C) ds s = Inr s'" "node_inv L C loaded cp h bs' s'"
    using comb_node.run_follows [OF node assms(4,3)] by blast
  then have wf: "wf_chain bs'" and disk: "on_disk L bs' s'" and mem: "in_memory C loaded cp h bs' s'"
    by (auto simp: node_inv_def intro: valid_chain_wf)
  obtain d where "neominer_write L s' = Inr (s'\<lparr>node_db := d, Neo_Batch := [], Neo_BatchCached := 0\<rparr>)"
    "db_holds L d bs'"
    by (rule comb_node.write_on_disk [OF node wf disk])
  with s' mem show ?thesis
    by (auto simp: in_memory_def)
qed

theorem deliveries_then_flush_witness:
  "\<exists>s' d. try_then (fold_res (neominer_process_block log_store plain_libcomb)
        [sample_data 103 102 [], sample_data 113 101 [sample_hash 9]] sample_node) (neominer_write log_store)
      = Inr s'
    \<and> db_holds log_store (node_db s') [sample_1, fork_block]
    \<and> snd (node_lib s') = map Blk_Commits [sample_1, fork_block]
    \<and> COMB_Hash s' = tip (sample_hash 100) [sample_1, fork_block]
    \<and> COMB_Height s' = 10 + of_nat (length [sample_1, fork_block])"
  by (rule deliveries_then_flush [OF log_store_reliable plain_libcomb_chain sample_inv sample_run])

end
