(* ===== verification/Btc_Correct.thy ===== *)
theory Btc_Correct
  imports Btc
begin

section \<open>The parser inverts Bitcoin's block format\<close>

text \<open>
  The block format as a serialiser of structured blocks, and the theorem that the parser
  reads back from it what Haircomb needs: the block's hash, its parent's hash, and the
  witness program of every pay-to-witness-script-hash output, in the order of the outputs.
\<close>

subsection \<open>The format\<close>

definition put_varint :: "u64 \<Rightarrow> bytes" where
  "put_varint v =
     (if v < 0xfd then [ucast v]
      else if v < 0x10000 then 0xfd # rev (put_be16 (ucast v))
      else if v < 0x100000000 then 0xfe # rev (put_be32 (ucast v))
      else 0xff # rev (put_be64 v))"

record btc_input =
  In_Outpoint :: bytes
  In_Script :: bytes
  In_Sequence :: bytes

record btc_output =
  Out_Value :: bytes
  Out_Script :: bytes

record btc_tx =
  Tx_Version :: bytes
  Tx_Flag :: "byte option"
  Tx_Inputs :: "btc_input list"
  Tx_Outputs :: "btc_output list"
  Tx_Witnesses :: "bytes list list"
  Tx_Locktime :: bytes

record btc_block =
  Raw_Version :: bytes
  Raw_Previous :: bytes
  Raw_Fields :: bytes
  Raw_Txs :: "btc_tx list"

definition ser_count :: "'a list \<Rightarrow> bytes" where
  "ser_count xs = put_varint (of_nat (length xs))"

definition ser_bytes :: "bytes \<Rightarrow> bytes" where
  "ser_bytes s = ser_count s @ s"

definition ser_input :: "btc_input \<Rightarrow> bytes" where
  "ser_input i = In_Outpoint i @ ser_bytes (In_Script i) @ In_Sequence i"

definition ser_output :: "btc_output \<Rightarrow> bytes" where
  "ser_output out = Out_Value out @ ser_bytes (Out_Script out)"

definition ser_witness :: "bytes list \<Rightarrow> bytes" where
  "ser_witness ws = ser_count ws @ concat (map ser_bytes ws)"

text \<open>A segregated-witness transaction has a zero byte and a flag byte before its inputs.\<close>

definition ser_tx :: "btc_tx \<Rightarrow> bytes" where
  "ser_tx tx =
     Tx_Version tx @ (case Tx_Flag tx of None \<Rightarrow> [] | Some flag \<Rightarrow> [0, flag])
     @ ser_count (Tx_Inputs tx) @ concat (map ser_input (Tx_Inputs tx))
     @ ser_count (Tx_Outputs tx) @ concat (map ser_output (Tx_Outputs tx))
     @ (case Tx_Flag tx of None \<Rightarrow> [] | Some _ \<Rightarrow> concat (map ser_witness (Tx_Witnesses tx)))
     @ Tx_Locktime tx"

definition ser_header :: "btc_block \<Rightarrow> bytes" where
  "ser_header b = Raw_Version b @ Raw_Previous b @ Raw_Fields b"

definition ser_block :: "btc_block \<Rightarrow> bytes" where
  "ser_block b = ser_header b @ ser_count (Raw_Txs b) @ concat (map ser_tx (Raw_Txs b))"

text \<open>Fields have their widths, and lists are shorter than the largest \<open>int\<close>.\<close>

abbreviation short :: "'a list \<Rightarrow> bool" where
  "short xs \<equiv> length xs < 2 ^ 63"

definition wf_input :: "btc_input \<Rightarrow> bool" where
  "wf_input i \<longleftrightarrow> length (In_Outpoint i) = 36 \<and> short (In_Script i) \<and> length (In_Sequence i) = 4"

definition wf_output :: "btc_output \<Rightarrow> bool" where
  "wf_output out \<longleftrightarrow> length (Out_Value out) = 8 \<and> short (Out_Script out)"

definition wf_tx :: "btc_tx \<Rightarrow> bool" where
  "wf_tx tx \<longleftrightarrow>
     length (Tx_Version tx) = 4 \<and> length (Tx_Locktime tx) = 4
     \<and> Tx_Inputs tx \<noteq> [] \<and> short (Tx_Inputs tx) \<and> short (Tx_Outputs tx)
     \<and> list_all wf_input (Tx_Inputs tx) \<and> list_all wf_output (Tx_Outputs tx)
     \<and> (Tx_Flag tx \<noteq> None \<longrightarrow> length (Tx_Witnesses tx) = length (Tx_Inputs tx)
          \<and> list_all (\<lambda>ws. short ws \<and> list_all short ws) (Tx_Witnesses tx))"

definition wf_raw_block :: "btc_block \<Rightarrow> bool" where
  "wf_raw_block b \<longleftrightarrow>
     length (Raw_Version b) = 4 \<and> length (Raw_Previous b) = 32 \<and> length (Raw_Fields b) = 44
     \<and> short (Raw_Txs b) \<and> list_all wf_tx (Raw_Txs b)"

text \<open>A pay-to-witness-script-hash script: version 0, then a push of 32 bytes.\<close>

definition script_commits :: "bytes \<Rightarrow> hash256 list" where
  "script_commits script =
     (if length script = 34 \<and> script ! 0 = 0 \<and> script ! 1 = 32 then [drop 2 script] else [])"

definition tx_commits :: "btc_tx \<Rightarrow> hash256 list" where
  "tx_commits tx = concat (map (\<lambda>out. script_commits (Out_Script out)) (Tx_Outputs tx))"

subsection \<open>Variable-length integers\<close>

lemma ucast_small [simp]:
  "v < 0x10000 \<Longrightarrow> ucast (ucast v :: u16) = v"
  "v < 0x100000000 \<Longrightarrow> ucast (ucast v :: u32) = v"
  "v < 0xfd \<Longrightarrow> ucast (ucast v :: byte) = v"
  for v :: u64
  by (simp_all add: word_unat_eq_iff word_less_nat_alt unsigned_ucast_eq unsigned_take_bit_eq take_bit_eq_mod unat_mod)

lemma varint_prefix: "v < 0xfd \<Longrightarrow> (ucast v :: byte) \<notin> {0xfd, 0xfe, 0xff}" for v :: u64
  by (auto simp: word_unat_eq_iff word_less_nat_alt unsigned_ucast_eq unsigned_take_bit_eq take_bit_eq_mod unat_mod)

lemma put_varint_length:
  "length (put_varint v) = (if v < 0xfd then 1 else if v < 0x10000 then 3 else if v < 0x100000000 then 5 else 9)"
  by (simp add: put_varint_def put_be16_def put_be32_def put_be64_def)

lemma parse_varint [simp]:
  "btc_parse_varint (put_varint v @ rest) = Some (v, of_nat (length (put_varint v)))"
  using varint_prefix [of v] unfolding put_varint_length
  by (simp add: btc_parse_varint_def put_varint_def index_def slice_from_def)


lemma put_varint_small: "length (put_varint v) \<le> 9"
  by (simp add: put_varint_length)

lemma rounds_of_length [simp]: "short xs \<Longrightarrow> rounds (of_nat (length xs)) = length xs"
  by (simp add: rounds_def signed_of_nat signed_take_bit_eq_if_positive bit_iff_odd take_bit_int_eq_self)

lemma parse_count:
  "btc_parse_varint (ser_count xs @ rest) = Some (of_nat (length xs), of_nat (length (ser_count xs)))"
  by (simp add: ser_count_def)

lemma ser_count_bound: "length (ser_count xs) \<le> 9"
  by (simp add: ser_count_def put_varint_small)

lemma unat_count [simp]:
  "unat (of_nat (length (ser_count xs)) :: byte) = length (ser_count xs)"
  using ser_count_bound [of xs] by (simp add: unat_of_nat)

lemma unat_short:
  assumes "short s" "k \<le> 4"
  shows "unat (ucast (of_nat (length (ser_count s)) :: byte) + of_nat (length s) + of_nat k :: u64)
           = length (ser_count s) + length s + k"
proof -
  have "(ucast (of_nat (length (ser_count s)) :: byte) :: u64) = of_nat (length (ser_count s))"
    using ser_count_bound [of s]
    by (simp add: word_unat_eq_iff unsigned_ucast_eq unsigned_take_bit_eq take_bit_eq_mod unat_of_nat)
  moreover have "length (ser_count s) + length s + k < 2 ^ 64"
    using assms ser_count_bound [of s] by simp
  ultimately show ?thesis
    by (simp add: unat_of_nat flip: of_nat_add)
qed

lemma skip_bytes:
  assumes "short s" "length t = k" "k \<le> 4"
  shows "slice_from (ser_bytes s @ t @ rest)
           (unat (ucast (of_nat (length (ser_count s)) :: byte) + of_nat (length s) + of_nat k :: u64)) = Some rest"
  using assms by (simp only: unat_short) (simp add: ser_bytes_def slice_from_def)

subsection \<open>Transactions\<close>

lemma parse_ser_input: "wf_input i \<Longrightarrow> parse_input (ser_input i @ rest, acc) = Some (rest, acc)"
  using skip_bytes [of "In_Script i" "In_Sequence i" 4 rest] parse_count [of "In_Script i"]
  by (simp add: parse_input_def ser_input_def wf_input_def ser_bytes_def)

lemma parse_ser_item: "short w \<Longrightarrow> parse_witness_item (ser_bytes w @ rest, acc) = Some (rest, acc)"
  using skip_bytes [of w "[]" 0 rest] parse_count [of w "w @ rest"]
  by (simp add: parse_witness_item_def ser_bytes_def)

lemma fold_same: "fold (\<lambda>x acc. acc) xs acc = acc"
  by (induction xs) simp_all

lemma parse_ser_witness:
  assumes "short ws" "list_all short ws"
  shows "parse_witness (ser_witness ws @ rest, acc) = Some (rest, acc)"
  using assms repeat_opt_consume [of ws parse_witness_item ser_bytes "\<lambda>x acc. acc" rest acc]
  by (simp add: parse_witness_def ser_witness_def parse_count parse_ser_item list_all_iff fold_same)

lemma parse_ser_output:
  assumes "wf_output out"
  shows "parse_output (ser_output out @ rest, acc) = Some (rest, acc @ script_commits (Out_Script out))"
proof -
  have skip: "unat (ucast (of_nat (length (ser_count (Out_Script out))) :: byte) :: u64)
      = length (ser_count (Out_Script out))"
    using unat_short [of "[]" 0] ser_count_bound [of "Out_Script out"]
    by (simp add: unsigned_ucast_eq unsigned_take_bit_eq take_bit_eq_mod unat_of_nat)
  have size: "unat (of_nat (length (Out_Script out)) :: u64) = length (Out_Script out)"
    "(of_nat (length (Out_Script out)) :: u64) = 34 \<longleftrightarrow> length (Out_Script out) = 34"
    using assms by (simp_all add: wf_output_def unat_of_nat word_unat_eq_iff)
  show ?thesis
    using assms size
    by (auto simp: parse_output_def ser_output_def wf_output_def ser_bytes_def parse_count skip
        script_commits_def index_def slice_def slice_from_def nth_append)
qed


lemma count_not_zero: "short xs \<Longrightarrow> xs \<noteq> [] \<Longrightarrow> (of_nat (length xs) :: u64) \<noteq> 0"
  by (simp add: word_unat_eq_iff unat_of_nat)

lemma parse_zero: "btc_parse_varint (0 # rest) = Some (0, 1)"
  by (simp add: btc_parse_varint_def index_def slice_from_def)

lemma fold_commits: "fold (\<lambda>x acc. acc @ f x) xs acc = acc @ concat (map f xs)"
  by (induction xs arbitrary: acc) simp_all

lemma repeat_inputs:
  "list_all wf_input is \<Longrightarrow>
     repeat_opt (length is) parse_input (concat (map ser_input is) @ rest, acc) = Some (rest, acc)"
  using repeat_opt_consume [of "is" parse_input ser_input "\<lambda>x acc. acc" rest acc]
  by (simp add: parse_ser_input list_all_iff fold_same)

lemma repeat_outputs:
  "list_all wf_output os \<Longrightarrow>
     repeat_opt (length os) parse_output (concat (map ser_output os) @ rest, acc)
       = Some (rest, acc @ concat (map (\<lambda>out. script_commits (Out_Script out)) os))"
  using repeat_opt_consume [of os parse_output ser_output "\<lambda>out acc. acc @ script_commits (Out_Script out)" rest acc]
  by (simp add: parse_ser_output list_all_iff fold_commits)

lemma repeat_witnesses:
  "list_all (\<lambda>ws. short ws \<and> list_all short ws) wss \<Longrightarrow>
     repeat_opt (length wss) parse_witness (concat (map ser_witness wss) @ rest, acc) = Some (rest, acc)"
  using repeat_opt_consume [of wss parse_witness ser_witness "\<lambda>x acc. acc" rest acc]
  by (simp add: parse_ser_witness list_all_iff fold_same)

lemma parse_ser_tx:
  assumes "wf_tx tx"
  shows "parse_tx (ser_tx tx @ rest, acc) = Some (rest, acc @ tx_commits tx)"
proof -
  note parts = assms [unfolded wf_tx_def]
  show ?thesis
  proof (cases "Tx_Flag tx")
    case None
    with parts show ?thesis
      by (simp add: parse_tx_def ser_tx_def parse_count count_not_zero repeat_inputs repeat_outputs tx_commits_def)
  next
    case (Some flag)
    then have "repeat_opt (length (Tx_Inputs tx)) parse_witness (concat (map ser_witness (Tx_Witnesses tx)) @ r, a)
        = Some (r, a)" for r and a :: "hash256 list"
      using parts repeat_witnesses [of "Tx_Witnesses tx" r a] by simp
    with Some parts show ?thesis
      by (simp add: parse_tx_def ser_tx_def parse_zero slice_from_def [of _ 2] parse_count repeat_inputs
          repeat_outputs tx_commits_def)
  qed
qed

lemma parse_ser_block:
  assumes "wf_raw_block b"
  shows "btc_parse_block (ser_block b @ rest) blk =
    Some (blk\<lparr>BD_Hash := rev (sha256 (sha256 (ser_header b))), BD_Previous := rev (Raw_Previous b),
              BD_Commits := BD_Commits blk @ concat (map tx_commits (Raw_Txs b))\<rparr>)"
proof -
  have "repeat_opt (length (Raw_Txs b)) parse_tx (concat (map ser_tx (Raw_Txs b)) @ rest, BD_Commits blk)
      = Some (rest, BD_Commits blk @ concat (map tx_commits (Raw_Txs b)))"
    using assms repeat_opt_consume [of "Raw_Txs b" parse_tx ser_tx "\<lambda>tx acc. acc @ tx_commits tx" rest]
    by (simp add: wf_raw_block_def parse_ser_tx list_all_iff fold_commits)
  moreover have "slice (ser_block b @ rest) 0 80 = Some (ser_header b)"
    using assms by (simp add: slice_def ser_block_def ser_header_def wf_raw_block_def)
  ultimately show ?thesis
    using assms
    by (simp add: btc_parse_block_def ser_block_def ser_header_def wf_raw_block_def parse_count swap_endian_rev
        slice_append_left)
qed

subsection \<open>Whatever the bytes are\<close>

text \<open>
  A commit comes from an output script in the bytes: at some offset there is a length of 34,
  then a zero, a push of 32 bytes, and those bytes. The parser's state at any point is the
  bytes from an offset \<open>p\<close> on and the commits of scripts that end before it, in their order and
  apart by at least a value of 8 bytes, a length and a script.
\<close>

definition script_at :: "bytes \<Rightarrow> nat \<Rightarrow> hash256 \<Rightarrow> bool" where
  "script_at data i commit \<longleftrightarrow>
     (case btc_parse_varint (drop i data) of
        Some (len, adv) \<Rightarrow> len = 34 \<and> take 34 (drop (i + unat adv) data) = [0, 32] @ commit
      | None \<Rightarrow> False)"

definition commits_at :: "bytes \<Rightarrow> nat list \<Rightarrow> hash256 list \<Rightarrow> bool" where
  "commits_at data is cs \<longleftrightarrow>
     list_all2 (script_at data) is cs \<and> list_all is32 cs \<and> sorted_wrt (\<lambda>i j. i + 43 \<le> j) is"

definition used_up :: "bytes \<Rightarrow> nat \<Rightarrow> bytes \<times> hash256 list \<Rightarrow> bool" where
  "used_up full n st \<longleftrightarrow>
     (\<exists>p is. p \<le> length full \<and> fst st = drop p full \<and> commits_at full is (snd st)
        \<and> (\<forall>i \<in> set is. i + 35 \<le> p) \<and> n + 43 * length (snd st) \<le> p)"

lemma used_up_shorter:
  assumes "slice_from data k = Some data'" "used_up full n (data, acc)"
  shows "used_up full n (data', acc)"
proof -
  obtain p "is" where p: "p \<le> length full" "data = drop p full" "commits_at full is acc"
    "\<forall>i \<in> set is. i + 35 \<le> p" "n + 43 * length acc \<le> p"
    using assms(2) by (auto simp: used_up_def)
  have "p + k \<le> length full" "data' = drop (p + k) full"
    using assms(1) p(1,2) by (auto simp: slice_from_def add.commute split: if_splits)
  moreover have "\<forall>i \<in> set is. i + 35 \<le> p + k"
    using p(4) by auto
  ultimately show ?thesis
    using p(3,5) unfolding used_up_def fst_conv snd_conv by (intro exI [of _ "p + k"] exI [of _ "is"]) simp
qed

lemma used_up_commit:
  assumes "used_up full n (data, acc)" "slice_from data 8 = Some d1" "btc_parse_varint d1 = Some (34, adv)" "1 \<le> unat adv"
    and "slice_from d1 (unat adv) = Some d2" "d2 ! 0 = 0" "d2 ! 1 = 32" "slice d2 2 34 = Some c" "slice_from d2 34 = Some d3"
  shows "used_up full n (d3, acc @ [c])"
proof -
  obtain p "is" where p: "p \<le> length full" "data = drop p full" "commits_at full is acc"
    "\<forall>i \<in> set is. i + 35 \<le> p" "n + 43 * length acc \<le> p"
    using assms(1) by (auto simp: used_up_def)
  define q where "q = p + 8 + unat adv"
  have at: "d1 = drop (p + 8) full" "d2 = drop q full" "d3 = drop (q + 34) full" "q + 34 \<le> length full"
    using assms(2,5,9) p(1,2) by (auto simp: slice_from_def q_def add.commute add.left_commute split: if_splits)
  have c: "c = take 32 (drop 2 d2)" "is32 c" "34 \<le> length d2"
    using assms(8) by (auto simp: slice_def split: if_splits)
  then have "take 34 d2 = [d2 ! 0, d2 ! 1] @ c"
    by (cases d2 rule: remdups_adj.cases) auto
  then have "script_at full (p + 8) c"
    using assms(3,6,7) at(1,2) by (simp add: script_at_def q_def)
  with p(3,4) c(2) have "commits_at full (is @ [p + 8]) (acc @ [c])"
    by (auto simp: commits_at_def sorted_wrt_append list_all2_appendI)
  with p(4,5) at(3,4) assms(4) show ?thesis
    unfolding used_up_def fst_conv snd_conv
    by (intro exI [of _ "q + 34"] exI [of _ "is @ [p + 8]"]) (auto simp: q_def)
qed

lemma parse_input_used: "parse_input st = Some st' \<Longrightarrow> used_up full n st \<Longrightarrow> used_up full n st'"
  by (cases st) (auto simp: parse_input_def used_up_shorter split: bind_splits)

lemma parse_item_used: "parse_witness_item st = Some st' \<Longrightarrow> used_up full n st \<Longrightarrow> used_up full n st'"
  by (cases st) (auto simp: parse_witness_item_def used_up_shorter split: bind_splits)

lemma parse_witness_used: "parse_witness st = Some st' \<Longrightarrow> used_up full n st \<Longrightarrow> used_up full n st'"
  by (cases st) (auto simp: parse_witness_def split: bind_splits
      elim!: repeat_opt_inv [where P = "used_up full n"] intro: used_up_shorter parse_item_used)

lemma varint_not_empty: "btc_parse_varint data = Some (v, adv) \<Longrightarrow> 1 \<le> unat adv"
  by (auto simp: btc_parse_varint_def split: bind_splits if_splits)

lemma parse_output_used:
  assumes "parse_output st = Some st'" "used_up full n st"
  shows "used_up full n st'"
proof -
  obtain data acc where st: "st = (data, acc)" by (cases st)
  from assms(1) obtain d1 size adv d2 cs d3 where run:
    "slice_from data 8 = Some d1" "btc_parse_varint d1 = Some (size, adv)"
    "slice_from d1 (unat (ucast adv :: u64)) = Some d2" "slice_from d2 (unat size) = Some d3"
    "st' = (d3, cs)" "cs = acc \<or> size = 34 \<and> d2 ! 0 = 0 \<and> d2 ! 1 = 32 \<and> (\<exists>c. slice d2 2 34 = Some c \<and> cs = acc @ [c])"
    by (auto simp: parse_output_def index_def st split: bind_splits if_splits)
  have "unat (ucast adv :: u64) = unat adv"
    using unsigned_less [of adv, where ?'a = nat]
    by (simp add: unsigned_ucast_eq unsigned_take_bit_eq take_bit_eq_mod)
  then have d2: "slice_from d1 (unat adv) = Some d2"
    using run(3) by simp
  have "used_up full n (d3, acc)"
    using assms(2) run(1,4) d2 used_up_shorter unfolding st by metis
  with run assms(2) d2 varint_not_empty [OF run(2)] show ?thesis
    unfolding st by (auto intro: used_up_commit)
qed

lemma parse_tx_used:
  assumes "parse_tx st = Some st'" "used_up full n st"
  shows "used_up full n st'"
proof -
  obtain data acc where st: "st = (data, acc)" by (cases st)
  from assms(1) obtain d1 d2 k1 d3 ins d4 cs4 k2 d5 outs d6 cs6 d7 cs7 d8 segwit where run:
    "slice_from data 4 = Some d1" "d2 = d1 \<or> slice_from d1 2 = Some d2" "slice_from d2 k1 = Some d3"
    "repeat_opt ins parse_input (d3, acc) = Some (d4, cs4)" "slice_from d4 k2 = Some d5"
    "repeat_opt outs parse_output (d5, cs4) = Some (d6, cs6)"
    "(if segwit then repeat_opt ins parse_witness (d6, cs6) else Some (d6, cs6)) = Some (d7, cs7)"
    "slice_from d7 4 = Some d8" "st' = (d8, cs7)"
    by (fastforce simp: parse_tx_def st split: bind_splits if_splits)
  have "used_up full n (d3, acc)"
    using run(1-3) assms(2) used_up_shorter unfolding st by metis
  then have "used_up full n (d4, cs4)"
    using run(4) by (elim repeat_opt_inv [where P = "used_up full n"]) (auto intro: parse_input_used)
  then have "used_up full n (d6, cs6)"
    using run(5,6) by (elim repeat_opt_inv [where P = "used_up full n"]) (auto intro: parse_output_used used_up_shorter)
  then have "used_up full n (d7, cs7)"
    using run(7) by (cases segwit) (auto elim: repeat_opt_inv [where P = "used_up full n"] intro: parse_witness_used)
  with run(8,9) show ?thesis by (auto intro: used_up_shorter)
qed

lemma parsed_block:
  assumes "btc_parse_block data zero_block_data = Some b"
  shows "BD_Hash b = rev (sha256 (sha256 (take 80 data)))" "BD_Previous b = rev (take 32 (drop 4 data))"
    "\<exists>is. commits_at data is (BD_Commits b)" "81 + 43 * length (BD_Commits b) \<le> length data"
proof -
  from assms obtain header d1 previous d2 d3 count adv d4 d5 cs where run:
    "slice data 0 80 = Some header" "slice_from data 4 = Some d1" "slice d1 0 32 = Some previous"
    "slice_from d1 32 = Some d2" "slice_from d2 44 = Some d3" "btc_parse_varint d3 = Some (count, adv)"
    "slice_from d3 (unat adv) = Some d4" "repeat_opt (rounds count) parse_tx (d4, []) = Some (d5, cs)"
    "b = \<lparr>BD_Hash = rev (sha256 (sha256 header)), BD_Previous = rev previous, BD_Commits = cs\<rparr>"
    by (auto simp: btc_parse_block_def Let_def zero_block_data_def swap_endian_rev split: bind_splits)
  have "80 + unat adv \<le> length data" "d4 = drop (80 + unat adv) data"
    using run(2,4,5,7) by (auto simp: slice_from_def add.commute split: if_splits)
  moreover have "commits_at data [] []"
    by (simp add: commits_at_def)
  ultimately have "used_up data 81 (d4, [])"
    using varint_not_empty [OF run(6)] unfolding used_up_def fst_conv snd_conv
    by (intro exI [of _ "80 + unat adv"] exI [of _ "[]"]) simp
  with run(8) have "used_up data 81 (d5, cs)"
    by (rule repeat_opt_inv) (auto intro: parse_tx_used)
  moreover have "header = take 80 data" "previous = take 32 (drop 4 data)"
    using run(1-3) by (auto simp: slice_def slice_from_def split: if_splits)
  ultimately show "BD_Hash b = rev (sha256 (sha256 (take 80 data)))" "BD_Previous b = rev (take 32 (drop 4 data))"
    "\<exists>is. commits_at data is (BD_Commits b)" "81 + 43 * length (BD_Commits b) \<le> length data"
    using run(9) by (auto simp: used_up_def)
qed

subsection \<open>The properties of the parser\<close>

text \<open>
  C12. Round trip with Bitcoin's block format: from a serialised block, whatever bytes follow it,
  the parser returns the double SHA-256 of the header and the parent hash, both in reversed
  byte order, and the 32-byte witness programs of the P2WSH outputs of all transactions, with
  or without witness data, in their order.
\<close>

theorem block_round_trip:
  assumes "wf_raw_block b"
  shows "btc_parse_block (ser_block b @ rest) zero_block_data =
    Some \<lparr>BD_Hash = rev (sha256 (sha256 (ser_header b))), BD_Previous = rev (Raw_Previous b),
          BD_Commits = concat (map tx_commits (Raw_Txs b))\<rparr>"
  using parse_ser_block [OF assms] by (simp add: zero_block_data_def)

definition sample_raw_block :: btc_block where
  "sample_raw_block =
     \<lparr>Raw_Version = replicate 4 1, Raw_Previous = replicate 32 7, Raw_Fields = replicate 44 5,
      Raw_Txs =
        [\<lparr>Tx_Version = replicate 4 2, Tx_Flag = Some 1,
          Tx_Inputs = [\<lparr>In_Outpoint = replicate 36 3, In_Script = [], In_Sequence = replicate 4 0\<rparr>],
          Tx_Outputs = [\<lparr>Out_Value = replicate 8 1, Out_Script = 0 # 32 # replicate 32 9\<rparr>,
                        \<lparr>Out_Value = replicate 8 2, Out_Script = [118, 169]\<rparr>],
          Tx_Witnesses = [[[1, 2], []]], Tx_Locktime = replicate 4 0\<rparr>]\<rparr>"

lemma sample_raw_block_wf: "wf_raw_block sample_raw_block"
  by (simp add: wf_raw_block_def sample_raw_block_def wf_tx_def wf_input_def wf_output_def)

theorem block_round_trip_witness:
  "btc_parse_block (ser_block sample_raw_block @ [1, 2, 3]) zero_block_data =
    Some \<lparr>BD_Hash = rev (sha256 (sha256 (ser_header sample_raw_block))), BD_Previous = replicate 32 7,
          BD_Commits = [replicate 32 9]\<rparr>"
proof -
  have "concat (map tx_commits (Raw_Txs sample_raw_block)) = [replicate 32 9]"
    by (simp add: sample_raw_block_def tx_commits_def script_commits_def)
  then show ?thesis
    using block_round_trip [OF sample_raw_block_wf, of "[1, 2, 3]"]
    by (simp add: sample_raw_block_def)
qed

text \<open>
  C28. On any bytes: all that the parser returns is read from them. When it returns at all, the
  bytes start with a full 80-byte header, whose double hash and parent the block has; and there
  are offsets, one per commit and in their order, at which the bytes hold a length of 34, a zero,
  a push of 32 bytes and then the commit, each at least 43 bytes after the one before. So there
  are no more commits than the bytes have room for, and bytes that are too short panic instead of
  giving a partial block.
\<close>

theorem parsed_block_sound:
  assumes "btc_parse_block data zero_block_data = Some b"
  shows "BD_Hash b = rev (sha256 (sha256 (take 80 data))) \<and> BD_Previous b = rev (take 32 (drop 4 data))
    \<and> (\<exists>is. list_all2 (script_at data) is (BD_Commits b) \<and> sorted_wrt (\<lambda>i j. i + 43 \<le> j) is)
    \<and> list_all is32 (BD_Commits b) \<and> 81 + 43 * length (BD_Commits b) \<le> length data"
  using parsed_block [OF assms] by (auto simp: commits_at_def)

theorem parsed_block_sound_witness:
  "\<exists>is. btc_parse_block (ser_block sample_raw_block) zero_block_data = Some
      \<lparr>BD_Hash = rev (sha256 (sha256 (ser_header sample_raw_block))), BD_Previous = replicate 32 7,
       BD_Commits = [replicate 32 9]\<rparr>
    \<and> list_all2 (script_at (ser_block sample_raw_block)) is [replicate 32 9]"
proof -
  have "concat (map tx_commits (Raw_Txs sample_raw_block)) = [replicate 32 9]" "Raw_Previous sample_raw_block = replicate 32 7"
    by (simp_all add: sample_raw_block_def tx_commits_def script_commits_def)
  then have b: "btc_parse_block (ser_block sample_raw_block) zero_block_data = Some
      \<lparr>BD_Hash = rev (sha256 (sha256 (ser_header sample_raw_block))), BD_Previous = replicate 32 7,
       BD_Commits = [replicate 32 9]\<rparr>"
    using parse_ser_block [OF sample_raw_block_wf, of "[]"] by (simp add: zero_block_data_def)
  from parsed_block_sound [OF b] b show ?thesis by auto
qed

end
