(* ===== verification/Tracing.thy ===== *)
theory Tracing
  imports Btc_Sync Node_Correct Btc_Correct
begin

section \<open>Tracing a branch back and delivering it\<close>

text \<open>
  Both sources of blocks, the REST interface and the block files, walk from the target to a
  block the node knows and deliver the blocks on the way, oldest first. The locale \<open>tracer\<close>
  is what they share: a relation \<open>parent\<close> that says what the source reports as the parent of a
  hash, and a function that finds the path. The lemmas after it turn the delivered data into a
  run of \<open>chain_step\<close>, so that the miner's theorems apply.
\<close>

subsection \<open>Linked data\<close>

fun linked_data :: "hash256 \<Rightarrow> BlockData list \<Rightarrow> bool" where
  "linked_data prev [] = True"
| "linked_data prev (d # ds) = (BD_Previous d = prev \<and> linked_data (BD_Hash d) ds)"

fun data_blocks :: "u64 \<Rightarrow> BlockData list \<Rightarrow> Block list" where
  "data_blocks h [] = []"
| "data_blocks h (d # ds) = neominer_block d (h + 1) # data_blocks (h + 1) ds"

text \<open>A walk from a hash down to a known one, newest hash first.\<close>

fun walk :: "(hash256 \<Rightarrow> hash256 \<Rightarrow> bool) \<Rightarrow> (hash256 \<rightharpoonup> hash256) \<Rightarrow> hash256 \<Rightarrow> hash256 list \<Rightarrow> bool" where
  "walk parent history hash [] = (history hash \<noteq> None)"
| "walk parent history hash (x # xs) =
     (x = hash \<and> history hash = None \<and> (\<exists>p. parent hash p \<and> walk parent history p xs))"

definition data_top :: "hash256 \<Rightarrow> BlockData list \<Rightarrow> hash256" where
  "data_top prev ds = (if ds = [] then prev else BD_Hash (last ds))"

lemma linked_data_append:
  "linked_data prev (ds @ es) \<longleftrightarrow> linked_data prev ds \<and> linked_data (data_top prev ds) es"
  by (induction ds arbitrary: prev) (auto simp: data_top_def)

lemma data_walk:
  assumes "linked_data prev ds" "history prev \<noteq> None"
    and "\<And>d. d \<in> set ds \<Longrightarrow> parent (BD_Hash d) (BD_Previous d) \<and> history (BD_Hash d) = None"
  shows "walk parent history (data_top prev ds) (rev (map BD_Hash ds))"
  using assms
proof (induction ds rule: rev_induct)
  case (snoc d ds)
  then have "BD_Previous d = data_top prev ds"
    by (simp add: linked_data_append)
  moreover have "parent (BD_Hash d) (BD_Previous d)" "history (BD_Hash d) = None"
    using snoc.prems(3) [of d] by simp_all
  moreover have "walk parent history (data_top prev ds) (rev (map BD_Hash ds))"
    using snoc by (simp add: linked_data_append)
  ultimately show ?case
    by (auto simp: data_top_def [of prev "ds @ [d]"])
qed (simp add: data_top_def)

locale tracer =
  fixes parent :: "hash256 \<Rightarrow> hash256 \<Rightarrow> bool"
    and finds :: "(hash256 \<rightharpoonup> hash256) \<Rightarrow> hash256 \<Rightarrow> hash256 list \<Rightarrow> bool"
  assumes finds_walk:
    "walk parent history target xs \<Longrightarrow> xs \<noteq> [] \<Longrightarrow> finds history target (rev xs)"
begin

text \<open>A branch the source knows, on top of a known block, is found whole.\<close>

lemma finds_data:
  assumes "linked_data prev ds" "ds \<noteq> []" "history prev \<noteq> None"
    and "\<And>d. d \<in> set ds \<Longrightarrow> parent (BD_Hash d) (BD_Previous d) \<and> history (BD_Hash d) = None"
  shows "finds history (BD_Hash (last ds)) (map BD_Hash ds)"
proof -
  have "walk parent history (BD_Hash (last ds)) (rev (map BD_Hash ds))"
    using data_walk [OF assms(1,3,4)] assms(2) by (simp add: data_top_def)
  from finds_walk [OF this] assms(2) show ?thesis by simp
qed

end

subsection \<open>The status line\<close>

text \<open>The range functions change nothing in the node but its status.\<close>

definition only_status :: "('d, 'l) node \<Rightarrow> ('d, 'l) node \<Rightarrow> bool" where
  "only_status s s' \<longleftrightarrow> (\<exists>status. s' = s\<lparr>COMB_Status := status\<rparr>)"

lemma only_status_refl [simp]: "only_status s s"
  by (auto simp: only_status_def intro: exI [of _ "COMB_Status s"])

lemma only_status_trans: "only_status s t \<Longrightarrow> only_status t u \<Longrightarrow> only_status s u"
  by (auto simp: only_status_def)

lemma only_status_set [simp]: "only_status s (combcore_set_status status s)"
proof (cases "COMB_StatusLock s")
  case False
  then show ?thesis by (auto simp: combcore_set_status_def only_status_def)
qed (simp add: combcore_set_status_def)

lemma only_status_inv:
  "only_status s s' \<Longrightarrow> node_inv L C loaded cp h bs s \<Longrightarrow> node_inv L C loaded cp h bs s'"
  by (auto simp: only_status_def node_inv_def in_memory_def on_disk_def)

subsection \<open>REST\<close>

definition rest_reports :: "btc_world \<Rightarrow> string \<Rightarrow> hash256 \<Rightarrow> hash256 \<Rightarrow> bool" where
  "rest_reports W url hash p \<longleftrightarrow> (\<forall>headers. \<exists>headers'. rest_parent W url hash headers = Inr (p, headers'))"

lemma rest_loop_walk:
  "walk (rest_reports W url) history hash xs \<Longrightarrow>
     \<exists>s'. rest_trace_loop W url history len hash chain headers s = Some (Inr (chain @ xs), s') \<and> only_status s s'"
proof (induction xs arbitrary: hash chain headers s)
  case Nil
  then show ?case by (simp add: rest_trace_loop.simps)
next
  case (Cons x xs)
  then obtain p where p: "rest_reports W url hash p" "walk (rest_reports W url) history p xs"
    and new: "x = hash" "history hash = None" by auto
  obtain headers' where h: "rest_parent W url hash headers = Inr (p, headers')"
    using p(1) by (auto simp: rest_reports_def)
  obtain s' where "rest_trace_loop W url history len p (chain @ [hash]) headers'
       (combcore_set_status (progress_status ''Tracing'' (fmt_percent W (length (chain @ [hash])) len)) s)
     = Some (Inr ((chain @ [hash]) @ xs), s')"
    "only_status (combcore_set_status (progress_status ''Tracing'' (fmt_percent W (length (chain @ [hash])) len)) s) s'"
    using Cons.IH [OF p(2)] by blast
  with new h show ?case
    by (subst rest_trace_loop.simps) (auto intro: only_status_trans [OF only_status_set])
qed

definition rest_finds ::
  "btc_world \<Rightarrow> string \<Rightarrow> u64 \<Rightarrow> ('d, 'l) node \<Rightarrow> (hash256 \<rightharpoonup> hash256) \<Rightarrow> hash256 \<Rightarrow> hash256 list \<Rightarrow> bool" where
  "rest_finds W url len s history target chain \<longleftrightarrow>
     (\<exists>s'. rest_trace_chain W url target history len s = Some (Inr chain, s') \<and> only_status s s')"

interpretation rest: tracer "rest_reports W url" "rest_finds W url len s" for W url len s
proof
  fix history target xs
  assume w: "walk (rest_reports W url) history target xs" "xs \<noteq> []"
  then have "history target = None" by (cases xs) auto
  with rest_loop_walk [OF w(1), of len "[]" "[]" s] show "rest_finds W url len s history target (rev xs)"
    by (auto simp: rest_finds_def rest_trace_chain_def)
qed

lemma rest_send:
  assumes "\<And>d. d \<in> set ds \<Longrightarrow> rest_get_block W url (BD_Hash d) = Inr (Inr d)"
  shows "\<exists>s'. rest_send_blocks W url len i (map BD_Hash ds) s = (ds, Inr None, s') \<and> only_status s s'"
  using assms
proof (induction ds arbitrary: i s)
  case (Cons d ds)
  obtain s' where "rest_send_blocks W url len (i + 1) (map BD_Hash ds)
      (combcore_set_status (progress_status ''Mining'' (fmt_percent W i len)) s) = (ds, Inr None, s')"
    "only_status (combcore_set_status (progress_status ''Mining'' (fmt_percent W i len)) s) s'"
    using Cons.IH Cons.prems by (metis list.set_intros(2))
  with Cons.prems show ?case
    by (auto intro: only_status_trans [OF only_status_set])
qed simp

lemma rest_range_data:
  assumes "linked_data prev ds" "ds \<noteq> []" "history prev \<noteq> None"
    and "\<And>d. d \<in> set ds \<Longrightarrow> rest_reports W url (BD_Hash d) (BD_Previous d)
           \<and> history (BD_Hash d) = None \<and> rest_get_block W url (BD_Hash d) = Inr (Inr d)"
  shows "\<exists>s'. rest_get_block_range W url (BD_Hash (last ds)) history len s = (ds, Inr None, s') \<and> only_status s s'"
proof -
  obtain t where t: "rest_trace_chain W url (BD_Hash (last ds)) history len s = Some (Inr (map BD_Hash ds), t)"
    "only_status s t"
    using rest.finds_data [where history = history, OF assms(1,2,3), of W url len s] assms(4)
    by (auto simp: rest_finds_def)
  obtain u where "rest_send_blocks W url len 0 (map BD_Hash ds) t = (ds, Inr None, u)" "only_status t u"
    using rest_send [of ds W url len 0 t] assms(4) by auto
  with t show ?thesis
    by (auto simp: rest_get_block_range_def intro: only_status_trans)
qed

subsection \<open>Block files\<close>

definition direct_reports :: "raw_data \<Rightarrow> hash256 \<Rightarrow> hash256 \<Rightarrow> bool" where
  "direct_reports bs hash p \<longleftrightarrow> (case bs hash of None \<Rightarrow> False | Some b \<Rightarrow> BD_Previous b = p)"

lemma direct_loop_walk:
  "walk (direct_reports bs) history hash xs \<Longrightarrow> xs \<noteq> [] \<Longrightarrow>
     \<exists>p. direct_trace_loop bs history hash chain = Some (chain @ xs, p) \<and> history p \<noteq> None"
proof (induction xs arbitrary: hash chain)
  case (Cons x xs)
  then obtain p where p: "x = hash" "direct_reports bs hash p" "walk (direct_reports bs) history p xs"
    by auto
  then obtain b where b: "bs hash = Some b" "x = hash" "walk (direct_reports bs) history (BD_Previous b) xs"
    unfolding direct_reports_def by (cases "bs hash") simp_all
  show ?case
  proof (cases "xs = []")
    case True
    with b show ?thesis by (simp add: direct_trace_loop.simps [of bs history hash])
  next
    case False
    then have "history (BD_Previous b) = None"
      using b(3) by (cases xs) auto
    with b(1,2) Cons.IH [OF b(3) False, of "chain @ [hash]"] show ?thesis
      by (simp add: direct_trace_loop.simps [of bs history hash])
  qed
qed simp

definition direct_finds ::
  "btc_world \<Rightarrow> raw_data \<Rightarrow> u64 \<Rightarrow> ('d, 'l) node \<Rightarrow> (hash256 \<rightharpoonup> hash256) \<Rightarrow> hash256 \<Rightarrow> hash256 list \<Rightarrow> bool" where
  "direct_finds W bs len s history target chain \<longleftrightarrow>
     (\<exists>s'. direct_trace_chain W bs target history len s = Some (chain, s') \<and> only_status s s')"

interpretation direct: tracer "direct_reports bs" "direct_finds W bs len s" for W bs len s
proof
  fix history target xs
  assume "walk (direct_reports bs) history target xs" "xs \<noteq> []"
  from direct_loop_walk [OF this, of "[]"] show "direct_finds W bs len s history target (rev xs)"
    by (auto simp: direct_finds_def direct_trace_chain_def Let_def)
qed

lemma direct_send:
  "(\<And>d. d \<in> set ds \<Longrightarrow> bs (BD_Hash d) = Some d) \<Longrightarrow> direct_send_blocks bs (map BD_Hash ds) = (ds, Inr None)"
  by (induction ds) auto

text \<open>A file: the magic number, the length and the raw bytes of each block, then a tail.\<close>

definition frame :: "u32 \<Rightarrow> bytes \<Rightarrow> bytes" where
  "frame magic raw = rev (put_be32 magic) @ rev (put_be32 (of_nat (length raw))) @ raw"

definition block_file :: "u32 \<Rightarrow> bytes list \<Rightarrow> bytes \<Rightarrow> bytes" where
  "block_file magic raws end_bytes = concat (map (frame magic) raws) @ end_bytes"

text \<open>Where the loop stops: at the end of the file, or at four bytes that are not the magic number.\<close>

definition file_end :: "u32 \<Rightarrow> bytes \<Rightarrow> bool" where
  "file_end magic end_bytes \<longleftrightarrow> end_bytes = [] \<or> 4 \<le> length end_bytes \<and> get_le32 end_bytes \<noteq> Some magic"

definition add_block :: "BlockData \<Rightarrow> raw_data \<Rightarrow> raw_data" where
  "add_block d bs = bs(BD_Hash d \<mapsto> d)"

lemma parse_file_end:
  assumes "file_end magic e"
  shows "direct_parse_loop magic (pre @ e @ r) (length pre + length e) (length pre) bs = Some bs"
proof (cases "e = []")
  case False
  then have "slice (pre @ e @ r) (length pre) (length pre + 4) = slice e 0 4"
    using assms by (simp add: slice_def file_end_def)
  moreover have "slice e 0 4 = Some (take 4 e)"
    using assms False by (simp add: slice_def file_end_def)
  moreover have "get_le32 (take 4 e) = get_le32 e" "get_le32 e \<noteq> None"
    using assms False by (auto simp: get_le32_def slice_def file_end_def)
  ultimately show ?thesis
    using assms False by (subst direct_parse_loop.simps) (auto simp: file_end_def)
qed (simp add: direct_parse_loop.simps)

text \<open>One frame.\<close>

lemma parse_frame:
  assumes "btc_parse_block raw zero_block_data = Some d" "length raw < 2 ^ 32"
    and "length pre < len"
  shows "direct_parse_loop magic (pre @ frame magic raw @ r) len (length pre) bs =
    direct_parse_loop magic (pre @ frame magic raw @ r) len (length (pre @ frame magic raw)) (add_block d bs)"
proof -
  have size: "unat (of_nat (length raw) :: u32) = length raw"
    using assms(2) by (simp add: unat_of_nat)
  have "Option.bind (slice (pre @ frame magic raw @ r) (length pre) (length pre + 4)) get_le32 = Some magic"
    "Option.bind (slice (pre @ frame magic raw @ r) (length pre + 4) (length pre + 8)) get_le32
       = Some (of_nat (length raw))"
    "slice (pre @ frame magic raw @ r) (length pre + 8) (length pre + 8 + length raw) = Some raw"
    using get_le_rev(2) [of magic "[]"] get_le_rev(2) [of "of_nat (length raw)" "[]"]
    by (simp_all add: frame_def slice_def)
  with assms size show ?thesis
    by (subst direct_parse_loop.simps) (simp add: add_block_def frame_def add.assoc)
qed

lemma parse_frames:
  assumes "\<And>raw d. (raw, d) \<in> set xs \<Longrightarrow> btc_parse_block raw zero_block_data = Some d \<and> length raw < 2 ^ 32"
    and "file_end magic e"
  shows "direct_parse_loop magic (pre @ block_file magic (map fst xs) e @ r)
           (length (pre @ block_file magic (map fst xs) e)) (length pre) bs
         = Some (fold (add_block \<circ> snd) xs bs)"
  using assms(1)
proof (induction xs arbitrary: pre bs)
  case Nil
  then show ?case
    using parse_file_end [OF assms(2), of pre r bs] by (simp add: block_file_def)
next
  case (Cons x xs)
  obtain raw d where x: "x = (raw, d)" by (cases x)
  have raw: "btc_parse_block raw zero_block_data = Some d" "length raw < 2 ^ 32"
    using Cons.prems [of raw d] by (simp_all add: x)
  have frame_len: "0 < length (frame magic raw)"
    by (simp add: frame_def)
  have "direct_parse_loop magic (pre @ block_file magic (map fst (x # xs)) e @ r)
      (length (pre @ block_file magic (map fst (x # xs)) e)) (length pre) bs
    = direct_parse_loop magic ((pre @ frame magic raw) @ block_file magic (map fst xs) e @ r)
      (length ((pre @ frame magic raw) @ block_file magic (map fst xs) e)) (length (pre @ frame magic raw))
      (add_block d bs)"
    using parse_frame [OF raw, of pre _ magic "block_file magic (map fst xs) e @ r" bs] frame_len
    by (simp add: block_file_def x)
  also have "\<dots> = Some (fold (add_block \<circ> snd) xs (add_block d bs))"
    by (rule Cons.IH) (rule Cons.prems, simp)
  finally show ?case by (simp add: x comp_def)
qed

lemma fold_add_block:
  "(\<exists>d \<in> set (map snd xs). BD_Hash d = h \<and> fold (add_block \<circ> snd) xs bs h = Some d)
   \<or> (\<forall>d \<in> set (map snd xs). BD_Hash d \<noteq> h) \<and> fold (add_block \<circ> snd) xs bs h = bs h"
proof (induction xs arbitrary: bs)
  case (Cons x xs)
  from Cons [of "add_block (snd x) bs"] show ?case
    by (auto simp: add_block_def)
qed simp

text \<open>
  A branch may be spread over several files. Until all of it is loaded the trace ends at a hash the
  node does not know, and the next older file is read.
\<close>

definition part_of :: "BlockData list \<Rightarrow> raw_data \<Rightarrow> bool" where
  "part_of ds bs \<longleftrightarrow> (\<forall>d \<in> set ds. bs (BD_Hash d) = None \<or> bs (BD_Hash d) = Some d)"

definition all_of :: "BlockData list \<Rightarrow> raw_data \<Rightarrow> bool" where
  "all_of ds bs \<longleftrightarrow> (\<forall>d \<in> set ds. bs (BD_Hash d) = Some d)"

lemma trace_incomplete:
  assumes "linked_data prev ds" "part_of ds bs" "\<not> all_of ds bs" "\<And>d. d \<in> set ds \<Longrightarrow> history (BD_Hash d) = None"
  shows "\<exists>chain' p. direct_trace_loop bs history (data_top prev ds) chain = Some (chain', p) \<and> history p = None"
  using assms
proof (induction ds arbitrary: chain rule: rev_induct)
  case (snoc d ds)
  have top: "data_top prev (ds @ [d]) = BD_Hash d" and unknown: "history (BD_Hash d) = None"
    using snoc.prems(4) by (simp_all add: data_top_def)
  show ?case
  proof (cases "bs (BD_Hash d)")
    case None
    then show ?thesis
      using unknown by (simp add: top direct_trace_loop.simps [of bs history "BD_Hash d"])
  next
    case (Some b)
    then have b: "bs (BD_Hash d) = Some d" and rest: "\<not> all_of ds bs" "part_of ds bs"
      using snoc.prems(2,3) by (auto simp: part_of_def all_of_def)
    then have "ds \<noteq> []" by (auto simp: all_of_def)
    moreover have prev: "BD_Previous d = data_top prev ds" and linked: "linked_data prev ds"
      using snoc.prems(1) by (simp_all add: linked_data_append)
    ultimately have "history (BD_Previous d) = None"
      using snoc.prems(4) by (simp add: data_top_def)
    then show ?thesis
      using snoc.IH [where chain = "chain @ [BD_Hash d]", OF linked rest(2,1)] snoc.prems(4) b prev
      by (simp add: top direct_trace_loop.simps [of bs history "BD_Hash d"])
  qed
qed (simp add: all_of_def)

text \<open>A file of the branch: frames of blocks and a tail, small enough for the buffer.\<close>

definition holds_blocks :: "btc_world \<Rightarrow> u32 \<Rightarrow> string \<Rightarrow> (bytes \<times> BlockData) list \<Rightarrow> bytes \<Rightarrow> bool" where
  "holds_blocks W magic file xs e \<longleftrightarrow>
     fs_read W file = Some (block_file magic (map fst xs) e) \<and> file_end magic e
     \<and> length (block_file magic (map fst xs) e) \<le> 128 * 1024 * 1024
     \<and> (\<forall>(raw, d) \<in> set xs. btc_parse_block raw zero_block_data = Some d \<and> length raw < 2 ^ 32)"

lemma parse_holds:
  assumes "holds_blocks W magic file xs e" "length buf = 128 * 1024 * 1024"
  shows "\<exists>buf'. direct_parse_block_file W magic buf bs file = Some (buf', fold (add_block \<circ> snd) xs bs)
    \<and> length buf' = 128 * 1024 * 1024"
proof -
  define contents where "contents = block_file magic (map fst xs) e"
  have "direct_parse_loop magic (contents @ drop (length contents) buf) (length contents) 0 bs
      = Some (fold (add_block \<circ> snd) xs bs)"
    using parse_frames [of xs magic e "[]" "drop (length contents) buf" bs] assms(1)
    by (auto simp: holds_blocks_def contents_def)
  then show ?thesis
    using assms by (simp add: direct_parse_block_file_def holds_blocks_def Let_def flip: contents_def)
qed

lemma load_spread:
  assumes data: "linked_data prev ds" "ds \<noteq> []" "history prev \<noteq> None" "\<And>d. d \<in> set ds \<Longrightarrow> history (BD_Hash d) = None"
    and files: "\<And>f. f \<in> set fs \<Longrightarrow> holds_blocks W (COMB_Magic s) f (xs f) (e f)"
    and same: "\<And>f d d'. f \<in> set fs \<Longrightarrow> d \<in> set (map snd (xs f)) \<Longrightarrow> d' \<in> set ds \<Longrightarrow> BD_Hash d = BD_Hash d' \<Longrightarrow> d = d'"
    and all: "\<And>d. d \<in> set ds \<Longrightarrow> bs (BD_Hash d) = Some d \<or> (\<exists>f \<in> set fs. d \<in> set (map snd (xs f)))"
    and part: "part_of ds bs" "\<not> all_of ds bs" and buf: "length buf = 128 * 1024 * 1024"
  shows "\<exists>bs' s'. direct_load_files W (BD_Hash (last ds)) history len (fs @ older) buf bs s = Inr (bs', map BD_Hash ds, s')
    \<and> all_of ds bs' \<and> only_status s s'"
  using files same all part buf
proof (induction fs arbitrary: bs buf s)
  case Nil
  then show ?case by (auto simp: all_of_def)
next
  case (Cons f fs)
  define bs1 where "bs1 = fold (add_block \<circ> snd) (xs f) bs"
  obtain buf1 where parse: "direct_parse_block_file W (COMB_Magic s) buf bs f = Some (buf1, bs1)"
    "length buf1 = 128 * 1024 * 1024"
    using parse_holds [OF Cons.prems(1) [of f] Cons.prems(6), of bs] by (auto simp: bs1_def)
  have loaded: "bs1 (BD_Hash d) = Some d \<or> bs1 (BD_Hash d) = bs (BD_Hash d) \<and> d \<notin> set (map snd (xs f))"
    if "d \<in> set ds" for d
    using fold_add_block [of "xs f" "BD_Hash d" bs] Cons.prems(2) [of f _ d] that by (fastforce simp: bs1_def)
  have part1: "part_of ds bs1"
    using loaded Cons.prems(4) by (fastforce simp: part_of_def)
  show ?case
  proof (cases "all_of ds bs1")
    case True
    then obtain t where "direct_trace_chain W bs1 (BD_Hash (last ds)) history len s = Some (map BD_Hash ds, t)"
      "only_status s t"
      using direct.finds_data [where history = history, OF data(1-3), of bs1 W len s] data(4)
      by (auto simp: direct_finds_def direct_reports_def all_of_def)
    with True parse(1) data(2) show ?thesis by simp
  next
    case False
    define t where "t = combcore_set_status (progress_status ''Mining'' (fmt_percent W
      (length (fst (the (direct_trace_loop bs1 history (BD_Hash (last ds)) [])))) len)) s"
    have "data_top prev ds = BD_Hash (last ds)"
      using data(2) by (simp add: data_top_def)
    with trace_incomplete [where history = history and chain = "[]", OF data(1) part1 False data(4)]
    have trace: "direct_trace_chain W bs1 (BD_Hash (last ds)) history len s = Some ([], t)"
      by (auto simp: direct_trace_chain_def t_def Let_def)
    have status: "only_status s t" by (simp add: t_def)
    then have magic: "COMB_Magic t = COMB_Magic s"
      by (auto simp: only_status_def)
    have "\<exists>bs' s'. direct_load_files W (BD_Hash (last ds)) history len (fs @ older) buf1 bs1 t
        = Inr (bs', map BD_Hash ds, s') \<and> all_of ds bs' \<and> only_status t s'"
    proof (rule Cons.IH [OF _ _ _ part1 False parse(2)])
      fix g d d' assume "g \<in> set fs" "d \<in> set (map snd (xs g))" "d' \<in> set ds" "BD_Hash d = BD_Hash d'"
      then show "d = d'" using Cons.prems(2) [of g d d'] by simp
    next
      fix d assume "d \<in> set ds"
      from loaded [OF this] Cons.prems(3) [OF this]
      show "bs1 (BD_Hash d) = Some d \<or> (\<exists>f \<in> set fs. d \<in> set (map snd (xs f)))" by auto
    qed (use Cons.prems(1) magic in simp)
    with parse(1) trace status show ?thesis
      by (auto intro: only_status_trans)
  qed
qed

lemma direct_range_data:
  assumes glob: "fs_glob W (path @ ''/blocks/blk*.dat'') = Inr (older @ files)"
    and files: "\<And>f. f \<in> set files \<Longrightarrow> holds_blocks W (COMB_Magic s) f (xs f) (e f)"
    and same: "\<And>f d d'. f \<in> set files \<Longrightarrow> d \<in> set (map snd (xs f)) \<Longrightarrow> d' \<in> set ds \<Longrightarrow> BD_Hash d = BD_Hash d' \<Longrightarrow> d = d'"
    and all: "\<And>d. d \<in> set ds \<Longrightarrow> \<exists>f \<in> set files. d \<in> set (map snd (xs f))"
    and data: "linked_data prev ds" "ds \<noteq> []" "history prev \<noteq> None" "\<And>d. d \<in> set ds \<Longrightarrow> history (BD_Hash d) = None"
  shows "\<exists>s'. direct_get_block_range W path (BD_Hash (last ds)) history len s = (ds, Inr None, s') \<and> only_status s s'"
proof -
  have "\<exists>bs s'. direct_load_files W (BD_Hash (last ds)) history len (rev files @ rev older) block_buffer Map.empty s
      = Inr (bs, map BD_Hash ds, s') \<and> all_of ds bs \<and> only_status s s'"
  proof (rule load_spread [where xs = xs and e = e, OF data])
    fix f d d' assume "f \<in> set (rev files)" "d \<in> set (map snd (xs f))" "d' \<in> set ds" "BD_Hash d = BD_Hash d'"
    then show "d = d'" using same [of f d d'] by simp
  qed (use files all data(2) in \<open>simp_all add: part_of_def all_of_def block_buffer_def\<close>)
  then obtain bs s' where load: "direct_load_files W (BD_Hash (last ds)) history len (rev files @ rev older) block_buffer Map.empty s
      = Inr (bs, map BD_Hash ds, s')" "all_of ds bs" "only_status s s'"
    by blast
  have "direct_load_trace W path (BD_Hash (last ds)) history len s = Inr (Inr (bs, map BD_Hash ds, s'))"
    using glob load(1) by (simp add: direct_load_trace_def)
  moreover have "direct_send_blocks bs (map BD_Hash ds) = (ds, Inr None)"
    using load(2) by (intro direct_send) (simp add: all_of_def)
  ultimately show ?thesis
    using load(3) by (auto simp: direct_get_block_range_def intro: only_status_trans)
qed

end
