(* ===== verification/Node_Limits.thy ===== *)
theory Node_Limits
  imports Node_Correct
begin

section \<open>Start-up, corruption, and where the node stops\<close>

text \<open>
  Properties of the start (\<open>combcore_init\<close>, \<open>db_start\<close>), of the recovery from a corrupted
  block, and of two sequences of valid Bitcoin blocks the program does not survive: a
  reorganisation away from a branch and back onto it, and one that replaces the first block.
\<close>

subsection \<open>Start\<close>

lemma fmt_X_zeros: "set (fmt_X (replicate n 0)) \<subseteq> {CHR ''0''}"
  by (induction n) (auto simp: hex_digits_def)

lemma hash_literal_prints:
  assumes "length s = 64" "list_all is_hex_char (to_upper s)"
  shows "fmt_X (hash_literal s) = to_upper s"
proof -
  have "hash_literal s = hex2byte (bytes_of (to_upper s))"
    using assms by (simp add: hash_literal_def parse_hex_def Let_def checkHEX32_def checkHEX_iff hex2byte32_eq
        to_upper_def bytes_of_def)
  then show ?thesis
    using assms hex_chars_fmt_X by (simp add: to_upper_def)
qed

lemma hash_literal_not_zero:
  assumes "length s = 64" "list_all is_hex_char (to_upper s)" "list_ex (\<lambda>c. c \<noteq> CHR ''0'') (to_upper s)"
  shows "hash_literal s \<noteq> zero32"
  using assms(3) fmt_X_zeros [of 32] hash_literal_prints [OF assms(1,2)]
  by (auto simp: zero32_def list_ex_iff)

lemma checkpoints_not_zero:
  "hash_literal ''0000000000000000003bec88b7ba0bebd8eb3b1c1c599e44a2b270ad3e8203ca'' \<noteq> zero32"
  "hash_literal ''000000000933ea01ad0ee984209779baaec3ced90fa3f408719526f8d77f4943'' \<noteq> zero32"
  by (rule hash_literal_not_zero, simp, code_simp, code_simp)+

text \<open>
  \<open>db_start\<close> writes the version record of a new database, and loads an old one only when
  its version is the current one: every other version panics before a block is read.
\<close>

lemma start_checks_version:
  assumes "reliable_store L"
    and "if node_db_is_new s then ldb_entries L (node_db s) = []
         else ldb_get L (node_db s) (replicate 2 0) = Some (put_be16 v) \<and> v \<noteq> DB_CURRENT_VERSION"
  shows "if node_db_is_new s
         then \<exists>s'. db_start L C s = Inr s' \<and> db_holds L (node_db s') [] \<and> DB_Version s' = DB_CURRENT_VERSION
         else db_start L C s = Inl PanicLegacyDB"
proof (cases "node_db_is_new s")
  case True
  with assms reliable_store.new_holds [OF assms(1), of "node_db s"] show ?thesis
    by (auto simp: db_start_def split: prod.splits)
next
  case False
  with assms show ?thesis
    by (simp add: db_start_def db_get_version_def)
qed

subsection \<open>Recovery\<close>

text \<open>
  C15. Recovery: when the stored chain is linked but a block's commits do not have the
  fingerprint of its record, \<open>db_load\<close> loads the blocks below it, removes that block and all
  above it from the database, and returns; the node is consistent at the last good block.
\<close>

theorem load_recovers:
  assumes "reliable_store L" "libcomb_chain C loaded"
    and "db_holds L (node_db s) (as @ b # bs)" "valid_chain cp h (as @ b # bs)"
    and "in_memory C loaded cp h [] s" "list_all good_fingerprint as" "\<not> good_fingerprint b"
  shows "\<exists>s'. db_load L C s = Inr s' \<and> in_memory C loaded cp h as s' \<and> db_holds L (node_db s') as"
  using comb_node.load_corrupted [OF comb_nodeI [OF assms(1,2)] assms(3-7)] by blast

text \<open>Databases written by the program's own operations.\<close>

definition sample_database :: "Block list \<Rightarrow> batch" where
  "sample_database bs = fold (store_one log_store) bs (fst (db_new log_store []))"

lemma sample_database_holds: "wf_chain bs \<Longrightarrow> db_holds log_store (sample_database bs) bs"
  using store_all_holds [OF log_store_reliable, of "fst (db_new log_store [])" "[]" bs]
    logged.new_holds [of "[]"]
  by (simp add: sample_database_def log_store_def replay_def)

text \<open>A block without commits whose record has a fingerprint, which should be zero.\<close>

definition bad_block :: Block where
  "bad_block = \<lparr>Blk_Metadata = \<lparr>BM_Height = 12, BM_Hash = sample_hash 102, BM_Previous = sample_hash 101,
                                BM_Fingerprint = sample_hash 1\<rparr>, Blk_Commits = []\<rparr>"

lemma corrupted_sample:
  "valid_chain (sample_hash 100) 10 ([sample_1] @ bad_block # [])"
  "db_holds log_store (node_db (sample_start\<lparr>node_db := sample_database [sample_1, bad_block]\<rparr>))
     ([sample_1] @ bad_block # [])"
  "in_memory plain_libcomb snd (sample_hash 100) 10 [] (sample_start\<lparr>node_db := sample_database [sample_1, bad_block]\<rparr>)"
  "\<not> good_fingerprint bad_block" "list_all good_fingerprint [sample_1]"
proof -
  show chain: "valid_chain (sample_hash 100) 10 ([sample_1] @ bad_block # [])"
    by (simp add: valid_chain_def bad_block_def sample_defs wf_block_def wf_metadata_def sample_hash_zero)
  show "db_holds log_store (node_db (sample_start\<lparr>node_db := sample_database [sample_1, bad_block]\<rparr>))
      ([sample_1] @ bad_block # [])"
    using sample_database_holds valid_chain_wf [OF chain] by simp
  show "in_memory plain_libcomb snd (sample_hash 100) 10 []
      (sample_start\<lparr>node_db := sample_database [sample_1, bad_block]\<rparr>)"
    using sample_start_memory by (simp add: in_memory_def)
  show "\<not> good_fingerprint bad_block"
    by (simp add: good_fingerprint_def bad_block_def db_compute_block_fingerprint_def sample_hash_zero)
  show "list_all good_fingerprint [sample_1]"
    by (simp add: good_fingerprint_def sample_defs)
qed

theorem load_recovers_witness:
  "\<exists>s'. db_load log_store plain_libcomb (sample_start\<lparr>node_db := sample_database [sample_1, bad_block]\<rparr>) = Inr s'
     \<and> in_memory plain_libcomb snd (sample_hash 100) 10 [sample_1] s'
     \<and> db_holds log_store (node_db s') [sample_1]"
  by (rule load_recovers [OF log_store_reliable plain_libcomb_chain corrupted_sample(2,1,3,5,4)])

subsection \<open>Where the node stops\<close>

text \<open>The tip that was rolled back is still in the map, but no longer below the tip.\<close>

lemma rolled_back:
  assumes "reliable_store L" "libcomb_chain C loaded"
    and "node_inv L C loaded cp h (as @ cs) s" "as \<noteq> []" "cs \<noteq> []"
    and "BD_Previous d = tip cp as" "good_data cp h as d"
    and "prev = tip cp (as @ cs)" "BD_Hash d \<noteq> prev"
  obtains s' p where "neominer_process_block L C d s = Inr s'"
    "node_inv L C loaded cp h (as @ [neominer_block d (h + of_nat (length as) + 1)]) s'"
    "COMB_Chain s' prev = Some p"
    "prev \<notin> insert zero32 (insert cp (blk_hash ` set (as @ [neominer_block d (h + of_nat (length as) + 1)])))"
proof -
  note node = comb_nodeI [OF assms(1,2)]
  obtain s' where s': "neominer_process_block L C d s = Inr s'"
    "node_inv L C loaded cp h (as @ [neominer_block d (h + of_nat (length as) + 1)]) s'"
    "COMB_Chain s' = (COMB_Chain s)(BD_Hash d \<mapsto> BD_Previous d)"
    using assms(4) by (elim comb_node.process_block_inv [OF node assms(3) _ assms(6,7), rotated -1]) simp
  have last: "last cs \<in> set cs" "prev = blk_hash (last cs)"
    using assms(5,8) by (simp_all add: tip_def)
  have "COMB_Chain s (blk_hash (last cs)) = Some (blk_previous (last cs))"
    using assms(3) last(1) by (simp add: node_inv_def in_memory_def maps_chain_def)
  then have known: "COMB_Chain s' prev = Some (blk_previous (last cs))"
    using assms(9) s'(3) last(2) by simp
  have "{zero32, cp} \<inter> blk_hash ` set cs = {}" "blk_hash ` set as \<inter> blk_hash ` set cs = {}"
    using assms(3) by (auto simp: node_inv_def valid_chain_def)
  then have "blk_hash (last cs) \<notin> {zero32, cp} \<union> blk_hash ` set as"
    using last(1) by blast
  then have "prev \<notin> insert zero32 (insert cp
      (blk_hash ` set (as @ [neominer_block d (h + of_nat (length as) + 1)])))"
    using assms(9) last(2) by (simp add: neominer_block_def)
  with s'(1,2) known show ?thesis by (rule that)
qed

text \<open>
  C34. The child-to-parent map keeps blocks that were rolled back, so a branch that becomes the
  longest again cannot be followed: after a reorganisation away from the tip, a block on top
  of the old tip passes the check for a known parent and then panics in \<open>combcore_reorg\<close>.
\<close>

theorem reorg_back_panics:
  assumes "reliable_store L" "libcomb_chain C loaded"
    and "node_inv L C loaded cp h (as @ cs) s" "as \<noteq> []" "cs \<noteq> []"
    and "BD_Previous d = tip cp as" "good_data cp h as d"
    and "BD_Previous d2 = tip cp (as @ cs)" "BD_Hash d \<noteq> tip cp (as @ cs)"
  shows "\<exists>s'. neominer_process_block L C d s = Inr s' \<and> neominer_process_block L C d2 s' = Inl PanicPastCheckpoint"
proof -
  note node = comb_nodeI [OF assms(1,2)]
  obtain s' p where s': "neominer_process_block L C d s = Inr s'"
    "node_inv L C loaded cp h (as @ [neominer_block d (h + of_nat (length as) + 1)]) s'"
    "COMB_Chain s' (BD_Previous d2) = Some p"
    "BD_Previous d2 \<notin> insert zero32 (insert cp
       (blk_hash ` set (as @ [neominer_block d (h + of_nat (length as) + 1)])))"
    by (rule rolled_back [OF assms(1-8) assms(9) [folded assms(8)]])
  from comb_node.orphan_parent_panics [OF node s'(2-4)] s'(1) show ?thesis by blast
qed

theorem reorg_back_panics_witness:
  "\<exists>s'. neominer_process_block log_store plain_libcomb (sample_data 113 101 [sample_hash 9]) sample_node = Inr s'
     \<and> neominer_process_block log_store plain_libcomb (sample_data 103 102 []) s' = Inl PanicPastCheckpoint"
proof -
  have inv: "node_inv log_store plain_libcomb snd (sample_hash 100) 10 ([sample_1] @ [sample_2]) sample_node"
    using sample_inv by simp
  show ?thesis
    by (rule reorg_back_panics [OF log_store_reliable plain_libcomb_chain inv _ _ _ sample_fork_good])
      (simp_all add: sample_data_def sample_tips)
qed

text \<open>
  C33. The first block above the checkpoint cannot be replaced. A block on top of the
  checkpoint is accepted, but the rollback ends above the old first block: its commits stay
  loaded, the new block gets the height after it, and both are written to the database. That
  database can never be loaded again: the next start panics with corruption height zero.
\<close>

theorem checkpoint_reorg_bricks:
  assumes "reliable_store L" "libcomb_chain C loaded"
    and "node_inv L C loaded cp h (b # bs) s" "good_fingerprint b"
    and "BD_Previous d = cp" "good_data cp h [b] d"
    and "in_memory C loaded cp h [] start" "\<not> node_db_is_new start"
  shows "\<exists>s' s''. neominer_process_block L C d s = Inr s'
    \<and> COMB_Hash s' = BD_Hash d \<and> COMB_Height s' = h + 1 + 1
    \<and> loaded (node_lib s') = [Blk_Commits b, BD_Commits d]
    \<and> neominer_write L s' = Inr s''
    \<and> db_start L C (start\<lparr>node_db := node_db s''\<rparr>) = Inl PanicCorruptionZero"
proof -
  note node = comb_nodeI [OF assms(1,2)]
  define b2 where "b2 = neominer_block d (h + 1 + 1)"
  obtain s' where s': "neominer_process_block L C d s = Inr s'" "on_disk L [b, b2] s'" "wf_chain [b, b2]"
    "COMB_Hash s' = BD_Hash d" "COMB_Height s' = h + 1 + 1"
    "loaded (node_lib s') = [Blk_Commits b, BD_Commits d]"
    unfolding b2_def by (rule comb_node.checkpoint_block [OF node assms(3,5,6)])
  obtain e where w: "neominer_write L s' = Inr (s'\<lparr>node_db := e, Neo_Batch := [], Neo_BatchCached := 0\<rparr>)"
    "db_holds L e [b, b2]"
    by (rule comb_node.write_on_disk [OF node s'(3,2)])
  define s0 where "s0 = start\<lparr>node_db := e, DB_Version := DB_CURRENT_VERSION, DB_InitialLoad := True\<rparr>"
  have chain: "valid_chain cp h [b]"
    using assms(3) valid_chain_take [of cp h "[b]" bs] by (simp add: node_inv_def)
  have "unat (h + 1 + 1) < unat (NOT 0 :: u64)"
    using assms(6) by (simp add: good_data_def unat_word_ariths unsigned_minus_1_eq_mask mask_eq_exp_minus_1)
  then have top: "blk_height (last [b2]) < NOT 0"
    by (simp add: word_less_nat_alt b2_def neominer_block_def)
  have db: "db_holds L (node_db s0) ([b] @ b2 # [])" and mem: "in_memory C loaded cp h [] s0"
    using w(2) assms(7) by (simp_all add: s0_def in_memory_def)
  have off: "blk_previous b2 \<noteq> tip cp [b]" "blk_hash b2 \<noteq> zero32" "good_fingerprint b2"
    using chain assms(5,6) neominer_block_good
    by (auto simp: b2_def neominer_block_def valid_chain_def good_data_def)
  have "db_load L C s0 = Inl PanicCorruptionZero"
    by (rule comb_node.load_unlinked [OF node db chain mem _ off(3,1,2) top]) (simp add: assms(4))
  then have "db_start L C (start\<lparr>node_db := e\<rparr>) = Inl PanicCorruptionZero"
    using leveldb_store.version_holds [OF reliable_store.axioms(1) [OF assms(1)] w(2)] assms(8)
    by (simp add: db_start_def s0_def)
  with s' w(1) show ?thesis by simp
qed

theorem checkpoint_reorg_bricks_witness:
  "\<exists>s' s''. neominer_process_block log_store plain_libcomb (sample_data 121 100 [sample_hash 9]) sample_node = Inr s'
    \<and> COMB_Hash s' = BD_Hash (sample_data 121 100 [sample_hash 9]) \<and> COMB_Height s' = 10 + 1 + 1
    \<and> snd (node_lib s') = [Blk_Commits sample_1, BD_Commits (sample_data 121 100 [sample_hash 9])]
    \<and> neominer_write log_store s' = Inr s''
    \<and> db_start log_store plain_libcomb (sample_start\<lparr>node_db := node_db s''\<rparr>) = Inl PanicCorruptionZero"
proof -
  have d: "BD_Previous (sample_data 121 100 [sample_hash 9]) = sample_hash 100"
    "good_data (sample_hash 100) 10 [sample_1] (sample_data 121 100 [sample_hash 9])"
    by (simp_all add: sample_data_def good_data_def sample_tips sample_hash_zero)
  have good: "good_fingerprint sample_1"
    using sample_good by simp
  show ?thesis
    by (rule checkpoint_reorg_bricks [OF log_store_reliable plain_libcomb_chain sample_inv good d
          sample_start_memory])
      (simp add: sample_start_def sample_node_def)
qed

text \<open>
  C19. \<open>combcore_reorg\<close> always returns. Although neither of its two loops has a bound, on a node whose
  database holds a chain it ends for every target: with a panic when the target is not on the
  chain, and otherwise with that target as the tip, and with the blocks up to the target in the
  database and in the library - up to the first block for the checkpoint and the zero hash, which are no
  blocks of the database.
\<close>

theorem reorg_total:
  assumes "reliable_store L" "libcomb_chain C loaded"
    and "node_inv L C loaded cp h bs s" "db_holds L (node_db s) bs" "bs \<noteq> []"
  shows "if target \<in> insert zero32 (insert cp (blk_hash ` set bs))
    then \<exists>as cs s'. bs = as @ cs \<and> as \<noteq> [] \<and> combcore_reorg L C target s = Inr s'
       \<and> (if target \<in> blk_hash ` set bs then blk_hash (last as) = target else length as = 1)
       \<and> COMB_Hash s' = target \<and> COMB_Height s' = h + of_nat (length as)
       \<and> db_holds L (node_db s') as \<and> loaded (node_lib s') = map Blk_Commits as
    else combcore_reorg L C target s = Inl PanicPastCheckpoint"
proof -
  note node = comb_nodeI [OF assms(1,2)]
  have chain: "valid_chain cp h bs" and mem: "in_memory C loaded cp h bs s"
    using assms(3) by (simp_all add: node_inv_def)
  show ?thesis
  proof (cases "target \<in> insert zero32 (insert cp (blk_hash ` set bs))")
    case True
    then obtain as cs s' where "bs = as @ cs" "as \<noteq> []"
      "if target \<in> blk_hash ` set bs then target = tip cp as else length as = 1"
      "combcore_reorg L C target s = Inr s'" "COMB_Hash s' = target" "COMB_Height s' = h + of_nat (length as)"
      "db_holds L (node_db s') as" "loaded (node_lib s') = map Blk_Commits as"
      by (rule comb_node.reorg_keeps [OF node chain mem assms(4,5)])
    moreover from this have "if target \<in> blk_hash ` set bs then blk_hash (last as) = target else length as = 1"
      by (simp add: tip_def split: if_splits)
    ultimately show ?thesis
      unfolding if_P [OF True] by blast
  next
    case False
    then show ?thesis
      unfolding if_not_P [OF False] by (rule comb_node.reorg_off_chain [OF node chain mem assms(4)])
  qed
qed

theorem reorg_total_witness:
  "combcore_reorg log_store plain_libcomb (sample_hash 55) sample_node = Inl PanicPastCheckpoint
   \<and> (\<exists>s'. combcore_reorg log_store plain_libcomb zero32 sample_node = Inr s'
       \<and> db_holds log_store (node_db s') [sample_1] \<and> snd (node_lib s') = [Blk_Commits sample_1])"
proof -
  have db: "db_holds log_store (node_db sample_node) [sample_1, sample_2]"
    using sample_db_holds by (simp add: sample_node_def)
  note reorg = reorg_total [OF log_store_reliable plain_libcomb_chain sample_inv db]
  have "sample_hash 55 \<notin> insert zero32 (insert (sample_hash 100) (blk_hash ` set [sample_1, sample_2]))"
    "zero32 \<notin> blk_hash ` set [sample_1, sample_2]"
    by (simp_all add: sample_defs sample_hash_zero)
  with reorg [of "sample_hash 55"] reorg [of zero32] show ?thesis
    by (fastforce simp: length_Suc_conv simp del: set_simps image_insert)
qed

end
