(* ===== verification/Sha256_Eval.thy ===== *)
theory Sha256_Eval
  imports Sha256
begin

section \<open>Evaluating SHA-256 in the kernel\<close>

text \<open>
  Equations that let the simplifier run the compression function on numerals: rotations that
  cut the bits that fall off, the two bitwise choices in a shorter form, and a normal form of
  sums. They give the test vector of the standard and the hash of the block header the
  concrete runs of \<open>btc_sync\<close> use.
\<close>

unbundle bit_operations_syntax

definition wrapped :: "u32 \<Rightarrow> u32" where
  "wrapped x = x"

lemma wrapped_numeral: "wrapped (numeral a) = of_nat (numeral a mod 4294967296)"
proof -
  have "(of_nat (m mod 4294967296) :: u32) = of_nat m" for m
    by (simp add: word_unat_eq_iff unat_of_nat take_bit_eq_mod)
  from this [of "numeral a"] have "(of_nat (numeral a mod 4294967296) :: u32) = numeral a"
    by (simp only: of_nat_numeral)
  then show ?thesis
    by (simp add: wrapped_def)
qed

lemma rotr_cut: "rotr n x = drop_bit n x OR push_bit (32 - n) (take_bit n x)"
  unfolding rotr_def by (rule bit_eqI) (auto simp: bit_simps)

lemma choose_short: "(e AND f) XOR (NOT e AND g) = g XOR (e AND (f XOR g))" for e f g :: u32
  by (rule bit_eqI) (auto simp: bit_simps)

lemma majority_short: "(a AND b) XOR (a AND c) XOR (b AND c) = (a AND (b XOR c)) XOR (b AND c)" for a b c :: u32
  by (rule bit_eqI) (auto simp: bit_simps)

lemma round_eval:
  "sha_round (k, w) [a, b, c, d, e, f, g, h] =
     (let t1 = wrapped (h + big_sigma1 e + (g XOR (e AND (f XOR g))) + k + w);
          t2 = big_sigma0 a + ((a AND (b XOR c)) XOR (b AND c))
      in [wrapped (t1 + t2), a, b, c, wrapped (d + t1), e, f, g])"
  by (simp add: choose_short majority_short wrapped_def)

lemma schedule_eval:
  "sha_schedule (numeral n) ws =
     sha_schedule (pred_numeral n)
       (wrapped (small_sigma1 (ws ! 1) + ws ! 6 + small_sigma0 (ws ! 14) + ws ! 15) # ws)"
  by (simp add: numeral_eq_Suc wrapped_def)

lemma block_eval:
  "sha_block m s = map wrapped (map2 (+) s (fold sha_round (zip sha_K (sha_schedule 48 (rev (be_words m)))) s))"
  by (simp add: sha_block_def wrapped_def [abs_def])

lemmas sha_eval = block_eval schedule_eval round_eval wrapped_numeral rotr_cut small_sigma0_def
  small_sigma1_def big_sigma0_def big_sigma1_def sha_K_def

lemma blocks_eval:
  "sha_blocks (numeral n) m s = sha_blocks (pred_numeral n) (drop 64 m) (sha_block (take 64 m) s)"
  "sha_blocks 1 m s = sha_block (take 64 m) s"
  by (simp_all add: numeral_eq_Suc)

lemma replicate_numeral_eval: "replicate (numeral n) b = b # replicate (pred_numeral n) b"
  by (simp add: numeral_eq_Suc)

lemmas bytes_eval = be_bytes_numeral replicate_numeral_eval

text \<open>The test vector of FIPS 180-4 for the three bytes \<open>abc\<close>.\<close>

lemma pad_abc: "sha_pad [0x61, 0x62, 0x63] = [0x61, 0x62, 0x63, 0x80] @ replicate 59 0 @ [24]"
  by (simp add: sha_pad_def bytes_eval)

lemma words_abc: "be_words (take 64 (sha_pad [0x61, 0x62, 0x63])) = 0x61626380 # replicate 14 0 @ [24]"
  by (simp add: pad_abc bytes_eval)

lemma sha256_abc: "sha256 [0x61, 0x62, 0x63] =
  [0xba, 0x78, 0x16, 0xbf, 0x8f, 0x01, 0xcf, 0xea, 0x41, 0x41, 0x40, 0xde, 0x5d, 0xae, 0x22, 0x23,
   0xb0, 0x03, 0x61, 0xa3, 0x96, 0x17, 0x7a, 0x9c, 0xb4, 0x10, 0xff, 0x61, 0xf2, 0x00, 0x15, 0xad]"
proof -
  have "length (sha_pad [0x61, 0x62, 0x63]) div 64 = 1"
    by (simp add: pad_abc)
  moreover have "sha_block (take 64 (sha_pad [0x61, 0x62, 0x63])) sha_H0 =
    [0xba7816bf, 0x8f01cfea, 0x414140de, 0x5dae2223, 0xb00361a3, 0x96177a9c, 0xb410ff61, 0xf20015ad]"
    by (simp add: sha_eval words_abc sha_H0_def bytes_eval)
  ultimately show ?thesis
    by (simp add: sha256_def blocks_eval put_be32_def bytes_eval)
qed

subsection \<open>The hash of a block header\<close>

definition sample_header :: bytes where
  "sample_header = replicate 4 1 @ replicate 32 102 @ replicate 44 5"

definition sample_digest :: bytes where
  "sample_digest =
     [0xc4, 0x32, 0x68, 0x47, 0xc1, 0x0d, 0x71, 0xf1, 0x0f, 0xd1, 0x72, 0x6a, 0xb6, 0xf8, 0x6a,
      0x87, 0x5b, 0x89, 0xcc, 0xa6, 0xd0, 0x7b, 0x5a, 0x97, 0xac, 0x4f, 0xc5, 0xb9, 0x07, 0x2c,
      0x87, 0x47]"

lemma sample_header_words:
  "be_words (take 64 (sha_pad sample_header)) = 0x01010101 # replicate 8 0x66666666 @ replicate 7 0x05050505"
  "be_words (take 64 (drop 64 (sha_pad sample_header))) = replicate 4 0x05050505 @ 0x80000000 # replicate 10 0 @ [640]"
  by (simp_all add: sha_pad_def sample_header_def bytes_eval)

lemma sample_digest_words:
  "be_words (take 64 (sha_pad sample_digest)) =
    [0xc4326847, 0xc10d71f1, 0x0fd1726a, 0xb6f86a87, 0x5b89cca6, 0xd07b5a97, 0xac4fc5b9,
     0x072c8747, 0x80000000, 0x00000000, 0x00000000, 0x00000000, 0x00000000, 0x00000000,
     0x00000000, 0x00000100]"
  by (simp add: sha_pad_def sample_digest_def bytes_eval)

lemma sample_block_1: "sha_block (take 64 (sha_pad sample_header)) sha_H0 =
  [0xcc612210, 0xace92562, 0x4e8a3e18, 0xc9dc7bbd, 0x070f6d16, 0x0f7a84e4, 0x50f87fdd, 0xf354ce5a]"
  by (simp add: sha_eval sample_header_words sha_H0_def bytes_eval)

lemma sample_block_2: "sha_block (take 64 (drop 64 (sha_pad sample_header)))
  [0xcc612210, 0xace92562, 0x4e8a3e18, 0xc9dc7bbd, 0x070f6d16, 0x0f7a84e4, 0x50f87fdd, 0xf354ce5a] =
  [0xc4326847, 0xc10d71f1, 0x0fd1726a, 0xb6f86a87, 0x5b89cca6, 0xd07b5a97, 0xac4fc5b9, 0x072c8747]"
  by (simp add: sha_eval sample_header_words bytes_eval)

lemma sample_block_3: "sha_block (take 64 (sha_pad sample_digest)) sha_H0 =
  [0x186144cc, 0x2e7f7966, 0xaab0a8c9, 0x5bd2f2c6, 0x61d1747f, 0x2c535a69, 0x84b76370, 0x6cd0de8c]"
  by (simp add: sha_eval sample_digest_words sha_H0_def bytes_eval)

lemma sample_header_digest: "sha256 sample_header = sample_digest"
proof -
  have "length (sha_pad sample_header) div 64 = 2"
    by (simp add: sha_pad_def sample_header_def)
  then show ?thesis
    by (simp add: sha256_def blocks_eval sample_block_1 sample_block_2 put_be32_def bytes_eval sample_digest_def)
qed

lemma sample_header_hash: "sha256 (sha256 sample_header) =
  [0x18, 0x61, 0x44, 0xcc, 0x2e, 0x7f, 0x79, 0x66, 0xaa, 0xb0, 0xa8, 0xc9, 0x5b, 0xd2, 0xf2, 0xc6,
   0x61, 0xd1, 0x74, 0x7f, 0x2c, 0x53, 0x5a, 0x69, 0x84, 0xb7, 0x63, 0x70, 0x6c, 0xd0, 0xde, 0x8c]"
proof -
  have "length (sha_pad sample_digest) div 64 = 1"
    by (simp add: sha_pad_def sample_digest_def)
  then show ?thesis
    unfolding sample_header_digest
    by (simp add: sha256_def blocks_eval sample_block_3 put_be32_def bytes_eval)
qed

subsection \<open>The header of a block on top of it\<close>

definition child_header :: bytes where
  "child_header = replicate 4 1 @ sha256 (sha256 sample_header) @ replicate 44 5"

definition child_digest :: bytes where
  "child_digest =
     [0xd8, 0x4b, 0x8a, 0x98, 0x6e, 0xdd, 0x9f, 0x02, 0x5d, 0xe3, 0x6b, 0x53, 0x94, 0xe5, 0x03, 0xa0,
      0x36, 0x3b, 0x40, 0x8e, 0x33, 0xd6, 0xc2, 0xbb, 0x07, 0x75, 0xeb, 0x0c, 0xb8, 0x55, 0xd2, 0xe1]"

lemma child_header_words:
  "be_words (take 64 (sha_pad child_header)) =
    [0x01010101, 0x186144cc, 0x2e7f7966, 0xaab0a8c9, 0x5bd2f2c6, 0x61d1747f, 0x2c535a69, 0x84b76370,
     0x6cd0de8c, 0x05050505, 0x05050505, 0x05050505, 0x05050505, 0x05050505, 0x05050505, 0x05050505]"
  "be_words (take 64 (drop 64 (sha_pad child_header))) = replicate 4 0x05050505 @ 0x80000000 # replicate 10 0 @ [640]"
  by (simp_all add: sha_pad_def child_header_def sample_header_hash bytes_eval)

lemma child_digest_words:
  "be_words (take 64 (sha_pad child_digest)) =
    [0xd84b8a98, 0x6edd9f02, 0x5de36b53, 0x94e503a0, 0x363b408e, 0x33d6c2bb, 0x0775eb0c, 0xb855d2e1,
     0x80000000, 0x00000000, 0x00000000, 0x00000000, 0x00000000, 0x00000000, 0x00000000, 0x00000100]"
  by (simp add: sha_pad_def child_digest_def bytes_eval)

lemma child_block_1: "sha_block (take 64 (sha_pad child_header)) sha_H0 =
  [0xf9eacfee, 0x679087d1, 0x010c1b62, 0x17a48530, 0xe0b892fd, 0xdd85adec, 0xb441889d, 0xc5151cdb]"
  by (simp add: sha_eval child_header_words sha_H0_def bytes_eval)

lemma child_block_2: "sha_block (take 64 (drop 64 (sha_pad child_header)))
  [0xf9eacfee, 0x679087d1, 0x010c1b62, 0x17a48530, 0xe0b892fd, 0xdd85adec, 0xb441889d, 0xc5151cdb] =
  [0xd84b8a98, 0x6edd9f02, 0x5de36b53, 0x94e503a0, 0x363b408e, 0x33d6c2bb, 0x0775eb0c, 0xb855d2e1]"
  by (simp add: sha_eval child_header_words bytes_eval)

lemma child_block_3: "sha_block (take 64 (sha_pad child_digest)) sha_H0 =
  [0x9633748e, 0x2b8cd5cb, 0x68fad005, 0x72f3e1fa, 0xe607958b, 0x4322753e, 0x1a543722, 0x965f7af5]"
  by (simp add: sha_eval child_digest_words sha_H0_def bytes_eval)

lemma child_header_digest: "sha256 child_header = child_digest"
proof -
  have "length (sha_pad child_header) div 64 = 2"
    by (simp add: sha_pad_def child_header_def sample_header_hash)
  then show ?thesis
    by (simp add: sha256_def blocks_eval child_block_1 child_block_2 put_be32_def bytes_eval child_digest_def)
qed

lemma child_header_hash: "sha256 (sha256 child_header) =
  [0x96, 0x33, 0x74, 0x8e, 0x2b, 0x8c, 0xd5, 0xcb, 0x68, 0xfa, 0xd0, 0x05, 0x72, 0xf3, 0xe1, 0xfa,
   0xe6, 0x07, 0x95, 0x8b, 0x43, 0x22, 0x75, 0x3e, 0x1a, 0x54, 0x37, 0x22, 0x96, 0x5f, 0x7a, 0xf5]"
proof -
  have "length (sha_pad child_digest) div 64 = 1"
    by (simp add: sha_pad_def child_digest_def)
  then show ?thesis
    unfolding child_header_digest
    by (simp add: sha256_def blocks_eval child_block_3 put_be32_def bytes_eval)
qed

end
