(* ===== verification/Sync_Correct.thy ===== *)
theory Sync_Correct
  imports Tracing Node_Limits Sha256_Eval
begin

section \<open>Synchronisation follows the Bitcoin node\<close>

text \<open>
  The end-to-end properties of \<open>btc_sync\<close>: when the Bitcoin node has a branch on top of a
  block of our chain, one call brings memory, library and database to the top of that branch,
  over REST and from the block files.
\<close>

subsection \<open>A branch to follow\<close>

definition wf_data :: "BlockData \<Rightarrow> bool" where
  "wf_data d \<longleftrightarrow> is32 (BD_Hash d) \<and> is32 (BD_Previous d) \<and> list_all is32 (BD_Commits d)
     \<and> length (BD_Commits d) \<le> 4294967296"

text \<open>New blocks \<open>ds\<close> on top of the part \<open>as\<close> of our chain, none of which the node has seen.\<close>

definition new_branch ::
  "hash256 \<Rightarrow> u64 \<Rightarrow> Block list \<Rightarrow> BlockData list \<Rightarrow> (hash256 \<rightharpoonup> hash256) \<Rightarrow> bool" where
  "new_branch cp h as ds history \<longleftrightarrow>
     linked_data (tip cp as) ds \<and> ds \<noteq> [] \<and> distinct (map BD_Hash ds) \<and> list_all wf_data ds
     \<and> list_all (\<lambda>d. BD_Hash d \<noteq> zero32 \<and> history (BD_Hash d) = None) ds
     \<and> unat h + length as + length ds < 2 ^ 64 - 1"

lemma branch_run:
  assumes "linked_data (tip cp as) ds" "distinct (map BD_Hash ds)" "list_all wf_data ds"
    and "\<And>d. d \<in> set ds \<Longrightarrow> BD_Hash d \<notin> insert zero32 (insert cp (blk_hash ` set as))"
    and "unat h + length as + length ds < 2 ^ 64 - 1" "as \<noteq> [] \<or> cs = []"
  shows "chain_run cp h (as @ cs) ds (if ds = [] then as @ cs else as @ data_blocks (h + of_nat (length as)) ds)"
  using assms
proof (induction ds arbitrary: as cs)
  case (Cons d ds)
  define b where "b = neominer_block d (h + of_nat (length as) + 1)"
  have good: "good_data cp h as d" and prev: "BD_Previous d = tip cp as"
    using Cons.prems(1,3,5) Cons.prems(4) [of d] by (simp_all add: good_data_def wf_data_def)
  have "chain_step cp h (as @ cs) d (as @ [b])"
    using chain_step.intros(1) [OF _ good] chain_step.intros(2) [OF _ prev good, of cs] prev Cons.prems(6)
    by (auto simp: b_def)
  moreover have other: "BD_Hash x \<noteq> BD_Hash d" if "x \<in> set ds" for x
    using Cons.prems(2) that by simp (metis image_eqI)
  moreover have "blk_hash b = BD_Hash d"
    by (simp add: b_def neominer_block_def)
  then have "chain_run cp h ((as @ [b]) @ []) ds
      (if ds = [] then (as @ [b]) @ [] else (as @ [b]) @ data_blocks (h + of_nat (length (as @ [b]))) ds)"
    using Cons.prems(1-5) other by (intro Cons.IH) (auto simp: prev)
  ultimately show ?case
    by (cases ds) (auto simp: b_def add.assoc add.commute)
qed simp

lemma branch_fresh:
  assumes "in_memory C loaded cp h bs s" "set as \<subseteq> set bs"
    and "COMB_Chain s x = None"
  shows "x \<notin> insert cp (blk_hash ` set as)"
  using assms by (auto simp: in_memory_def maps_chain_def)

lemma tip_known:
  assumes "in_memory C loaded cp h bs s" "set as \<subseteq> set bs"
  shows "COMB_Chain s (tip cp as) \<noteq> None"
proof (cases "as = []")
  case False
  then have "last as \<in> set bs"
    using assms(2) last_in_set by blast
  with assms(1) False show ?thesis
    by (simp add: in_memory_def maps_chain_def tip_def)
qed (use assms in \<open>simp add: in_memory_def maps_chain_def\<close>)

lemma new_top_differs:
  assumes "node_inv L C loaded cp h bs s" "COMB_Chain s x = None"
  shows "COMB_Hash s \<noteq> x"
  using assms tip_known [of C loaded cp h bs s bs] by (auto simp: node_inv_def in_memory_def)

lemma branch_known:
  assumes "node_inv L C loaded cp h (as @ cs) s" "new_branch cp h as ds (COMB_Chain s)"
  shows "COMB_Chain s (tip cp as) \<noteq> None" "COMB_Hash s \<noteq> BD_Hash (last ds)"
proof -
  have "in_memory C loaded cp h (as @ cs) s"
    using assms(1) by (simp add: node_inv_def)
  then show "COMB_Chain s (tip cp as) \<noteq> None"
    by (rule tip_known) simp
  have "last ds \<in> set ds"
    using assms(2) by (simp add: new_branch_def)
  then have "COMB_Chain s (BD_Hash (last ds)) = None"
    using assms(2) by (simp add: new_branch_def list_all_iff)
  with assms(1) show "COMB_Hash s \<noteq> BD_Hash (last ds)"
    by (rule new_top_differs)
qed

context comb_node
begin

lemma sync_branch:
  assumes inv: "node_inv L C loaded cp h (as @ cs) s" and as: "as \<noteq> [] \<or> cs = []"
    and branch: "new_branch cp h as ds (COMB_Chain s)"
    and chains: "rest_get_chains W (BTC_RestURL s) = Inr peer" "COMB_Hash s \<noteq> Chain_TopHash peer"
    and sent: "btc_get_block_range W (Chain_TopHash peer) (COMB_Chain s)
      (Chain_Height peer - COMB_Height s) (s\<lparr>BTC_Chain := peer\<rparr>) = (ds, Inr r, s1)"
    and status: "only_status (s\<lparr>BTC_Chain := peer\<rparr>) s1"
  obtains s' where "btc_sync W L C s = Inr s'"
    "node_inv L C loaded cp h (as @ data_blocks (h + of_nat (length as)) ds) s'"
    "db_holds L (node_db s') (as @ data_blocks (h + of_nat (length as)) ds)"
proof -
  note parts = branch [unfolded new_branch_def]
  define bs' where "bs' = as @ data_blocks (h + of_nat (length as)) ds"
  have mem: "in_memory C loaded cp h (as @ cs) s"
    using inv by (simp add: node_inv_def)
  have "BD_Hash d \<notin> insert zero32 (insert cp (blk_hash ` set as))" if "d \<in> set ds" for d
    using parts that branch_fresh [OF mem, of as "BD_Hash d"] by (auto simp: list_all_iff)
  then have run: "chain_run cp h (as @ cs) ds bs'"
    using branch_run [of cp as ds h cs] parts as by (simp add: bs'_def)
  have "node_inv L C loaded cp h (as @ cs) (s\<lparr>BTC_Chain := peer\<rparr>)"
    using inv by (simp add: node_inv_def in_memory_def on_disk_def)
  then obtain s2 where s2: "fold_res (neominer_process_block L C) ds s1 = Inr s2" "node_inv L C loaded cp h bs' s2"
    using run_follows [OF run] only_status_inv [OF status] by blast
  obtain s3 where s3: "neominer_write L s2 = Inr s3" "node_inv L C loaded cp h bs' s3" "flushed L bs' s3"
    by (rule write_flushes [OF s2(2)])
  have run: "btc_sync W L C s = Inr s3"
    using chains sent s2(1) s3(1) by (simp add: btc_sync_def Let_def)
  have db: "db_holds L (node_db s3) bs'"
    using s3(3) by (simp add: flushed_def)
  show ?thesis
    by (rule that [OF run s3(2) [unfolded bs'_def] db [unfolded bs'_def]])
qed

text \<open>Over REST, the range is the branch when the peer reports and serves it.\<close>

lemma sync_rest:
  assumes inv: "node_inv L C loaded cp h (as @ cs) s" and as: "as \<noteq> [] \<or> cs = []"
    and branch: "new_branch cp h as ds (COMB_Chain s)"
    and peer: "rest_get_chains W (BTC_RestURL s) = Inr peer" "Chain_TopHash peer = BD_Hash (last ds)"
    and served: "\<And>d. d \<in> set ds \<Longrightarrow> rest_reports W (BTC_RestURL s) (BD_Hash d) (BD_Previous d)
           \<and> rest_get_block W (BTC_RestURL s) (BD_Hash d) = Inr (Inr d)"
    and path: "BTC_DirectPath s = ''''"
  obtains s' where "btc_sync W L C s = Inr s'"
    "node_inv L C loaded cp h (as @ data_blocks (h + of_nat (length as)) ds) s'"
    "db_holds L (node_db s') (as @ data_blocks (h + of_nat (length as)) ds)"
proof -
  note known = branch_known [OF inv branch]
  have data: "linked_data (tip cp as) ds" "ds \<noteq> []"
    "\<And>d. d \<in> set ds \<Longrightarrow> rest_reports W (BTC_RestURL s) (BD_Hash d) (BD_Previous d)
       \<and> COMB_Chain s (BD_Hash d) = None \<and> rest_get_block W (BTC_RestURL s) (BD_Hash d) = Inr (Inr d)"
    using branch served by (auto simp: new_branch_def list_all_iff)
  obtain s1 where "btc_get_block_range W (Chain_TopHash peer) (COMB_Chain s)
      (Chain_Height peer - COMB_Height s) (s\<lparr>BTC_Chain := peer\<rparr>) = (ds, Inr None, s1)"
    "only_status (s\<lparr>BTC_Chain := peer\<rparr>) s1"
    using rest_range_data [where history = "COMB_Chain s", OF data(1,2) known(1) data(3),
        of "Chain_Height peer - COMB_Height s" "s\<lparr>BTC_Chain := peer\<rparr>"] peer(2) path
    by (auto simp: btc_get_block_range_def)
  then show ?thesis
    by (rule sync_branch [OF inv as branch peer(1) known(2) [folded peer(2)]]) (rule that)
qed

end

text \<open>
  What a synchronisation leaves alone, and which hashes are known after it.
\<close>

definition same_settings :: "('d, 'l) node \<Rightarrow> ('d, 'l) node \<Rightarrow> bool" where
  "same_settings s s' \<longleftrightarrow> BTC_RestURL s' = BTC_RestURL s \<and> BTC_DirectPath s' = BTC_DirectPath s"

lemma write_frame: "neominer_write L s = Inr s' \<Longrightarrow> same_settings s s' \<and> COMB_Chain s' = COMB_Chain s"
  by (auto simp: neominer_write_def same_settings_def split: prod.splits option.splits)

lemma reorg_frame: "combcore_reorg L C t s = Inr s' \<Longrightarrow> same_settings s s' \<and> COMB_Chain s' = COMB_Chain s"
  by (auto simp: combcore_reorg_def same_settings_def try_then_eq_Inr split_beta)

lemma process_frame:
  assumes "neominer_process_block L C d s = Inr s'" "BD_Hash d \<noteq> zero32"
  shows "same_settings s s' \<and> COMB_Chain s' = (COMB_Chain s)(BD_Hash d \<mapsto> BD_Previous d)"
proof -
  obtain s1 where s1: "neominer_reorg L C (BD_Previous d) s = Inr s1"
    using assms(1) by (auto simp: neominer_process_block_def try_then_eq_Inr)
  then have "same_settings s s1 \<and> COMB_Chain s1 = COMB_Chain s"
    by (auto simp: neominer_reorg_def same_settings_def try_then_eq_Inr split: if_splits option.splits
        dest!: write_frame reorg_frame)
  with s1 assms show ?thesis
    by (auto simp: neominer_process_block_def Let_def neominer_block_def combcore_process_block_def same_settings_def
        try_then_eq_Inr split: if_splits option.splits prod.splits dest!: write_frame)
qed

lemma processed_frame:
  "fold_res (neominer_process_block L C) ds s = Inr s' \<Longrightarrow> list_all (\<lambda>d. BD_Hash d \<noteq> zero32) ds \<Longrightarrow>
     same_settings s s' \<and> dom (COMB_Chain s') = dom (COMB_Chain s) \<union> BD_Hash ` set ds"
proof (induction ds arbitrary: s)
  case (Cons d ds)
  then obtain s1 where s1: "neominer_process_block L C d s = Inr s1" "fold_res (neominer_process_block L C) ds s1 = Inr s'"
    by (auto simp: try_then_eq_Inr)
  with Cons process_frame [OF s1(1)] show ?case
    by (auto simp: same_settings_def)
qed (simp add: same_settings_def)

lemma sync_frame:
  assumes "btc_sync W L C s = Inr s'" "rest_get_chains W (BTC_RestURL s) = Inr peer" "COMB_Hash s \<noteq> Chain_TopHash peer"
    and "btc_get_block_range W (Chain_TopHash peer) (COMB_Chain s)
      (Chain_Height peer - COMB_Height s) (s\<lparr>BTC_Chain := peer\<rparr>) = (ds, Inr r, s1)"
    and "only_status (s\<lparr>BTC_Chain := peer\<rparr>) s1" "list_all (\<lambda>d. BD_Hash d \<noteq> zero32) ds"
  shows "same_settings s s' \<and> dom (COMB_Chain s') = dom (COMB_Chain s) \<union> BD_Hash ` set ds"
proof -
  obtain s2 where s2: "fold_res (neominer_process_block L C) ds s1 = Inr s2" "neominer_write L s2 = Inr s'"
    using assms(1-4) by (auto simp: btc_sync_def Let_def try_then_eq_Inr)
  have "same_settings s s1 \<and> COMB_Chain s1 = COMB_Chain s"
    using assms(5) by (auto simp: only_status_def same_settings_def)
  with processed_frame [OF s2(1) assms(6)] write_frame [OF s2(2)] show ?thesis
    by (auto simp: same_settings_def)
qed

lemma data_blocks_append:
  "data_blocks h (ds @ es) = data_blocks h ds @ data_blocks (h + of_nat (length ds)) es"
  by (induction ds arbitrary: h) (simp_all add: algebra_simps)

lemma length_data_blocks [simp]: "length (data_blocks h ds) = length ds"
  by (induction h ds rule: data_blocks.induct) simp_all

lemma data_blocks_top: "tip cp (as @ data_blocks h ds) = (if ds = [] then tip cp as else BD_Hash (last ds))"
proof (cases ds rule: rev_cases)
  case (snoc xs x)
  then show ?thesis by (simp add: data_blocks_append neominer_block_def tip_def)
qed simp

text \<open>A branch whose first part has been taken in goes on from there.\<close>

lemma branch_rest:
  assumes "new_branch cp h as (ds @ es) history" "es \<noteq> []" "dom history' = dom history \<union> BD_Hash ` set ds"
  shows "new_branch cp h (as @ data_blocks (h + of_nat (length as)) ds) es history'"
proof -
  have "history' (BD_Hash x) = None" if "x \<in> set es" for x
  proof -
    have "BD_Hash x \<notin> dom history" "BD_Hash x \<notin> BD_Hash ` set ds"
      using assms(1) that by (auto simp: new_branch_def list_all_iff dest: imageI [of x _ BD_Hash])
    with assms(3) show ?thesis by blast
  qed
  moreover have "data_top (tip cp as) ds = tip cp (as @ data_blocks (h + of_nat (length as)) ds)"
    by (simp add: data_blocks_top data_top_def)
  ultimately show ?thesis
    using assms(1,2) by (auto simp: new_branch_def linked_data_append list_all_iff)
qed

subsection \<open>A concrete Bitcoin node\<close>

text \<open>It has one block on top of the chain of \<open>sample_node\<close>, over REST and in a block file.\<close>

definition next_raw_block :: btc_block where
  "next_raw_block = sample_raw_block\<lparr>Raw_Previous := replicate 32 102\<rparr>"

definition next_data :: BlockData where
  "next_data = \<lparr>BD_Hash = rev (sha256 (sha256 sample_header)), BD_Previous = sample_hash 102,
                BD_Commits = [replicate 32 9]\<rparr>"

definition sample_peer :: ChainData where
  "sample_peer = \<lparr>Chain_Height = 100, Chain_KnownHeight = 100, Chain_TopHash = BD_Hash next_data\<rparr>"

definition sample_world :: btc_world where
  "sample_world =
     \<lparr>web_get = (\<lambda>url.
        if url = ''/chaininfo.json'' then Inr [1]
        else if url = headers_url '''' (BD_Hash next_data) then Inr [2]
        else if url = block_url '''' (BD_Hash next_data) then Inr (ser_block next_raw_block)
        else Inl (ErrExternal ''not found'')),
      json_headers = (\<lambda>raw old. if raw = [2] then Inr [(13, stringify_hex (sample_hash 102))] else Inl ErrGibberish),
      json_chaininfo = (\<lambda>raw. if raw = [1] then Inr (100, 100, stringify_hex (BD_Hash next_data)) else Inl ErrGibberish),
      fs_stat = (\<lambda>_. None),
      fs_glob = (\<lambda>_. Inr [''blk00000.dat'']),
      fs_read = (\<lambda>_. Some (block_file 0 [ser_block next_raw_block] [])),
      fmt_percent = (\<lambda>_ _. ''0.00%'')\<rparr>"

lemma next_hash_fresh:
  "is32 (BD_Hash next_data)" "BD_Hash next_data \<noteq> zero32" "COMB_Chain sample_node (BD_Hash next_data) = None"
proof -
  have "BD_Hash next_data ! 0 = 0x8c" "is32 (BD_Hash next_data)"
    by (simp_all add: next_data_def sample_header_hash)
  moreover have "sample_hash n ! 0 = word_of_nat n" for n
    by (simp add: sample_hash_def)
  ultimately have "BD_Hash next_data \<notin> {sample_hash 0, sample_hash 100, sample_hash 101, sample_hash 102}"
    by (auto dest!: arg_cong [where f = "\<lambda>xs. xs ! 0"])
  then show "is32 (BD_Hash next_data)" "BD_Hash next_data \<noteq> zero32" "COMB_Chain sample_node (BD_Hash next_data) = None"
    by (simp_all add: next_data_def sample_node_def sample_hash_zero)
qed

lemma next_branch: "new_branch (sample_hash 100) 10 [sample_1, sample_2] [next_data] (COMB_Chain sample_node)"
  using next_hash_fresh
  by (simp add: new_branch_def wf_data_def sample_tips) (simp add: next_data_def)

lemma next_raw_parse: "btc_parse_block (ser_block next_raw_block) zero_block_data = Some next_data"
proof -
  have wf: "wf_raw_block next_raw_block"
    using sample_raw_block_wf by (simp add: wf_raw_block_def next_raw_block_def)
  have "ser_header next_raw_block = sample_header" "Raw_Previous next_raw_block = replicate 32 102"
    "concat (map tx_commits (Raw_Txs next_raw_block)) = [replicate 32 9]"
    by (simp_all add: ser_header_def next_raw_block_def sample_raw_block_def sample_header_def
        tx_commits_def script_commits_def)
  with parse_ser_block [OF wf, of "[]" zero_block_data] show ?thesis
    by (simp add: next_data_def zero_block_data_def sample_hash_def)
qed

lemma sample_world_serves:
  "rest_get_chains sample_world '''' = Inr sample_peer"
  "rest_reports sample_world '''' (BD_Hash next_data) (BD_Previous next_data)"
  "rest_get_block sample_world '''' (BD_Hash next_data) = Inr (Inr next_data)"
proof -
  have urls: "web_get sample_world ''/chaininfo.json'' = Inr [1]"
    "web_get sample_world (headers_url '''' (BD_Hash next_data)) = Inr [2]"
    "web_get sample_world (block_url '''' (BD_Hash next_data)) = Inr (ser_block next_raw_block)"
    by (simp_all add: sample_world_def headers_url_def block_url_def)
  show "rest_get_chains sample_world '''' = Inr sample_peer"
    using urls(1) next_hash_fresh(1)
    by (simp add: rest_get_chains_def btc_rest_call_def sample_peer_def) (simp add: sample_world_def)
  show "rest_reports sample_world '''' (BD_Hash next_data) (BD_Previous next_data)"
    using urls(2) by (simp add: rest_reports_def rest_parent_def btc_rest_call_def)
      (simp add: sample_world_def next_data_def)
  show "rest_get_block sample_world '''' (BD_Hash next_data) = Inr (Inr next_data)"
    using urls(3) by (simp add: rest_get_block_def btc_rest_call_def next_raw_parse)
qed

text \<open>
  Later it has a second block on top of the first. Its block files hold one block each; its REST
  interface serves both blocks, or, while it is cut off, only the headers and the first block.
\<close>

definition child_raw_block :: btc_block where
  "child_raw_block = sample_raw_block\<lparr>Raw_Previous := sha256 (sha256 sample_header)\<rparr>"

definition child_data :: BlockData where
  "child_data = \<lparr>BD_Hash = rev (sha256 (sha256 child_header)), BD_Previous = BD_Hash next_data,
                 BD_Commits = [replicate 32 9]\<rparr>"

definition branch_peer :: ChainData where
  "branch_peer = sample_peer\<lparr>Chain_TopHash := BD_Hash child_data\<rparr>"

definition branch_world :: btc_world where
  "branch_world = sample_world
     \<lparr>web_get := (\<lambda>url.
        if url = headers_url '''' (BD_Hash child_data) then Inr [3]
        else if url = block_url '''' (BD_Hash child_data) then Inr (ser_block child_raw_block)
        else web_get sample_world url),
      json_headers := (\<lambda>raw old. if raw = [3] then Inr [(14, stringify_hex (BD_Hash next_data))]
                                 else json_headers sample_world raw old),
      json_chaininfo := (\<lambda>raw. Inr (100, 100, stringify_hex (BD_Hash child_data))),
      fs_glob := (\<lambda>_. Inr [''blk00000.dat'', ''blk00001.dat'']),
      fs_read := (\<lambda>name. Some (block_file 0
        [ser_block (if name = ''blk00000.dat'' then next_raw_block else child_raw_block)] []))\<rparr>"

definition cut_world :: btc_world where
  "cut_world = branch_world
     \<lparr>web_get := (\<lambda>url.
        if url = block_url '''' (BD_Hash child_data) then Inl (ErrExternal ''timeout'')
        else web_get branch_world url)\<rparr>"

lemma child_hash:
  "is32 (BD_Hash child_data)" "BD_Hash child_data \<noteq> zero32" "BD_Hash next_data \<noteq> BD_Hash child_data"
  "COMB_Chain sample_node (BD_Hash child_data) = None"
proof -
  have first: "BD_Hash child_data ! 0 = 0xf5" "is32 (BD_Hash child_data)" "BD_Hash next_data ! 0 = 0x8c"
    by (simp_all add: child_data_def child_header_hash next_data_def sample_header_hash)
  moreover have "sample_hash n ! 0 = word_of_nat n" for n
    by (simp add: sample_hash_def)
  ultimately have "BD_Hash child_data \<notin> {sample_hash 0, sample_hash 100, sample_hash 101, sample_hash 102}"
    by (auto dest!: arg_cong [where f = "\<lambda>xs. xs ! 0"])
  then show "is32 (BD_Hash child_data)" "BD_Hash child_data \<noteq> zero32"
    "COMB_Chain sample_node (BD_Hash child_data) = None"
    using first(2) by (simp_all add: child_data_def sample_node_def sample_hash_zero)
  show "BD_Hash next_data \<noteq> BD_Hash child_data"
    using first(1,3) by auto
qed

lemma child_branch:
  "new_branch (sample_hash 100) 10 [sample_1, sample_2] [next_data, child_data] (COMB_Chain sample_node)"
proof -
  have "BD_Previous child_data = BD_Hash next_data" "BD_Commits child_data = [replicate 32 9]"
    by (simp_all add: child_data_def)
  with next_branch child_hash next_hash_fresh(1) show ?thesis
    by (simp add: new_branch_def wf_data_def sample_tips)
qed

lemma child_raw_parse: "btc_parse_block (ser_block child_raw_block) zero_block_data = Some child_data"
proof -
  have len: "length (sha256 (sha256 sample_header)) = 32"
    by (simp add: sample_header_hash)
  then have wf: "wf_raw_block child_raw_block"
    using sample_raw_block_wf by (simp add: wf_raw_block_def child_raw_block_def)
  have "ser_header child_raw_block = child_header" "Raw_Previous child_raw_block = sha256 (sha256 sample_header)"
    "concat (map tx_commits (Raw_Txs child_raw_block)) = [replicate 32 9]"
    by (simp_all add: ser_header_def child_raw_block_def sample_raw_block_def child_header_def
        tx_commits_def script_commits_def)
  with parse_ser_block [OF wf, of "[]" zero_block_data] show ?thesis
    by (simp add: child_data_def next_data_def zero_block_data_def)
qed

lemma raw_short: "length (ser_block next_raw_block) = 193" "length (ser_block child_raw_block) = 193"
  by (simp_all add: ser_block_def ser_header_def next_raw_block_def child_raw_block_def sample_raw_block_def
      ser_count_def put_varint_def ser_tx_def ser_input_def ser_output_def ser_witness_def ser_bytes_def
      sample_header_hash)

lemma fmt_x_inject: "fmt_x a = fmt_x b \<longleftrightarrow> a = b"
proof
  assume "fmt_x a = fmt_x b"
  then have "to_upper (fmt_x a) = to_upper (fmt_x b)" by simp
  then have "hex2byte (bytes_of (fmt_X a)) = hex2byte (bytes_of (fmt_X b))"
    by (simp add: to_upper_fmt)
  then show "a = b" by simp
qed simp

lemma branch_urls:
  "web_get branch_world (headers_url '''' (BD_Hash child_data)) = Inr [3]"
  "web_get branch_world (block_url '''' (BD_Hash child_data)) = Inr (ser_block child_raw_block)"
  "web_get branch_world (headers_url '''' (BD_Hash next_data)) = Inr [2]"
  "web_get branch_world (block_url '''' (BD_Hash next_data)) = Inr (ser_block next_raw_block)"
  "web_get branch_world ''/chaininfo.json'' = Inr [1]"
  using child_hash(3)
  by (simp_all add: branch_world_def headers_url_def block_url_def fmt_x_inject)
    (simp_all add: sample_world_def headers_url_def block_url_def)

lemma cut_urls:
  "web_get cut_world (headers_url '''' hash) = web_get branch_world (headers_url '''' hash)"
  "web_get cut_world (block_url '''' (BD_Hash next_data)) = web_get branch_world (block_url '''' (BD_Hash next_data))"
  "web_get cut_world (block_url '''' (BD_Hash child_data)) = Inl (ErrExternal ''timeout'')"
  "web_get cut_world ''/chaininfo.json'' = web_get branch_world ''/chaininfo.json''"
  using child_hash(3) by (simp_all add: cut_world_def headers_url_def block_url_def fmt_x_inject)

lemma both_worlds:
  assumes "W = branch_world \<or> W = cut_world"
  shows "rest_get_chains W '''' = Inr branch_peer"
    "rest_reports W '''' (BD_Hash next_data) (BD_Previous next_data)"
    "rest_reports W '''' (BD_Hash child_data) (BD_Previous child_data)"
    "rest_get_block W '''' (BD_Hash next_data) = Inr (Inr next_data)"
proof -
  have urls: "web_get W ''/chaininfo.json'' = Inr [1]" "web_get W (headers_url '''' (BD_Hash child_data)) = Inr [3]"
    "web_get W (headers_url '''' (BD_Hash next_data)) = Inr [2]"
    "web_get W (block_url '''' (BD_Hash next_data)) = Inr (ser_block next_raw_block)"
    using assms branch_urls cut_urls by auto
  have json: "json_chaininfo W = (\<lambda>raw. Inr (100, 100, stringify_hex (BD_Hash child_data)))"
    "json_headers W [2] old = Inr [(13, stringify_hex (sample_hash 102))]"
    "json_headers W [3] old = Inr [(14, stringify_hex (BD_Hash next_data))]" for old
    using assms by (auto simp: branch_world_def cut_world_def sample_world_def)
  show "rest_get_chains W '''' = Inr branch_peer"
    using urls(1) json(1) child_hash(1)
    by (simp add: rest_get_chains_def btc_rest_call_def sample_peer_def branch_peer_def)
  show "rest_reports W '''' (BD_Hash next_data) (BD_Previous next_data)"
    using urls(3) json(2) by (simp add: rest_reports_def rest_parent_def btc_rest_call_def) (simp add: next_data_def)
  show "rest_reports W '''' (BD_Hash child_data) (BD_Previous child_data)"
    using urls(2) json(3) next_hash_fresh(1)
    by (simp add: rest_reports_def rest_parent_def btc_rest_call_def) (simp add: child_data_def)
  show "rest_get_block W '''' (BD_Hash next_data) = Inr (Inr next_data)"
    using urls(4) by (simp add: rest_get_block_def btc_rest_call_def next_raw_parse)
qed

lemma child_block:
  "rest_get_block branch_world '''' (BD_Hash child_data) = Inr (Inr child_data)"
  "rest_get_block cut_world '''' (BD_Hash child_data) = Inr (Inl (ErrExternal ''timeout''))"
  by (simp_all add: rest_get_block_def btc_rest_call_def branch_urls cut_urls child_raw_parse)

subsection \<open>The properties\<close>

text \<open>
  C10. Synchronisation over REST: when the Bitcoin node reports the top of a branch of new
  blocks on top of some block of our chain and serves its headers and blocks, one call of
  \<open>btc_sync\<close> traces the branch, takes its blocks in, in order, and flushes; memory, library
  and database then all hold our chain up to that block followed by the branch.
\<close>

theorem sync_over_rest:
  assumes "reliable_store L" "libcomb_chain C loaded"
    and "node_inv L C loaded cp h (as @ cs) s" "as \<noteq> [] \<or> cs = []"
    and "new_branch cp h as ds (COMB_Chain s)"
    and "rest_get_chains W (BTC_RestURL s) = Inr peer" "Chain_TopHash peer = BD_Hash (last ds)"
    and "\<And>d. d \<in> set ds \<Longrightarrow> rest_reports W (BTC_RestURL s) (BD_Hash d) (BD_Previous d)
           \<and> rest_get_block W (BTC_RestURL s) (BD_Hash d) = Inr (Inr d)"
    and "BTC_DirectPath s = ''''"
  shows "\<exists>s'. btc_sync W L C s = Inr s'
    \<and> node_inv L C loaded cp h (as @ data_blocks (h + of_nat (length as)) ds) s'
    \<and> db_holds L (node_db s') (as @ data_blocks (h + of_nat (length as)) ds)"
  using comb_node.sync_rest [OF comb_nodeI [OF assms(1,2)] assms(3-9)] by blast

theorem sync_over_rest_witness:
  "\<exists>s'. btc_sync sample_world log_store plain_libcomb sample_node = Inr s'
    \<and> node_inv log_store plain_libcomb snd (sample_hash 100) 10
        ([sample_1, sample_2] @ data_blocks (10 + of_nat (length [sample_1, sample_2])) [next_data]) s'
    \<and> db_holds log_store (node_db s')
        ([sample_1, sample_2] @ data_blocks (10 + of_nat (length [sample_1, sample_2])) [next_data])"
proof -
  have inv: "node_inv log_store plain_libcomb snd (sample_hash 100) 10 ([sample_1, sample_2] @ []) sample_node"
    using sample_inv by simp
  have node: "BTC_RestURL sample_node = ''''" "BTC_DirectPath sample_node = ''''"
    by (simp_all add: sample_node_def)
  show ?thesis
    by (rule sync_over_rest [OF log_store_reliable plain_libcomb_chain inv _ next_branch, of sample_world sample_peer])
      (simp_all add: node sample_world_serves sample_peer_def)
qed

text \<open>
  C11. Synchronisation from the block files: with a data directory configured and the Bitcoin
  node more than ten blocks ahead, the same holds without asking for headers or blocks, when
  the branch is in the block files: spread over any of the newest \<open>files\<close>, among other blocks
  and in any order. Each of these is a series of frames of the network's magic number, length
  and raw block, up to the end of the file or bytes that are no frame; an older file is read
  only while the branch is incomplete, and what the oldest hold does not matter.
\<close>

theorem sync_from_files:
  assumes "reliable_store L" "libcomb_chain C loaded"
    and "node_inv L C loaded cp h (as @ cs) s" "as \<noteq> [] \<or> cs = []"
    and "new_branch cp h as ds (COMB_Chain s)"
    and "rest_get_chains W (BTC_RestURL s) = Inr peer" "Chain_TopHash peer = BD_Hash (last ds)"
    and "BTC_DirectPath s \<noteq> ''''" "10 < Chain_Height peer - COMB_Height s"
    and "fs_glob W (BTC_DirectPath s @ ''/blocks/blk*.dat'') = Inr (oldest @ files)"
    and "\<And>f. f \<in> set files \<Longrightarrow> holds_blocks W (COMB_Magic s) f (xs f) (e f)"
    and "\<And>d. d \<in> set ds \<Longrightarrow> \<exists>f \<in> set files. d \<in> set (map snd (xs f))"
    and "\<And>f d d'. f \<in> set files \<Longrightarrow> d \<in> set (map snd (xs f)) \<Longrightarrow> d' \<in> set ds \<Longrightarrow> BD_Hash d = BD_Hash d' \<Longrightarrow> d = d'"
  shows "\<exists>s'. btc_sync W L C s = Inr s'
    \<and> node_inv L C loaded cp h (as @ data_blocks (h + of_nat (length as)) ds) s'
    \<and> db_holds L (node_db s') (as @ data_blocks (h + of_nat (length as)) ds)"
proof -
  note known = branch_known [OF assms(3,5)]
  have data: "linked_data (tip cp as) ds" "ds \<noteq> []" "\<And>d. d \<in> set ds \<Longrightarrow> COMB_Chain s (BD_Hash d) = None"
    using assms(5) by (auto simp: new_branch_def list_all_iff)
  define t where "t = s\<lparr>BTC_Chain := peer\<rparr>"
  have files: "holds_blocks W (COMB_Magic t) f (xs f) (e f)" if "f \<in> set files" for f
    using assms(11) [OF that] by (simp add: t_def)
  have "\<exists>s1. direct_get_block_range W (BTC_DirectPath s) (BD_Hash (last ds)) (COMB_Chain s)
      (Chain_Height peer - COMB_Height s) t = (ds, Inr None, s1) \<and> only_status t s1"
    by (rule direct_range_data [where xs = xs and e = e, OF assms(10) files _ assms(12) data(1,2) known(1) data(3)])
      (fact assms(13) | assumption)+
  then obtain s1 where "direct_get_block_range W (BTC_DirectPath s) (BD_Hash (last ds)) (COMB_Chain s)
      (Chain_Height peer - COMB_Height s) t = (ds, Inr None, s1)" "only_status t s1"
    by blast
  then have "btc_get_block_range W (Chain_TopHash peer) (COMB_Chain s)
      (Chain_Height peer - COMB_Height s) (s\<lparr>BTC_Chain := peer\<rparr>) = (ds, Inr None, s1)"
    "only_status (s\<lparr>BTC_Chain := peer\<rparr>) s1"
    using assms(7-9) by (simp_all add: btc_get_block_range_def t_def)
  from comb_node.sync_branch [OF comb_nodeI [OF assms(1,2)] assms(3-6) known(2) [folded assms(7)] this]
  show ?thesis by blast
qed

theorem sync_from_files_witness:
  "\<exists>s'. btc_sync branch_world log_store plain_libcomb (sample_node\<lparr>BTC_DirectPath := ''data''\<rparr>) = Inr s'
    \<and> node_inv log_store plain_libcomb snd (sample_hash 100) 10
        ([sample_1, sample_2] @ data_blocks (10 + of_nat (length [sample_1, sample_2])) [next_data, child_data]) s'
    \<and> db_holds log_store (node_db s')
        ([sample_1, sample_2] @ data_blocks (10 + of_nat (length [sample_1, sample_2])) [next_data, child_data])"
proof -
  define s where "s = sample_node\<lparr>BTC_DirectPath := ''data''\<rparr>"
  define xs where "xs name = (if name = ''blk00000.dat'' then [(ser_block next_raw_block, next_data)]
    else [(ser_block child_raw_block, child_data)])" for name
  have inv: "node_inv log_store plain_libcomb snd (sample_hash 100) 10 ([sample_1, sample_2] @ []) s"
    using sample_inv by (simp add: s_def node_inv_def in_memory_def on_disk_def)
  have branch: "new_branch (sample_hash 100) 10 [sample_1, sample_2] [next_data, child_data] (COMB_Chain s)"
    using child_branch by (simp add: s_def)
  have node: "BTC_RestURL s = ''''" "BTC_DirectPath s = ''data''" "COMB_Magic s = 0" "COMB_Height s = 12"
    by (simp_all add: s_def sample_node_def)
  have glob: "fs_glob branch_world (BTC_DirectPath s @ ''/blocks/blk*.dat'')
      = Inr ([] @ [''blk00000.dat'', ''blk00001.dat''])"
    by (simp add: branch_world_def)
  have files: "holds_blocks branch_world (COMB_Magic s) f (xs f) []" for f
    using next_raw_parse child_raw_parse raw_short
    by (auto simp: holds_blocks_def branch_world_def node xs_def file_end_def block_file_def frame_def)
  show ?thesis
    unfolding s_def [symmetric]
    by (rule sync_from_files [where peer = branch_peer and xs = xs and e = "\<lambda>_. []",
          OF log_store_reliable plain_libcomb_chain inv _ branch _ _ _ _ glob files])
      (use child_hash(3) in \<open>auto simp: node both_worlds branch_peer_def sample_peer_def xs_def split: if_splits\<close>)
qed

text \<open>
  C20. What REST serves is checked: a block that \<open>rest_get_block\<close> accepts was parsed from served
  bytes whose first 80 hash to the hash asked for, so its parent is the one in that header;
  served bytes with another hash, or that are no block, stop the program.
\<close>

theorem rest_block_authentic:
  assumes "web_get W (block_url url hash) = Inr raw"
  shows "(case rest_get_block W url hash of
      Inr (Inr b) \<Rightarrow> BD_Hash b = hash \<and> hash = rev (sha256 (sha256 (take 80 raw)))
         \<and> BD_Previous b = rev (take 32 (drop 4 raw)) \<and> list_all is32 (BD_Commits b)
    | Inr (Inl _) \<Rightarrow> False
    | Inl stop \<Rightarrow> stop = PanicBounds \<and> btc_parse_block raw zero_block_data = None
         \<or> stop = PanicWrongBlock \<and> hash \<noteq> rev (sha256 (sha256 (take 80 raw))))"
proof (cases "btc_parse_block raw zero_block_data")
  case None
  with assms show ?thesis by (simp add: rest_get_block_def btc_rest_call_def)
next
  case (Some b)
  with assms parsed_block [OF Some] show ?thesis
    by (auto simp: rest_get_block_def btc_rest_call_def commits_at_def)
qed

theorem rest_block_authentic_witness:
  "case rest_get_block sample_world '''' (BD_Hash next_data) of
      Inr (Inr b) \<Rightarrow> BD_Hash b = BD_Hash next_data
         \<and> BD_Hash next_data = rev (sha256 (sha256 (take 80 (ser_block next_raw_block))))
         \<and> BD_Previous b = rev (take 32 (drop 4 (ser_block next_raw_block))) \<and> list_all is32 (BD_Commits b)
    | Inr (Inl _) \<Rightarrow> False
    | Inl stop \<Rightarrow> stop = PanicBounds \<and> btc_parse_block (ser_block next_raw_block) zero_block_data = None
         \<or> stop = PanicWrongBlock
           \<and> BD_Hash next_data \<noteq> rev (sha256 (sha256 (take 80 (ser_block next_raw_block))))"
  by (rule rest_block_authentic) (simp add: sample_world_def headers_url_def block_url_def)

lemma rest_send_error:
  assumes "\<And>d. d \<in> set ds \<Longrightarrow> rest_get_block W url (BD_Hash d) = Inr (Inr d)"
    and "rest_get_block W url x = Inr (Inl err)"
  shows "\<exists>s'. rest_send_blocks W url len i (map BD_Hash ds @ x # xs) s = (ds, Inr (Some err), s') \<and> only_status s s'"
  using assms(1)
proof (induction ds arbitrary: i s)
  case (Cons d ds)
  obtain s' where "rest_send_blocks W url len (i + 1) (map BD_Hash ds @ x # xs)
      (combcore_set_status (progress_status ''Mining'' (fmt_percent W i len)) s) = (ds, Inr (Some err), s')"
    "only_status (combcore_set_status (progress_status ''Mining'' (fmt_percent W i len)) s) s'"
    using Cons.IH Cons.prems by (metis list.set_intros(2))
  with Cons.prems show ?case
    by (auto intro: only_status_trans [OF only_status_set])
qed (simp add: assms(2))

lemma new_branch_prefix:
  "new_branch cp h as (ds @ es) history \<Longrightarrow> ds \<noteq> [] \<Longrightarrow> new_branch cp h as ds history"
  by (auto simp: new_branch_def linked_data_append)

lemma range_cut_off:
  assumes "new_branch cp h as (ds @ d # es) (COMB_Chain s)" "COMB_Chain s (tip cp as) \<noteq> None"
    and "\<And>x. x \<in> set (ds @ d # es) \<Longrightarrow> rest_reports W (BTC_RestURL s) (BD_Hash x) (BD_Previous x)"
    and "\<And>x. x \<in> set ds \<Longrightarrow> rest_get_block W (BTC_RestURL s) (BD_Hash x) = Inr (Inr x)"
    and "rest_get_block W (BTC_RestURL s) (BD_Hash d) = Inr (Inl err)" "BTC_DirectPath s = ''''"
  obtains s1 where "btc_get_block_range W (BD_Hash (last (ds @ d # es))) (COMB_Chain s) len (s\<lparr>BTC_Chain := peer\<rparr>)
      = (ds, Inr (Some err), s1)" "only_status (s\<lparr>BTC_Chain := peer\<rparr>) s1"
proof -
  have data: "linked_data (tip cp as) (ds @ d # es)" "ds @ d # es \<noteq> []"
    "\<And>x. x \<in> set (ds @ d # es) \<Longrightarrow> rest_reports W (BTC_RestURL s) (BD_Hash x) (BD_Previous x)
       \<and> COMB_Chain s (BD_Hash x) = None"
    using assms(1,3) by (auto simp: new_branch_def list_all_iff)
  obtain u where u: "rest_trace_chain W (BTC_RestURL s) (BD_Hash (last (ds @ d # es))) (COMB_Chain s) len
      (s\<lparr>BTC_Chain := peer\<rparr>) = Some (Inr (map BD_Hash (ds @ d # es)), u)" "only_status (s\<lparr>BTC_Chain := peer\<rparr>) u"
    using rest.finds_data [where history = "COMB_Chain s", OF data(1,2) assms(2) data(3), of len "s\<lparr>BTC_Chain := peer\<rparr>"]
    by (auto simp: rest_finds_def)
  obtain s1 where s1: "rest_send_blocks W (BTC_RestURL s) len 0 (map BD_Hash ds @ BD_Hash d # map BD_Hash es) u
      = (ds, Inr (Some err), s1)" "only_status u s1"
    using rest_send_error [OF assms(4,5)] by blast
  show ?thesis
    by (rule that [OF _ only_status_trans [OF u(2) s1(2)]])
      (use u(1) s1(1) assms(6) in \<open>simp add: btc_get_block_range_def rest_get_block_range_def\<close>)
qed

text \<open>What a REST interface at \<open>url\<close> answers that serves the branch \<open>ds\<close>.\<close>

definition serves_branch :: "btc_world \<Rightarrow> string \<Rightarrow> BlockData list \<Rightarrow> bool" where
  "serves_branch W url ds \<longleftrightarrow>
     (\<exists>peer. rest_get_chains W url = Inr peer \<and> Chain_TopHash peer = BD_Hash (last ds))
     \<and> (\<forall>d \<in> set ds. rest_reports W url (BD_Hash d) (BD_Previous d) \<and> rest_get_block W url (BD_Hash d) = Inr (Inr d))"

lemma sync_resumes:
  assumes "reliable_store L" "libcomb_chain C loaded"
    and inv: "node_inv L C loaded cp h (as @ data_blocks (h + of_nat (length as)) ds) s'"
    and frame: "same_settings s s'" "dom (COMB_Chain s') = dom (COMB_Chain s) \<union> BD_Hash ` set ds"
    and path: "BTC_DirectPath s = ''''"
    and rest: "es \<noteq> []" "new_branch cp h as (ds @ es) (COMB_Chain s)" "serves_branch W (BTC_RestURL s) es"
  shows "\<exists>s''. btc_sync W L C s' = Inr s''
    \<and> node_inv L C loaded cp h (as @ data_blocks (h + of_nat (length as)) (ds @ es)) s''
    \<and> db_holds L (node_db s'') (as @ data_blocks (h + of_nat (length as)) (ds @ es))"
proof -
  have url: "BTC_RestURL s' = BTC_RestURL s" and path': "BTC_DirectPath s' = ''''"
    using frame(1) path by (simp_all add: same_settings_def)
  obtain peer where peer: "rest_get_chains W (BTC_RestURL s') = Inr peer" "Chain_TopHash peer = BD_Hash (last es)"
    and served: "\<And>d. d \<in> set es \<Longrightarrow> rest_reports W (BTC_RestURL s') (BD_Hash d) (BD_Previous d)
        \<and> rest_get_block W (BTC_RestURL s') (BD_Hash d) = Inr (Inr d)"
    using rest(3) unfolding serves_branch_def url by blast
  have inv': "node_inv L C loaded cp h ((as @ data_blocks (h + of_nat (length as)) ds) @ []) s'"
    using inv by simp
  have blocks: "data_blocks (h + of_nat (length as)) ds
      @ data_blocks (h + of_nat (length (as @ data_blocks (h + of_nat (length as)) ds))) es
    = data_blocks (h + of_nat (length as)) (ds @ es)"
    by (simp add: data_blocks_append algebra_simps)
  show ?thesis
    using comb_node.sync_rest [OF comb_nodeI [OF assms(1,2)] inv' _ branch_rest [OF rest(2,1) frame(2)]
        peer served path'] unfolding append_assoc blocks by blast
qed

text \<open>
  C17. An interrupted synchronisation loses nothing: when the REST interface fails in the
  middle of a branch, after the blocks \<open>ds\<close> have been served, those blocks are taken in and
  flushed, and the node is consistent at the last of them. A later call goes on from there: when
  the Bitcoin node then serves blocks \<open>later\<close> on top of \<open>ds\<close>, those that failed or others, it
  ends with memory, library and database at the top of \<open>ds\<close> and \<open>later\<close>.
\<close>

theorem sync_interrupted:
  assumes "reliable_store L" "libcomb_chain C loaded"
    and "node_inv L C loaded cp h (as @ cs) s" "as \<noteq> [] \<or> cs = []"
    and "new_branch cp h as (ds @ d # es) (COMB_Chain s)" "ds \<noteq> []"
    and "rest_get_chains W (BTC_RestURL s) = Inr peer" "Chain_TopHash peer = BD_Hash (last (d # es))"
    and "\<And>x. x \<in> set (ds @ d # es) \<Longrightarrow> rest_reports W (BTC_RestURL s) (BD_Hash x) (BD_Previous x)"
    and "\<And>x. x \<in> set ds \<Longrightarrow> rest_get_block W (BTC_RestURL s) (BD_Hash x) = Inr (Inr x)"
    and "rest_get_block W (BTC_RestURL s) (BD_Hash d) = Inr (Inl err)"
    and "BTC_DirectPath s = ''''"
    and "later \<noteq> []" "new_branch cp h as (ds @ later) (COMB_Chain s)" "serves_branch W' (BTC_RestURL s) later"
  shows "\<exists>s'. btc_sync W L C s = Inr s'
    \<and> node_inv L C loaded cp h (as @ data_blocks (h + of_nat (length as)) ds) s'
    \<and> db_holds L (node_db s') (as @ data_blocks (h + of_nat (length as)) ds)
    \<and> (\<exists>s''. btc_sync W' L C s' = Inr s''
         \<and> node_inv L C loaded cp h (as @ data_blocks (h + of_nat (length as)) (ds @ later)) s''
         \<and> db_holds L (node_db s'') (as @ data_blocks (h + of_nat (length as)) (ds @ later)))"
proof -
  note known = branch_known [OF assms(3,5)]
  have top: "Chain_TopHash peer = BD_Hash (last (ds @ d # es))"
    using assms(8) by simp
  obtain s1 where range: "btc_get_block_range W (Chain_TopHash peer) (COMB_Chain s) (Chain_Height peer - COMB_Height s)
      (s\<lparr>BTC_Chain := peer\<rparr>) = (ds, Inr (Some err), s1)" "only_status (s\<lparr>BTC_Chain := peer\<rparr>) s1"
    unfolding top by (rule range_cut_off [OF assms(5) known(1) assms(9-12)]) assumption
  note first = new_branch_prefix [OF assms(5,6)]
  obtain s' where s': "btc_sync W L C s = Inr s'"
    "node_inv L C loaded cp h (as @ data_blocks (h + of_nat (length as)) ds) s'"
    "db_holds L (node_db s') (as @ data_blocks (h + of_nat (length as)) ds)"
    by (rule comb_node.sync_branch [OF comb_nodeI [OF assms(1,2)] assms(3,4) first assms(7) known(2) [folded top] range])
  have "list_all (\<lambda>d. BD_Hash d \<noteq> zero32) ds"
    using first by (simp add: new_branch_def list_all_iff)
  then have frame: "same_settings s s' \<and> dom (COMB_Chain s') = dom (COMB_Chain s) \<union> BD_Hash ` set ds"
    by (rule sync_frame [OF s'(1) assms(7) known(2) [folded top] range])
  show ?thesis
    using s' sync_resumes [OF assms(1,2) s'(2) conjunct1 [OF frame] conjunct2 [OF frame] assms(12-15)] by blast
qed

theorem sync_interrupted_witness:
  "\<exists>s'. btc_sync cut_world log_store plain_libcomb sample_node = Inr s'
    \<and> node_inv log_store plain_libcomb snd (sample_hash 100) 10
        ([sample_1, sample_2] @ data_blocks (10 + of_nat (length [sample_1, sample_2])) [next_data]) s'
    \<and> db_holds log_store (node_db s')
        ([sample_1, sample_2] @ data_blocks (10 + of_nat (length [sample_1, sample_2])) [next_data])
    \<and> (\<exists>s''. btc_sync branch_world log_store plain_libcomb s' = Inr s''
         \<and> node_inv log_store plain_libcomb snd (sample_hash 100) 10
             ([sample_1, sample_2] @ data_blocks (10 + of_nat (length [sample_1, sample_2])) ([next_data] @ [child_data])) s''
         \<and> db_holds log_store (node_db s'')
             ([sample_1, sample_2] @ data_blocks (10 + of_nat (length [sample_1, sample_2])) ([next_data] @ [child_data])))"
proof -
  have inv: "node_inv log_store plain_libcomb snd (sample_hash 100) 10 ([sample_1, sample_2] @ []) sample_node"
    using sample_inv by simp
  have node: "BTC_RestURL sample_node = ''''" "BTC_DirectPath sample_node = ''''"
    by (simp_all add: sample_node_def)
  have branch: "new_branch (sample_hash 100) 10 [sample_1, sample_2] ([next_data] @ child_data # []) (COMB_Chain sample_node)"
    using child_branch by simp
  have reports: "rest_reports cut_world (BTC_RestURL sample_node) (BD_Hash x) (BD_Previous x)"
    if "x \<in> set ([next_data] @ [child_data])" for x
    using that both_worlds(2,3) by (auto simp: node)
  have serves: "serves_branch branch_world (BTC_RestURL sample_node) [child_data]"
    using both_worlds child_block(1) by (simp add: serves_branch_def node branch_peer_def)
  show ?thesis
    by (rule sync_interrupted [where peer = branch_peer and W = cut_world and W' = branch_world and d = child_data
          and es = "[]" and err = "ErrExternal ''timeout''", OF log_store_reliable plain_libcomb_chain inv _ branch _ _ _ reports])
      (use branch serves in \<open>simp_all add: node both_worlds child_block branch_peer_def\<close>)
qed

end
