(* ===== verification/Main_Correct.thy ===== *)
theory Main_Correct
  imports Combcore_Main Sync_Correct
begin

section \<open>From start-up to the first synchronisation\<close>

text \<open>
  \<open>main\<close> establishes the invariant of the node, on a new database and on an existing one, and a
  full node then follows its Bitcoin node.
\<close>

subsection \<open>The checkpoints\<close>

text \<open>Hash, height and database directory of the two networks.\<close>

definition checkpoint :: "string \<Rightarrow> (hash256 \<times> u64 \<times> string) option" where
  "checkpoint network =
     (if network = ''mainnet'' then
        Some (hash_literal ''0000000000000000003bec88b7ba0bebd8eb3b1c1c599e44a2b270ad3e8203ca'', 481822, ''commits'')
      else if network = ''testnet'' then
        Some (hash_literal ''000000000933ea01ad0ee984209779baaec3ced90fa3f408719526f8d77f4943'', 0, ''commits_testnet'')
      else None)"

lemma hash_literal_is32: "is32 (hash_literal s)"
  by (auto simp: hash_literal_def parse_hex_is32 split: sum.splits)

lemma checkpoint_chain:
  "checkpoint network = Some (cp, h, path) \<Longrightarrow> valid_chain cp h []"
  using checkpoints_not_zero
  by (auto simp: checkpoint_def valid_chain_def hash_literal_is32 split: if_splits)

text \<open>What \<open>combcore_init\<close> leaves alone, and what it sets.\<close>

lemma set_network_result:
  assumes "checkpoint (COMB_Network s) = Some (cp, h, path)"
  shows "\<exists>magic pre lib. combcore_set_network C s =
        Inr (s\<lparr>COMB_Height := h, COMB_Hash := cp, COMB_Magic := magic, COMB_Path := path,
               COMB_Prefix := pre, node_lib := lib_SetHeight C h lib\<rparr>)
       \<and> (lib = node_lib s \<or> lib = lib_SwitchToTestnet C (node_lib s))"
proof (cases "COMB_Network s = ''mainnet''")
  case True
  with assms show ?thesis
    by (intro exI [of _ "le32_literal [0xf9, 0xbe, 0xb4, 0xd9]"] exI [of _ mainnet_prefix] exI [of _ "node_lib s"])
      (simp add: checkpoint_def combcore_set_network_def)
next
  case False
  then have "COMB_Network s = ''testnet''"
    using assms by (simp add: checkpoint_def split: if_splits)
  with assms show ?thesis
    by (intro exI [of _ "le32_literal [0x0B, 0x11, 0x09, 0x07]"] exI [of _ testnet_prefix]
        exI [of _ "lib_SwitchToTestnet C (node_lib s)"])
      (simp add: checkpoint_def combcore_set_network_def)
qed

lemma init_result:
  assumes "libcomb_chain C loaded" "checkpoint network = Some (cp, h, path)"
  obtains s' where "combcore_init C network s = Inr s'" "in_memory C loaded cp h [] s'"
    "COMB_Path s' = path" "COMB_StatusLock s' = COMB_StatusLock s" "node_db_is_new s' = node_db_is_new s"
    "COMB_Chain s' = [cp \<mapsto> zero32]" "COMB_Network s' = network" "BTC_DirectPath s' = BTC_DirectPath s"
proof -
  define s0 where "s0 = s\<lparr>node_lib := lib_Reset C (node_lib s), COMB_Network := network\<rparr>"
  obtain magic pre lib where net: "combcore_set_network C s0 =
        Inr (s0\<lparr>COMB_Height := h, COMB_Hash := cp, COMB_Magic := magic, COMB_Path := path,
                COMB_Prefix := pre, node_lib := lib_SetHeight C h lib\<rparr>)"
    and lib: "lib = node_lib s0 \<or> lib = lib_SwitchToTestnet C (node_lib s0)"
    using set_network_result [of s0 cp h path C] assms(2) by (auto simp: s0_def)
  define s1 where "s1 = s0\<lparr>COMB_Height := h, COMB_Hash := cp, COMB_Magic := magic, COMB_Path := path,
                COMB_Prefix := pre, node_lib := lib_SetHeight C h lib, COMB_Chain := [cp \<mapsto> zero32]\<rparr>"
  have run: "combcore_init C network s = Inr s1"
    using net by (simp add: combcore_init_def s1_def flip: s0_def)
  have "loaded lib = []"
    using lib by (auto simp: s0_def libcomb_chain.reset_loaded [OF assms(1)] libcomb_chain.testnet_loaded [OF assms(1)])
  moreover have "cp \<noteq> zero32"
    using checkpoint_chain [OF assms(2)] by (auto simp: valid_chain_def)
  ultimately have mem: "in_memory C loaded cp h [] s1"
    by (simp add: in_memory_def maps_chain_def s1_def libcomb_chain.set_height [OF assms(1)]
        libcomb_chain.set_height_loaded [OF assms(1)])
  show ?thesis
    by (rule that [OF run mem]) (simp_all add: s1_def s0_def)
qed

subsection \<open>Start\<close>

text \<open>The path of the database exists and holds \<open>bs\<close>, or it is missing and a new one is made.\<close>

definition opens ::
  "'d leveldb \<Rightarrow> (string \<Rightarrow> bool \<Rightarrow> go_error + 'd) \<Rightarrow> string \<Rightarrow> Block list \<Rightarrow> bool" where
  "opens L open_file path bs \<longleftrightarrow>
     (\<exists>d. open_file path True = Inr d \<and> db_holds L d bs)
     \<or> (\<exists>err d. open_file path True = Inl err \<and> open_file path False = Inr d \<and> ldb_entries L d = [] \<and> bs = [])"

lemma set_status_fields [simp]:
  "COMB_StatusLock (combcore_set_status m s) = COMB_StatusLock s"
  "COMB_Chain (combcore_set_status m s) = COMB_Chain s"
  "BTC_DirectPath (combcore_set_status m s) = BTC_DirectPath s"
  "node_db_is_new (combcore_set_status m s) = node_db_is_new s"
  by (simp_all add: combcore_set_status_def)

context comb_node
begin

lemma new_start:
  assumes "ldb_entries L (node_db s) = []" "node_db_is_new s" "in_memory C loaded cp h [] s" "valid_chain cp h []"
    and "Neo_Batch s = []" "Neo_BatchCached s = 0" "0 < Neo_BatchCapacity s"
  obtains s' where "db_start L C s = Inr s'" "node_inv L C loaded cp h [] s'" "flushed L [] s'"
    "COMB_StatusLock s' = COMB_StatusLock s" "COMB_Chain s' = COMB_Chain s"
    "BTC_DirectPath s' = BTC_DirectPath s"
proof -
  obtain d where d: "db_new L (node_db s) = (d, DB_CURRENT_VERSION)" "db_holds L d []"
    using new_holds [OF assms(1)] by (cases "db_new L (node_db s)") simp
  define s' where "s' = s\<lparr>node_db := d, DB_Version := DB_CURRENT_VERSION\<rparr>"
  have fl: "flushed L [] s'"
    using d(2) assms(5-7) by (simp add: flushed_def s'_def)
  have inv: "node_inv L C loaded cp h [] s'"
    using assms(3,4) flushed_on_disk [OF fl] by (simp add: node_inv_def in_memory_def s'_def)
  have run: "db_start L C s = Inr s'"
    using assms(2) d(1) by (simp add: db_start_def s'_def)
  show ?thesis
    by (rule that [OF run inv fl]) (simp_all add: s'_def)
qed

lemma open_and_load:
  assumes opens: "opens L open_file (COMB_Path s) bs" and mem: "in_memory C loaded cp h [] s"
    and batch: "Neo_Batch s = []" "Neo_BatchCached s = 0" "0 < Neo_BatchCapacity s"
    and chain: "valid_chain cp h bs" and good: "list_all good_fingerprint bs" and "\<not> node_db_is_new s"
  obtains s1 s2 where "db_open open_file s = Inr s1" "db_start L C (combcore_set_status m s1) = Inr s2"
    "node_inv L C loaded cp h bs s2" "flushed L bs s2" "COMB_StatusLock s2 = COMB_StatusLock s"
    "BTC_DirectPath s2 = BTC_DirectPath s" "dom (COMB_Chain s2) = dom (COMB_Chain s) \<union> blk_hash ` set bs"
  using opens unfolding opens_def
proof (elim disjE exE conjE)
  fix d assume d: "open_file (COMB_Path s) True = Inr d" "db_holds L d bs"
  define s1 where "s1 = combcore_set_status m (s\<lparr>node_db := d\<rparr>)"
  have s1: "flushed L bs s1" "in_memory C loaded cp h [] s1" "\<not> node_db_is_new s1"
    using d(2) batch mem assms(8) by (simp_all add: s1_def flushed_def in_memory_def combcore_set_status_def)
  have o: "db_open open_file s = Inr (s\<lparr>node_db := d\<rparr>)"
    using d(1) by (simp add: db_open_def)
  obtain s2 where s2: "db_start L C s1 = Inr s2" "node_inv L C loaded cp h bs s2" "flushed L bs s2"
    "COMB_StatusLock s2 = COMB_StatusLock s1" "BTC_DirectPath s2 = BTC_DirectPath s1"
    "dom (COMB_Chain s2) = dom (COMB_Chain s1) \<union> blk_hash ` set bs"
    by (rule start_flushed [OF s1(1) chain s1(2) good s1(3)])
  show thesis
    by (rule that [OF o s2(1) [unfolded s1_def] s2(2,3)]) (simp_all add: s2(4-6) s1_def)
next
  fix err d
  assume d: "open_file (COMB_Path s) True = Inl err" "open_file (COMB_Path s) False = Inr d"
    "ldb_entries L d = []" "bs = []"
  define s1 where "s1 = combcore_set_status m (s\<lparr>node_db_is_new := True, node_db := d\<rparr>)"
  have s1: "ldb_entries L (node_db s1) = []" "node_db_is_new s1" "in_memory C loaded cp h [] s1"
    "Neo_Batch s1 = []" "Neo_BatchCached s1 = 0" "0 < Neo_BatchCapacity s1"
    using d(3) batch mem by (simp_all add: s1_def in_memory_def combcore_set_status_def)
  have o: "db_open open_file s = Inr (s\<lparr>node_db_is_new := True, node_db := d\<rparr>)"
    using d(1,2) by (simp add: db_open_def)
  obtain s2 where s2: "db_start L C s1 = Inr s2" "node_inv L C loaded cp h [] s2" "flushed L [] s2"
    "COMB_StatusLock s2 = COMB_StatusLock s1" "COMB_Chain s2 = COMB_Chain s1"
    "BTC_DirectPath s2 = BTC_DirectPath s1"
    by (rule new_start [OF s1(1-3) chain [unfolded d(4)] s1(4-6)])
  show thesis
    by (rule that [OF o s2(1) [unfolded s1_def]]) (simp_all add: s2(2-6) s1_def d(4))
qed

lemma start_establishes:
  assumes cp: "checkpoint (comb_network F) = Some (cp, h, path)" and opens: "opens L open_file path bs"
    and chain: "valid_chain cp h bs" and good: "list_all good_fingerprint bs"
    and fresh: "\<not> COMB_StatusLock s" "\<not> node_db_is_new s"
  obtains s' where "main_start F open_file L C s = Inr s'" "node_inv L C loaded cp h bs s'" "flushed L bs s'"
    "COMB_Status s' = ''Idle''" "dom (COMB_Chain s') = insert cp (blk_hash ` set bs)"
    "BTC_DirectPath s' = BTC_DirectPath s"
proof -
  obtain s1 where s1: "combcore_init C (comb_network F) (combcore_set_status ''Initializing...'' s) = Inr s1"
    "in_memory C loaded cp h [] s1" "COMB_Path s1 = path"
    "COMB_StatusLock s1 = COMB_StatusLock (combcore_set_status ''Initializing...'' s)"
    "node_db_is_new s1 = node_db_is_new (combcore_set_status ''Initializing...'' s)"
    "COMB_Chain s1 = [cp \<mapsto> zero32]"
    "BTC_DirectPath s1 = BTC_DirectPath (combcore_set_status ''Initializing...'' s)"
    by (rule init_result [OF libcomb_chain_axioms cp])
  define s2 where "s2 = neominer_init s1"
  have s2: "opens L open_file (COMB_Path s2) bs" "in_memory C loaded cp h [] s2" "Neo_Batch s2 = []"
    "Neo_BatchCached s2 = 0" "0 < Neo_BatchCapacity s2" "\<not> node_db_is_new s2"
    using opens s1 fresh by (simp_all add: s2_def neominer_init_def in_memory_def combcore_set_status_def)
  obtain s3 s4 where s4: "db_open open_file s2 = Inr s3" "db_start L C (combcore_set_status ''Loading...'' s3) = Inr s4"
    "node_inv L C loaded cp h bs s4" "flushed L bs s4" "COMB_StatusLock s4 = COMB_StatusLock s2"
    "BTC_DirectPath s4 = BTC_DirectPath s2" "dom (COMB_Chain s4) = dom (COMB_Chain s2) \<union> blk_hash ` set bs"
    by (rule open_and_load [OF s2(1-5) chain good s2(6)])
  have run: "main_start F open_file L C s = Inr (combcore_set_status ''Idle'' s4)"
    using s1(1) s4(1,2) by (simp add: main_start_def s2_def)
  show ?thesis
  proof (rule that [OF run])
    show "node_inv L C loaded cp h bs (combcore_set_status ''Idle'' s4)"
      using s4(3) by (simp add: node_inv_def in_memory_def on_disk_def combcore_set_status_def)
    show "flushed L bs (combcore_set_status ''Idle'' s4)"
      using s4(4) by (simp add: flushed_def combcore_set_status_def)
  qed (use s1 s4 fresh in \<open>simp_all add: combcore_set_status_def s2_def neominer_init_def\<close>)
qed

end


subsection \<open>The properties\<close>

text \<open>
  C13. Start-up establishes the invariant: from Go's zero values, on either network, \<open>main\<close> opens
  the network's database or makes a new one, and ends idle with exactly the stored chain in
  memory and in the library, above the network's checkpoint, and with an empty batch. An unknown
  network panics, and a database that cannot be opened or made ends the program.
\<close>

theorem main_start_correct:
  assumes "reliable_store L" "libcomb_chain C loaded"
  shows "(case checkpoint (comb_network F) of
      None \<Rightarrow> main_start F open_file L C (globals d l) = Inl PanicUnknownNetwork
    | Some (cp, h, path) \<Rightarrow>
        (\<forall>bs. opens L open_file path bs \<and> valid_chain cp h bs \<and> list_all good_fingerprint bs \<longrightarrow>
           (\<exists>s. main_start F open_file L C (globals d l) = Inr s \<and> node_inv L C loaded cp h bs s
              \<and> flushed L bs s \<and> COMB_Status s = ''Idle''))
        \<and> (\<forall>err err'. open_file path True = Inl err \<and> open_file path False = Inl err' \<longrightarrow>
             main_start F open_file L C (globals d l) = Inl (FatalOpen err')))"
proof (cases "checkpoint (comb_network F)")
  case None
  then show ?thesis
    by (auto simp: checkpoint_def main_start_def combcore_init_def combcore_set_network_def split: if_splits)
next
  case (Some c)
  obtain cp h path where c: "checkpoint (comb_network F) = Some (cp, h, path)"
    using Some by (cases c) simp
  have fresh: "\<not> COMB_StatusLock (globals d l)" "\<not> node_db_is_new (globals d l)"
    by (simp_all add: globals_def)
  have "\<exists>s. main_start F open_file L C (globals d l) = Inr s \<and> node_inv L C loaded cp h bs s
      \<and> flushed L bs s \<and> COMB_Status s = ''Idle''"
    if "opens L open_file path bs" "valid_chain cp h bs" "list_all good_fingerprint bs" for bs
    using comb_node.start_establishes [OF comb_nodeI [OF assms] c that fresh] by blast
  moreover have "main_start F open_file L C (globals d l) = Inl (FatalOpen err')"
    if "open_file path True = Inl err" "open_file path False = Inl err'" for err err'
  proof -
    obtain s1 where "combcore_init C (comb_network F) (combcore_set_status ''Initializing...'' (globals d l)) = Inr s1"
      "COMB_Path s1 = path"
      by (rule init_result [OF assms(2) c])
    with that show ?thesis
      by (simp add: main_start_def db_open_def neominer_init_def)
  qed
  ultimately show ?thesis by (simp add: c)
qed

text \<open>A first start on the test network.\<close>

definition test_flags :: flags where
  "test_flags = default_flags\<lparr>comb_network := ''testnet''\<rparr>"

definition make_file :: "string \<Rightarrow> bool \<Rightarrow> go_error + batch" where
  "make_file path must_exist = (if must_exist then Inl (ErrExternal ''missing'') else Inr [])"

lemma test_checkpoint:
  "checkpoint ''testnet'' =
     Some (hash_literal ''000000000933ea01ad0ee984209779baaec3ced90fa3f408719526f8d77f4943'', 0, ''commits_testnet'')"
  by (simp add: checkpoint_def)

lemma make_file_opens: "opens log_store make_file path []"
  by (simp add: opens_def make_file_def log_store_def replay_def)

theorem main_start_correct_witness:
  "\<exists>s. main_start test_flags make_file log_store plain_libcomb (globals [] (0, [])) = Inr s
     \<and> node_inv log_store plain_libcomb snd
         (hash_literal ''000000000933ea01ad0ee984209779baaec3ced90fa3f408719526f8d77f4943'') 0 [] s
     \<and> flushed log_store [] s \<and> COMB_Status s = ''Idle''"
proof -
  have "comb_network test_flags = ''testnet''"
    by (simp add: test_flags_def)
  with main_start_correct [OF log_store_reliable plain_libcomb_chain, of test_flags make_file "[]" "(0, [])"]
  show ?thesis
    using make_file_opens checkpoint_chain [OF test_checkpoint] by (simp add: test_checkpoint)
qed


lemma init_disabled:
  assumes "direct_check_path W (btc_data F) \<noteq> None"
  shows "btc_init W (btc_peer F) (btc_port F) (btc_data F) s = s\<lparr>BTC_RestURL :=
    ''http://'' @ btc_peer F @ '':'' @ fmt_d (btc_port F) @ ''/rest''\<rparr>"
  using assms by (auto simp: btc_init_def)

text \<open>
  C6. The whole program, up to its first synchronisation: a full node without block files that is
  started on a stored chain, and whose Bitcoin node reports and serves over REST a branch of new
  blocks on top of a block of that chain, ends its first round with the branch in place, in
  memory, in the library and on disk.
\<close>

theorem main_first_round:
  assumes "reliable_store L" "libcomb_chain C loaded"
    and "node_mode F = FULL_NODE" "checkpoint (comb_network F) = Some (cp, h, path)"
    and "opens L open_file path (as @ cs)" "valid_chain cp h (as @ cs)" "list_all good_fingerprint (as @ cs)"
    and "as \<noteq> [] \<or> cs = []" "direct_check_path W0 (btc_data F) \<noteq> None"
    and "url = ''http://'' @ btc_peer F @ '':'' @ fmt_d (btc_port F) @ ''/rest''"
    and "new_branch cp h as ds (\<lambda>x. if x \<in> insert cp (blk_hash ` set (as @ cs)) then Some zero32 else None)"
    and "rest_get_chains W url = Inr peer" "Chain_TopHash peer = BD_Hash (last ds)"
    and "\<And>d. d \<in> set ds \<Longrightarrow> rest_reports W url (BD_Hash d) (BD_Previous d)
           \<and> rest_get_block W url (BD_Hash d) = Inr (Inr d)"
  shows "\<exists>s. main_run F open_file L C W0 [W] (globals d0 l0) = Inr s
    \<and> node_inv L C loaded cp h (as @ data_blocks (h + of_nat (length as)) ds) s
    \<and> db_holds L (node_db s) (as @ data_blocks (h + of_nat (length as)) ds)"
proof -
  note node = comb_nodeI [OF assms(1,2)]
  have fresh: "\<not> COMB_StatusLock (globals d0 l0)" "\<not> node_db_is_new (globals d0 l0)"
    by (simp_all add: globals_def)
  obtain s1 where s1: "main_start F open_file L C (globals d0 l0) = Inr s1"
    "node_inv L C loaded cp h (as @ cs) s1" "dom (COMB_Chain s1) = insert cp (blk_hash ` set (as @ cs))"
    "BTC_DirectPath s1 = BTC_DirectPath (globals d0 l0)"
    using comb_node.start_establishes [OF node assms(4-7) fresh] by blast
  define s2 where "s2 = s1\<lparr>BTC_RestURL := url\<rparr>"
  have unknown: "COMB_Chain s2 x = None \<longleftrightarrow> x \<notin> insert cp (blk_hash ` set (as @ cs))" for x
    using s1(3) by (auto simp: s2_def)
  have inv: "node_inv L C loaded cp h (as @ cs) s2"
    using s1(2) by (simp add: s2_def node_inv_def in_memory_def on_disk_def)
  have branch: "new_branch cp h as ds (COMB_Chain s2)"
    using assms(11) unknown by (auto simp: new_branch_def list_all_iff split: if_splits)
  obtain s3 where s3: "btc_sync W L C s2 = Inr s3"
    "node_inv L C loaded cp h (as @ data_blocks (h + of_nat (length as)) ds) s3"
    "db_holds L (node_db s3) (as @ data_blocks (h + of_nat (length as)) ds)"
    by (rule comb_node.sync_rest [OF node inv assms(8) branch, of W peer])
      (use assms(12-14) s1(4) in \<open>simp_all add: s2_def globals_def\<close>)
  have "btc_init W0 (btc_peer F) (btc_port F) (btc_data F) s1 = s2"
    using init_disabled [OF assms(9)] by (simp only: s2_def assms(10))
  then have "main_run F open_file L C W0 [W] (globals d0 l0) = Inr (combcore_set_status ''Idle'' s3)"
    using s1(1) s3(1) assms(3) by (simp add: main_run_def full_node_rounds_def)
  then show ?thesis
    using s3(2,3) by (auto simp: node_inv_def in_memory_def on_disk_def combcore_set_status_def)
qed


text \<open>
  A concrete run: a stored chain of one block on the test network, and the Bitcoin node of the
  synchronisation examples behind the default address.
\<close>

definition test_cp :: hash256 where
  "test_cp = hash_literal ''000000000933ea01ad0ee984209779baaec3ced90fa3f408719526f8d77f4943''"

definition base_block :: Block where
  "base_block =
     \<lparr>Blk_Metadata = \<lparr>BM_Height = 1, BM_Hash = sample_hash 102, BM_Previous = test_cp, BM_Fingerprint = zero32\<rparr>,
      Blk_Commits = []\<rparr>"

definition base_db :: batch where
  "base_db = [Put (replicate 2 0) (put_be16 DB_CURRENT_VERSION)] @ db_store_block [] base_block"

definition base_file :: "string \<Rightarrow> bool \<Rightarrow> go_error + batch" where
  "base_file path must_exist = Inr base_db"

definition default_url :: string where
  "default_url = ''http://127.0.0.1:8332/rest''"

definition default_world :: btc_world where
  "default_world = sample_world\<lparr>web_get := (\<lambda>url. web_get sample_world (drop (length default_url) url))\<rparr>"

lemma test_cp_32: "is32 test_cp"
  by (simp add: test_cp_def hash_literal_is32)

text \<open>Its first digit tells the checkpoint from the other hashes.\<close>

lemma test_cp_digit: "fmt_X test_cp ! 0 = CHR ''0''"
proof -
  have "fmt_X test_cp = to_upper ''000000000933ea01ad0ee984209779baaec3ced90fa3f408719526f8d77f4943''"
    unfolding test_cp_def by (rule hash_literal_prints) (simp, code_simp)
  then show ?thesis by (simp add: upper_char_def)
qed

lemma test_cp_fresh: "test_cp \<noteq> zero32" "test_cp \<noteq> sample_hash 102" "test_cp \<noteq> BD_Hash next_data"
proof -
  show "test_cp \<noteq> zero32"
    unfolding test_cp_def by (rule checkpoints_not_zero(2))
  have "sample_hash 102 = 102 # replicate 31 102"
    using replicate_Suc [of 31 "102 :: byte"] by (simp add: sample_hash_def)
  then have "fmt_X (sample_hash 102) ! 0 = CHR ''6''"
    by (simp add: hex_digits_def)
  then show "test_cp \<noteq> sample_hash 102"
    using test_cp_digit by auto
  have "fmt_X (BD_Hash next_data) ! 0 = CHR ''8''"
    by (simp add: next_data_def sample_header_hash hex_digits_def)
  then show "test_cp \<noteq> BD_Hash next_data"
    using test_cp_digit by auto
qed

lemma base_chain: "valid_chain test_cp 0 [base_block]" "list_all good_fingerprint [base_block]"
  using test_cp_fresh test_cp_32
  by (auto simp: valid_chain_def base_block_def wf_block_def wf_metadata_def sample_hash_zero
      good_fingerprint_def db_compute_block_fingerprint_def)

lemma base_opens: "opens log_store base_file path [base_block]"
proof -
  have wf: "wf_chain [base_block]"
    by (rule valid_chain_wf [OF base_chain(1)])
  have "apply_batch base_db Map.empty = apply_batch (db_store_block [] base_block) (map_of (stored []))"
    by (simp add: base_db_def stored_def)
  also have "\<dots> = map_of (stored [base_block])"
    using store_block_stored [of "[]" base_block] wf by simp
  finally have "db_holds log_store base_db [base_block]"
    using wf unfolding db_holds_def
    by (auto intro!: logged.entries_eqI stored_ascending simp: log_store_entries)
  then show ?thesis
    by (simp add: opens_def base_file_def)
qed

lemma default_world_serves:
  "rest_get_chains default_world default_url = Inr sample_peer"
  "rest_reports default_world default_url (BD_Hash next_data) (BD_Previous next_data)"
  "rest_get_block default_world default_url (BD_Hash next_data) = Inr (Inr next_data)"
proof -
  have get: "web_get default_world (default_url @ path) = web_get sample_world path" for path
    by (simp add: default_world_def)
  have urls: "headers_url default_url x = default_url @ headers_url '''' x"
    "block_url default_url x = default_url @ block_url '''' x" for x
    by (simp_all add: headers_url_def block_url_def)
  have json: "json_headers default_world = json_headers sample_world"
    "json_chaininfo default_world = json_chaininfo sample_world"
    by (simp_all add: default_world_def)
  note unfolds = rest_get_chains_def rest_reports_def rest_parent_def rest_get_block_def btc_rest_call_def
  show "rest_get_chains default_world default_url = Inr sample_peer"
    "rest_reports default_world default_url (BD_Hash next_data) (BD_Previous next_data)"
    "rest_get_block default_world default_url (BD_Hash next_data) = Inr (Inr next_data)"
    using sample_world_serves unfolding unfolds urls get json by simp_all
qed

lemma digit_chars: "char_of (56 :: nat) = CHR ''8''" "char_of (51 :: nat) = CHR ''3''" "char_of (50 :: nat) = CHR ''2''"
  by code_simp+

theorem main_first_round_witness:
  "\<exists>s. main_run test_flags base_file log_store plain_libcomb default_world [default_world] (globals [] (0, [])) = Inr s
    \<and> node_inv log_store plain_libcomb snd test_cp 0 ([base_block] @ data_blocks (0 + of_nat (length [base_block])) [next_data]) s
    \<and> db_holds log_store (node_db s) ([base_block] @ data_blocks (0 + of_nat (length [base_block])) [next_data])"
proof -
  have cp: "checkpoint (comb_network test_flags) = Some (test_cp, 0, ''commits_testnet'')"
    by (simp add: test_flags_def test_checkpoint test_cp_def)
  have chain: "opens log_store base_file ''commits_testnet'' ([base_block] @ [])"
    "valid_chain test_cp 0 ([base_block] @ [])" "list_all good_fingerprint ([base_block] @ [])"
    using base_opens base_chain by simp_all
  have url: "default_url = ''http://'' @ btc_peer test_flags @ '':'' @ fmt_d (btc_port test_flags) @ ''/rest''"
    by (simp add: default_url_def test_flags_def default_flags_def fmt_d.simps digit_chars)
  have branch: "new_branch test_cp 0 [base_block] [next_data]
      (\<lambda>x. if x \<in> insert test_cp (blk_hash ` set ([base_block] @ [])) then Some zero32 else None)"
    using next_hash_fresh test_cp_fresh(3) next_branch
    by (auto simp: new_branch_def base_block_def sample_node_def sample_tips tip_def split: if_splits)
  show ?thesis
    by (rule main_first_round [OF log_store_reliable plain_libcomb_chain _ cp chain _ _ url branch
          default_world_serves(1)])
      (simp_all add: test_flags_def default_flags_def node_modes direct_check_path_def sample_peer_def
        default_world_serves)
qed

end
