(* ===== verification/Rest_Trace.thy ===== *)
theory Rest_Trace
  imports Sync_Correct
begin

section \<open>When the trace over REST ends\<close>

text \<open>
  \<open>rest_trace_chain\<close> follows the parents the Bitcoin node reports until it meets a known block.
  Its loop has no bound: whether it ends depends on what the other side answers. The theorem
  says exactly when.
\<close>

definition reported :: "btc_world \<Rightarrow> string \<Rightarrow> (u64 \<times> string) list \<Rightarrow> hash256 \<Rightarrow> hash256 option" where
  "reported W url headers hash =
     (case rest_parent W url hash headers of Inl err \<Rightarrow> None | Inr (p, _) \<Rightarrow> Some p)"

abbreviation trace_stops :: "(hash256 \<rightharpoonup> hash256) \<Rightarrow> (hash256 \<rightharpoonup> hash256) \<Rightarrow> hash256 \<Rightarrow> bool" where
  "trace_stops answer history target \<equiv>
     (\<exists>hash. (\<lambda>x y. answer x = Some y)\<^sup>*\<^sup>* target hash \<and> (history hash \<noteq> None \<or> answer hash = None))"

lemma trace_loop_ends:
  assumes "\<And>headers. reported W url headers = answer"
    and "(\<lambda>x y. answer x = Some y)\<^sup>*\<^sup>* target hash" "history hash \<noteq> None \<or> answer hash = None"
  shows "rest_trace_loop W url history len target chain headers s \<noteq> None"
  using assms(2,3)
proof (induction arbitrary: chain headers s rule: converse_rtranclp_induct)
  case base
  have "reported W url headers hash = answer hash"
    by (simp add: assms(1))
  with base show ?case
    by (subst rest_trace_loop.simps) (auto simp: reported_def split: sum.splits)
next
  case (step x y)
  have "reported W url headers x = Some y"
    using step.hyps(1) by (simp add: assms(1))
  then obtain headers' where "rest_parent W url x headers = Inr (y, headers')"
    by (auto simp: reported_def split: sum.splits)
  with step.IH [OF step.prems] show ?case
    by (subst rest_trace_loop.simps) auto
qed

lemma trace_stops_step: "answer x = Some y \<Longrightarrow> trace_stops answer history y \<Longrightarrow> trace_stops answer history x"
  by (blast intro: converse_rtranclp_into_rtranclp)

lemma trace_loop_stops:
  assumes "\<And>headers. reported W url headers = answer"
    and "rest_trace_loop W url history len target chain headers s = Some r"
  shows "trace_stops answer history target"
proof -
  have "(\<forall>headers. reported W url headers = answer) \<longrightarrow> trace_stops answer history target"
  proof (rule rest_trace_loop.raw_induct [OF _ assms(2)])
    fix loop and W :: btc_world and url and history :: "hash256 \<rightharpoonup> hash256" and len hash chain headers s r
    assume IH: "\<And>W url history len hash chain headers s r. loop W url history len hash chain headers s = Some r \<Longrightarrow>
        (\<forall>headers. reported W url headers = answer) \<longrightarrow> trace_stops answer history hash"
      and run: "(if history hash \<noteq> None then Some (Inr chain, s)
        else case rest_parent W url hash headers of Inl err \<Rightarrow> Some (Inl err, s)
             | Inr (parent, headers) \<Rightarrow>
                 loop W url history len parent (chain @ [hash]) headers
                   (combcore_set_status
                     (progress_status ''Tracing'' (fmt_percent W (length (chain @ [hash])) len)) s)) = Some r"
    show "(\<forall>headers. reported W url headers = answer) \<longrightarrow> trace_stops answer history hash"
    proof
      assume all: "\<forall>headers. reported W url headers = answer"
      then have answer: "answer hash = reported W url headers hash" by simp
      show "trace_stops answer history hash"
      proof (cases "rest_parent W url hash headers")
        case (Inl err)
        then have "answer hash = None" by (simp add: answer reported_def)
        then show ?thesis by blast
      next
        case (Inr next_hash)
        then obtain p headers' where p: "rest_parent W url hash headers = Inr (p, headers')"
          by (cases next_hash) simp
        then have "answer hash = Some p" by (simp add: answer reported_def)
        moreover have "trace_stops answer history p" if "history hash = None"
          using run IH all that p by (simp split: if_splits)
        ultimately show ?thesis
          using trace_stops_step [of answer hash p history] by blast
      qed
    qed
  qed
  with assms(1) show ?thesis by simp
qed

text \<open>
  C18. Termination of the trace: against a node whose answers depend on the request alone,
  \<open>rest_trace_chain\<close> returns if and only if the reported parents lead from the target to a known
  block or to an answer that is an error. A node that reports a cycle of unknown blocks keeps
  it tracing for ever.
\<close>

theorem rest_trace_returns_iff:
  assumes "\<And>headers. reported W url headers = answer"
  shows "rest_trace_chain W url target history len s \<noteq> None \<longleftrightarrow>
    (\<exists>hash. (\<lambda>x y. answer x = Some y)\<^sup>*\<^sup>* target hash \<and> (history hash \<noteq> None \<or> answer hash = None))"
proof (cases "history target")
  case None
  then have "rest_trace_chain W url target history len s = None \<longleftrightarrow>
      rest_trace_loop W url history len target [] [] s = None"
    by (simp add: rest_trace_chain_def split: option.split sum.split)
  moreover have "rest_trace_loop W url history len target [] [] s \<noteq> None \<longleftrightarrow> trace_stops answer history target"
  proof
    assume "rest_trace_loop W url history len target [] [] s \<noteq> None"
    then obtain r where "rest_trace_loop W url history len target [] [] s = Some r" by auto
    then show "trace_stops answer history target" by (rule trace_loop_stops [OF assms])
  next
    assume "trace_stops answer history target"
    then obtain hash where "(\<lambda>x y. answer x = Some y)\<^sup>*\<^sup>* target hash" "history hash \<noteq> None \<or> answer hash = None"
      by (elim exE conjE)
    then show "rest_trace_loop W url history len target [] [] s \<noteq> None"
      by (rule trace_loop_ends [OF assms])
  qed
  ultimately show ?thesis by (simp only: not_not [symmetric])
next
  case (Some parent)
  then have "rest_trace_chain W url target history len s \<noteq> None" "history target \<noteq> None"
    by (simp_all add: rest_trace_chain_def)
  then show ?thesis using rtranclp.rtrancl_refl [of "\<lambda>x y. answer x = Some y" target] by meson
qed

text \<open>A node that names the same parent for every block, and one that serves no headers.\<close>

definition answering :: "(u64 \<times> string) list \<Rightarrow> btc_world" where
  "answering headers = sample_world\<lparr>web_get := (\<lambda>url. Inr []), json_headers := (\<lambda>raw old. Inr headers)\<rparr>"

lemma answering_reports:
  "reported (answering [(0, stringify_hex (sample_hash 9))]) url headers = (\<lambda>hash. Some (sample_hash 9))"
  "reported (answering []) url headers = (\<lambda>hash. None)"
  by (simp_all add: reported_def rest_parent_def btc_rest_call_def answering_def fun_eq_iff)

theorem rest_trace_returns_iff_witness:
  "rest_trace_chain (answering [(0, stringify_hex (sample_hash 9))]) '''' (sample_hash 9) Map.empty 1 sample_node = None
   \<and> rest_trace_chain (answering []) '''' (sample_hash 9) Map.empty 1 sample_node \<noteq> None"
proof
  show "rest_trace_chain (answering [(0, stringify_hex (sample_hash 9))]) '''' (sample_hash 9) Map.empty 1 sample_node = None"
    using rest_trace_returns_iff [OF answering_reports(1), of "''''" "sample_hash 9" Map.empty 1 sample_node]
    by (simp del: not_None_eq)
  have "\<exists>hash. (\<lambda>x y. None = Some y)\<^sup>*\<^sup>* (sample_hash 9) hash"
    by (rule exI, rule rtranclp.rtrancl_refl)
  then show "rest_trace_chain (answering []) '''' (sample_hash 9) Map.empty 1 sample_node \<noteq> None"
    using rest_trace_returns_iff [OF answering_reports(2), of "''''" "sample_hash 9" Map.empty 1 sample_node]
    by (simp del: not_None_eq)
qed

end
