(* ===== verification/Shutdown.thy ===== *)
theory Shutdown
  imports DB
begin

section \<open>combcore.go: stopping between two writes\<close>

text \<open>
  Every write to the database is made by \<open>db_write\<close> while it holds the mutex \<open>critical\<close>; the
  goroutine that \<open>setup_graceful_shutdown\<close> starts takes the same mutex before it closes the
  database and ends the process. Here the goroutines that call \<open>db_write\<close> (the miner, the HTTP
  handlers) and the signal handler take their steps in any order. A statement is one step;
  \<open>db.Write\<close> on a closed handle leaves the store alone and is recorded as \<open>Refused\<close>.
  The process starts with the database open: a signal during start-up is not modelled.
\<close>

subsection \<open>The process\<close>

datatype write_pc =
    Idle
  | Wants batch
  | Writing batch
  | Resetting "go_error option"
  | Refused
  | Returned "go_error option"

datatype signal_pc = NotWaiting | Waiting | Notified | Closing | Releasing | Exiting | Exited

record 'd process =
  critical :: bool
  shutdown :: bool
  disk :: 'd
  closed :: bool
  writers :: "write_pc list"
  handler :: signal_pc

definition process_start :: "'d \<Rightarrow> nat \<Rightarrow> 'd process" where
  "process_start d n =
     \<lparr>critical = False, shutdown = False, disk = d, closed = False,
      writers = replicate n Idle, handler = NotWaiting\<rparr>"

definition setup_graceful_shutdown :: "'d process \<Rightarrow> 'd process" where
  "setup_graceful_shutdown p = p\<lparr>handler := Waiting, shutdown := True\<rparr>"

abbreviation at :: "'d process \<Rightarrow> nat \<Rightarrow> write_pc \<Rightarrow> bool" where
  "at p i w \<equiv> i < length (writers p) \<and> writers p ! i = w"

abbreviation goto :: "'d process \<Rightarrow> nat \<Rightarrow> write_pc \<Rightarrow> 'd process" where
  "goto p i w \<equiv> p\<lparr>writers := (writers p)[i := w]\<rparr>"

text \<open>\<open>db_write\<close>, statement by statement; the label is the batches handed to an open database.\<close>

inductive writer_step :: "'d leveldb \<Rightarrow> 'd process \<Rightarrow> batch list \<Rightarrow> 'd process \<Rightarrow> bool" for L :: "'d leveldb" where
  call: "at p i w \<Longrightarrow> w = Idle \<or> w = Returned err \<Longrightarrow> writer_step L p [] (goto p i (Wants b))"
| lock: "at p i (Wants b) \<Longrightarrow> \<not> critical p \<Longrightarrow>
    writer_step L p [] (goto (p\<lparr>critical := True\<rparr>) i (Writing b))"
| db_write_open: "at p i (Writing b) \<Longrightarrow> \<not> closed p \<Longrightarrow> ldb_write L (disk p) b = (err, d) \<Longrightarrow>
    writer_step L p [b] (goto (p\<lparr>disk := d\<rparr>) i (Resetting err))"
| db_write_closed: "at p i (Writing b) \<Longrightarrow> closed p \<Longrightarrow> writer_step L p [] (goto p i Refused)"
| unlock: "at p i (Resetting err) \<Longrightarrow>
    writer_step L p [] (goto (p\<lparr>critical := False\<rparr>) i (Returned err))"

text \<open>The goroutine of \<open>setup_graceful_shutdown\<close>.\<close>

inductive signal_step :: "'d process \<Rightarrow> 'd process \<Rightarrow> bool" where
  signal: "handler p = Waiting \<Longrightarrow> signal_step p (p\<lparr>handler := Notified\<rparr>)"
| stop_lock: "handler p = Notified \<Longrightarrow> \<not> critical p \<Longrightarrow>
    signal_step p (p\<lparr>critical := True, handler := Closing\<rparr>)"
| close: "handler p = Closing \<Longrightarrow> signal_step p (p\<lparr>closed := True, handler := Releasing\<rparr>)"
| release: "handler p = Releasing \<Longrightarrow> shutdown p \<Longrightarrow>
    signal_step p (p\<lparr>shutdown := False, handler := Exiting\<rparr>)"
| exit: "handler p = Exiting \<Longrightarrow> signal_step p (p\<lparr>handler := Exited\<rparr>)"

inductive process_run :: "'d leveldb \<Rightarrow> 'd process \<Rightarrow> batch list \<Rightarrow> 'd process \<Rightarrow> bool" for L :: "'d leveldb" where
  start: "process_run L p [] p"
| writes: "process_run L p bs q \<Longrightarrow> handler q \<noteq> Exited \<Longrightarrow> writer_step L q cs r \<Longrightarrow> process_run L p (bs @ cs) r"
| signals: "process_run L p bs q \<Longrightarrow> handler q \<noteq> Exited \<Longrightarrow> signal_step q r \<Longrightarrow> process_run L p bs r"

subsection \<open>Mutual exclusion\<close>

fun holding :: "write_pc \<Rightarrow> bool" where
  "holding (Writing b) = True"
| "holding (Resetting err) = True"
| "holding w = False"

definition stopping :: "signal_pc \<Rightarrow> bool" where
  "stopping h \<longleftrightarrow> h \<in> {Closing, Releasing, Exiting, Exited}"

definition exclusive :: "'d process \<Rightarrow> bool" where
  "exclusive p \<longleftrightarrow>
     (\<forall>i < length (writers p). holding (writers p ! i) \<longrightarrow>
        critical p \<and> \<not> stopping (handler p) \<and> (\<forall>j < length (writers p). holding (writers p ! j) \<longrightarrow> j = i))
   \<and> (critical p \<longrightarrow> stopping (handler p) \<or> (\<exists>i < length (writers p). holding (writers p ! i)))
   \<and> (stopping (handler p) \<longrightarrow> critical p)
   \<and> (closed p \<longleftrightarrow> handler p \<in> {Releasing, Exiting, Exited})
   \<and> (handler p \<notin> {Exiting, Exited, NotWaiting} \<longrightarrow> shutdown p)
   \<and> handler p \<noteq> NotWaiting
   \<and> Refused \<notin> set (writers p)"

lemma exclusive_start: "exclusive (setup_graceful_shutdown (process_start d n))"
  by (simp add: exclusive_def setup_graceful_shutdown_def process_start_def stopping_def)

lemma holding_iff: "holding w \<longleftrightarrow> (\<exists>b. w = Writing b) \<or> (\<exists>err. w = Resetting err)"
  by (cases w) auto

lemma set_goto: "x \<in> set (xs[i := y]) \<Longrightarrow> x = y \<or> x \<in> set xs"
  using set_update_subset_insert [of xs i y] by blast

lemma exclusive_writer: "writer_step L p cs q \<Longrightarrow> exclusive p \<Longrightarrow> exclusive q"
proof (induction rule: writer_step.induct)
  case (call p i w err b)
  then show ?case
    by (auto simp: exclusive_def nth_list_update dest!: set_goto)
next
  case (lock p i b)
  then show ?case
    by (auto simp: exclusive_def nth_list_update dest!: set_goto)
next
  case (db_write_open p i b err d)
  then show ?case
    by (auto simp: exclusive_def nth_list_update dest!: set_goto)
next
  case (db_write_closed p i b)
  then show ?case
    by (auto simp: exclusive_def stopping_def)
next
  case (unlock p i err)
  then show ?case
    by (auto simp: exclusive_def nth_list_update dest!: set_goto)
qed

lemma exclusive_signal: "signal_step p q \<Longrightarrow> exclusive p \<Longrightarrow> exclusive q"
  by (induction rule: signal_step.induct) (auto simp: exclusive_def stopping_def)

lemma exclusive_run: "process_run L p bs q \<Longrightarrow> exclusive p \<Longrightarrow> exclusive q"
  by (induction rule: process_run.induct) (auto intro: exclusive_writer exclusive_signal)


subsection \<open>Ending the process\<close>

text \<open>What uninterrupted calls of \<open>db_write\<close> leave in the store.\<close>

definition written :: "'d leveldb \<Rightarrow> batch list \<Rightarrow> 'd \<Rightarrow> 'd" where
  "written L bs d = fold (\<lambda>b d. fst (snd (db_write L d b))) bs d"

lemma writer_disk: "writer_step L p cs q \<Longrightarrow> disk q = written L cs (disk p) \<and> handler q = handler p"
  by (induction rule: writer_step.induct) (simp_all add: written_def db_write_def)

lemma signal_disk: "signal_step p q \<Longrightarrow> disk q = disk p"
  by (induction rule: signal_step.induct) simp_all

lemma run_disk: "process_run L p bs q \<Longrightarrow> disk q = written L bs (disk p)"
proof (induction rule: process_run.induct)
  case (start p)
  then show ?case by (simp add: written_def)
next
  case (writes p bs q cs r)
  then show ?case using writer_disk [OF writes(3)] by (simp add: written_def)
next
  case (signals p bs q r)
  then show ?case using signal_disk by fastforce
qed

lemma not_writing: "exclusive p \<Longrightarrow> stopping (handler p) \<Longrightarrow> i < length (writers p) \<Longrightarrow> \<not> holding (writers p ! i)"
  by (auto simp: exclusive_def)

lemma writer_silent: "writer_step L p cs q \<Longrightarrow> exclusive p \<Longrightarrow> stopping (handler p) \<Longrightarrow> cs = []"
  by (induction rule: writer_step.induct) (use not_writing in fastforce)+

lemma signal_stopping: "signal_step p q \<Longrightarrow> stopping (handler p) \<Longrightarrow> stopping (handler q)"
  by (induction rule: signal_step.induct) (simp_all add: stopping_def)

lemma run_silent:
  "process_run L p bs q \<Longrightarrow> exclusive p \<Longrightarrow> stopping (handler p) \<Longrightarrow> bs = [] \<and> stopping (handler q)"
proof (induction rule: process_run.induct)
  case (writes p bs q cs r)
  with writer_silent [OF writes(3)] exclusive_run [OF writes(1)] writer_disk [OF writes(3)]
  show ?case by simp
qed (auto intro: signal_stopping)

lemma run_append:
  "process_run L q cs r \<Longrightarrow> process_run L p bs q \<Longrightarrow> process_run L p (bs @ cs) r"
proof (induction rule: process_run.induct)
  case (writes q cs r ds t)
  then show ?case
    using process_run.writes [of L p "bs @ cs" r ds t] by simp
next
  case (signals q cs r t)
  then show ?case
    using process_run.signals [of L p "bs @ cs" r t] by simp
qed simp

definition may_exit :: "'d leveldb \<Rightarrow> 'd process \<Rightarrow> bool" where
  "may_exit L p \<longleftrightarrow> (\<exists>bs q. process_run L p bs q \<and> handler q = Exited)"

lemma exited_may_exit: "handler p = Exited \<Longrightarrow> may_exit L p"
  using process_run.start by (fastforce simp: may_exit_def)

lemma signal_may_exit: "signal_step p q \<Longrightarrow> handler p \<noteq> Exited \<Longrightarrow> may_exit L q \<Longrightarrow> may_exit L p"
  unfolding may_exit_def using run_append process_run.signals [OF process_run.start] by blast

lemma writer_may_exit: "writer_step L p cs q \<Longrightarrow> handler p \<noteq> Exited \<Longrightarrow> may_exit L q \<Longrightarrow> may_exit L p"
  unfolding may_exit_def using run_append process_run.writes [OF process_run.start] by blast

lemma stopping_may_exit:
  assumes "stopping (handler p)" "shutdown p \<or> handler p \<in> {Exiting, Exited}"
  shows "may_exit L p"
proof -
  have exiting: "may_exit L q" if "handler q = Exiting" for q :: "'a process"
    by (rule signal_may_exit [OF signal_step.exit]) (simp_all add: that exited_may_exit)
  have releasing: "may_exit L q" if "handler q = Releasing" "shutdown q" for q :: "'a process"
    by (rule signal_may_exit [OF signal_step.release]) (simp_all add: that exiting)
  have "may_exit L q" if "handler q = Closing" "shutdown q" for q :: "'a process"
    by (rule signal_may_exit [OF signal_step.close]) (simp_all add: that releasing)
  with exiting releasing assms show ?thesis
    by (auto simp: stopping_def exited_may_exit)
qed

lemma free_may_exit:
  assumes "\<not> critical p" "shutdown p" "handler p \<in> {Waiting, Notified}"
  shows "may_exit L p"
proof -
  have notified: "may_exit L q" if "\<not> critical q" "shutdown q" "handler q = Notified" for q :: "'a process"
    by (rule signal_may_exit [OF signal_step.stop_lock]) (simp_all add: that stopping_may_exit stopping_def)
  have "may_exit L p" if "handler p = Waiting"
    by (rule signal_may_exit [OF signal_step.signal]) (simp_all add: that notified assms)
  with notified assms show ?thesis by auto
qed

lemma exclusive_may_exit:
  assumes "exclusive p"
  shows "may_exit L p"
proof (cases "stopping (handler p)")
  case True
  with assms show ?thesis
    by (intro stopping_may_exit) (auto simp: exclusive_def)
next
  case False
  then have pc: "handler p \<in> {Waiting, Notified}" "shutdown p" "handler p \<noteq> Exited"
    using assms by (cases "handler p"; simp add: exclusive_def stopping_def)+
  have resetting: "may_exit L q"
    if "at q i (Resetting err)" "handler q = handler p" "shutdown q" for q i err
    by (rule writer_may_exit [OF writer_step.unlock [OF that(1)]])
      (use that pc in \<open>auto intro: free_may_exit\<close>)
  show ?thesis
  proof (cases "critical p")
    case True
    with assms False obtain i where i: "i < length (writers p)" "holding (writers p ! i)"
      by (auto simp: exclusive_def)
    have "\<not> closed p"
      using assms False by (auto simp: exclusive_def stopping_def)
    consider b where "at p i (Writing b)" | err where "at p i (Resetting err)"
      using i by (auto simp: holding_iff)
    then show ?thesis
    proof cases
      case (1 b)
      obtain err d where w: "ldb_write L (disk p) b = (err, d)" by fastforce
      show ?thesis
        by (rule writer_may_exit [OF writer_step.db_write_open [OF 1 \<open>\<not> closed p\<close> w]])
          (use 1 pc in \<open>auto intro!: resetting\<close>)
    next
      case (2 err)
      then show ?thesis using pc by (auto intro: resetting)
    qed
  qed (use pc in \<open>auto intro: free_may_exit\<close>)
qed

text \<open>
  C5. A termination signal is safe at any moment: however the goroutines and the signal handler
  interleave, the database holds exactly the batches handed to it so far, each whole and as
  uninterrupted calls of \<open>db_write\<close> would have left it; no batch is handed to a closed
  database; once the handler is about to close it no goroutine is inside a write and the store
  no longer changes; and from every state the process can still exit, so it cannot deadlock.
\<close>

theorem shutdown_clean:
  assumes "process_run L (setup_graceful_shutdown (process_start d n)) bs p"
  shows "disk p = written L bs d \<and> Refused \<notin> set (writers p)
    \<and> (stopping (handler p) \<longrightarrow> (\<forall>i < length (writers p). \<not> holding (writers p ! i))
         \<and> (\<forall>cs q. process_run L p cs q \<longrightarrow> cs = [] \<and> disk q = disk p))
    \<and> (\<exists>cs q. process_run L p cs q \<and> handler q = Exited)"
proof -
  have ex: "exclusive p"
    using exclusive_run [OF assms exclusive_start] .
  have "disk p = written L bs d"
    using run_disk [OF assms] by (simp add: setup_graceful_shutdown_def process_start_def)
  moreover have "cs = [] \<and> disk q = disk p" if "stopping (handler p)" "process_run L p cs q" for cs q
    using run_silent [OF that(2) ex that(1)] run_disk [OF that(2)] by (simp add: written_def)
  ultimately show ?thesis
    using ex not_writing [OF ex] exclusive_may_exit [OF ex, of L]
    by (simp add: exclusive_def may_exit_def)
qed

text \<open>
  A run of two goroutines: the signal arrives while the first is inside \<open>db.Write\<close>, the second
  comes too late.
\<close>

abbreviation sample_batch :: batch where
  "sample_batch \<equiv> [Put [1] [2]]"

definition sample_process :: "bool \<Rightarrow> batch \<Rightarrow> write_pc list \<Rightarrow> signal_pc \<Rightarrow> batch process" where
  "sample_process locked d ws h =
     \<lparr>critical = locked, shutdown = True, disk = d, closed = (h = Releasing), writers = ws, handler = h\<rparr>"

lemma stop_run:
  "process_run log_store (setup_graceful_shutdown (process_start [] 2)) [sample_batch]
     (sample_process True sample_batch [Returned None, Wants []] Releasing)"
proof -
  let ?start = "setup_graceful_shutdown (process_start [] 2) :: batch process"
  have 0: "process_run log_store ?start [] (sample_process False [] [Idle, Idle] Waiting)"
    using process_run.start [of log_store ?start]
    by (simp add: setup_graceful_shutdown_def process_start_def sample_process_def numeral_2_eq_2)
  have 1: "process_run log_store ?start [] (sample_process False [] [Wants sample_batch, Idle] Waiting)"
    using process_run.writes [OF 0 _ writer_step.call [where i = 0 and w = Idle and b = sample_batch]]
    by (simp add: sample_process_def)
  have 2: "process_run log_store ?start [] (sample_process True [] [Writing sample_batch, Idle] Waiting)"
    using process_run.writes [OF 1 _ writer_step.lock [where i = 0 and b = sample_batch]]
    by (simp add: sample_process_def)
  have 3: "process_run log_store ?start [] (sample_process True [] [Writing sample_batch, Wants []] Notified)"
    using process_run.signals [OF process_run.writes [OF 2 _ writer_step.call [where i = 1 and w = Idle and b = "[]"]]
        _ signal_step.signal]
    by (simp add: sample_process_def)
  have 4: "process_run log_store ?start [sample_batch]
      (sample_process True sample_batch [Resetting None, Wants []] Notified)"
    using process_run.writes [OF 3 _ writer_step.db_write_open [where i = 0 and b = sample_batch and err = None
          and d = sample_batch]]
    by (simp add: sample_process_def log_store_def)
  have 5: "process_run log_store ?start [sample_batch]
      (sample_process False sample_batch [Returned None, Wants []] Notified)"
    using process_run.writes [OF 4 _ writer_step.unlock [where i = 0 and err = None]]
    by (simp add: sample_process_def)
  have 6: "process_run log_store ?start [sample_batch]
      (sample_process True sample_batch [Returned None, Wants []] Closing)"
    using process_run.signals [OF 5 _ signal_step.stop_lock] by (simp add: sample_process_def)
  show ?thesis
    using process_run.signals [OF 6 _ signal_step.close] by (simp add: sample_process_def)
qed

theorem shutdown_clean_witness:
  "\<exists>p. process_run log_store (setup_graceful_shutdown (process_start [] 2)) [sample_batch] p
     \<and> disk p = written log_store [sample_batch] [] \<and> closed p \<and> Refused \<notin> set (writers p)
     \<and> (\<exists>cs q. process_run log_store p cs q \<and> handler q = Exited)"
proof -
  let ?p = "sample_process True sample_batch [Returned None, Wants []] Releasing"
  have "disk ?p = written log_store [sample_batch] [] \<and> Refused \<notin> set (writers ?p)
      \<and> (\<exists>cs q. process_run log_store ?p cs q \<and> handler q = Exited)"
    using shutdown_clean [OF stop_run] by blast
  moreover have "closed ?p" by (simp add: sample_process_def)
  ultimately show ?thesis using stop_run by blast
qed

end
