(* ===== verification/Load_Race.thy ===== *)
theory Load_Race
  imports Node_Limits
begin

section \<open>The recovery runs beside the start\<close>

text \<open>
  The consumer goroutine of \<open>db_load\<close> that finds a corrupted block releases the main goroutine
  (\<open>wait.Unlock()\<close>) before it removes blocks from the database. \<open>db_load_released\<close> is \<open>db_load\<close> up
  to that moment, with the height from which the goroutine still has to remove blocks.
  \<open>DB_Load\<close> has the order in which the removal comes first; here is the other one.
\<close>

fun load_until :: "'l libcomb \<Rightarrow> Block list \<Rightarrow> ('d, 'l) node \<Rightarrow> ('d, 'l) node \<times> u64 option" where
  "load_until C [] s = (s, None)"
| "load_until C (block # blocks) s =
     (if BM_Fingerprint (Blk_Metadata block) \<noteq> db_compute_block_fingerprint (Blk_Commits block)
      then (s, Some (BM_Height (Blk_Metadata block)))
      else case combcore_process_block C block s of
             Inl _ \<Rightarrow> (s, Some 0)
           | Inr s \<Rightarrow> load_until C blocks s)"

definition db_load_released ::
  "'d leveldb \<Rightarrow> 'l libcomb \<Rightarrow> ('d, 'l) node \<Rightarrow> go_stop + ('d, 'l) node \<times> u64 option" where
  "db_load_released L C s =
     try_then (or_else PanicBounds (db_load_blocks L (node_db s) 0 (NOT 0 - 1)))
       (\<lambda>blocks. Inr (load_until C blocks s))"

definition removal_pending ::
  "'d leveldb \<Rightarrow> u64 option \<Rightarrow> ('d, 'l) node \<Rightarrow> go_stop + ('d, 'l) node" where
  "removal_pending L corruption s =
     (case corruption of None \<Rightarrow> Inr s | Some height \<Rightarrow> db_load_recover L height s)"

lemma load_consume_until:
  "db_load_consume L C blocks s = (case load_until C blocks s of (s, c) \<Rightarrow> removal_pending L c s)"
  by (induction blocks arbitrary: s) (auto simp: removal_pending_def split: sum.splits)

lemma load_in_two_steps:
  "db_load L C s = try_then (db_load_released L C s) (\<lambda>(s, c). removal_pending L c s)"
  by (auto simp: db_load_def db_load_released_def load_consume_until or_else_def split: option.splits)

subsection \<open>One block, written at once\<close>

text \<open>
  What \<open>btc_sync\<close> does with a single block, and \<open>push_block\<close> with every block, on a node
  whose memory and database need not agree.
\<close>

definition take_in ::
  "'d leveldb \<Rightarrow> 'l libcomb \<Rightarrow> BlockData \<Rightarrow> ('d, 'l) node \<Rightarrow> go_stop + ('d, 'l) node" where
  "take_in L C d s = try_then (neominer_process_block L C d s) (neominer_write L)"

text \<open>
  A block taken in after the release is removed again, but stays in memory: the node has a gap
  between its database and its tip.
\<close>

definition gap ::
  "'d leveldb \<Rightarrow> 'l libcomb \<Rightarrow> ('l \<Rightarrow> hash256 list list) \<Rightarrow> hash256 \<Rightarrow> u64 \<Rightarrow> Block list \<Rightarrow> Block
     \<Rightarrow> ('d, 'l) node \<Rightarrow> bool" where
  "gap L C loaded cp h as b1 s \<longleftrightarrow> valid_chain cp h (as @ [b1]) \<and> in_memory C loaded cp h (as @ [b1]) s
     \<and> db_holds L (node_db s) as \<and> Neo_Batch s = [] \<and> Neo_BatchCached s = 0 \<and> 1 < Neo_BatchCapacity s"

context comb_node
begin

lemma take_in_block:
  assumes "in_memory C loaded cp h bs s" "valid_chain cp h bs" "BD_Previous d = tip cp bs" "good_data cp h bs d"
    and "db_holds L (node_db s) cs" "Neo_Batch s = []" "Neo_BatchCached s = 0" "1 < Neo_BatchCapacity s"
  defines "b \<equiv> neominer_block d (h + of_nat (length bs) + 1)"
  obtains s' where "take_in L C d s = Inr s'" "in_memory C loaded cp h (bs @ [b]) s'"
    "db_holds L (node_db s') (filter (\<lambda>x. blk_height x < blk_height b) cs @ [b]
       @ filter (\<lambda>x. blk_height b < blk_height x) cs)"
    "Neo_Batch s' = []" "Neo_BatchCached s' = 0" "1 < Neo_BatchCapacity s'"
proof -
  have chain: "valid_chain cp h (bs @ [b])"
    unfolding b_def by (rule neominer_block_extends [OF assms(2-4)])
  then have wf: "wf_block b"
    using valid_chain_wf by (fastforce simp: wf_chain_append)
  obtain ops e where ops: "db_process_block L (node_db s) [] b = (None, ops)"
    "db_write L (node_db s) ops = (None, e, [])"
    and e: "db_holds L e (filter (\<lambda>x. blk_height x < blk_height b) cs @ [b]
       @ filter (\<lambda>x. blk_height b < blk_height x) cs)"
    by (rule process_block_holds [OF assms(5) wf])
  define s1 where "s1 = s\<lparr>Neo_Batch := ops, Neo_BatchCached := Neo_BatchCached s + 1\<rparr>"
  have mem: "in_memory C loaded cp h bs s1"
    using assms(1) by (simp add: s1_def in_memory_def)
  have here: "COMB_Hash s = BD_Previous d" "b = neominer_block d (COMB_Height s + 1)"
    using assms(1,3) by (simp_all add: in_memory_def b_def)
  have "neominer_process_block L C d s = Inr (after_block C b s1)"
    using here ops(1) assms(6,7) process_block_mem(1) [OF mem chain] assms(8) [folded not_le]
    by (simp add: neominer_process_block_def neominer_reorg_def s1_def after_block_def Let_def)
  moreover have "neominer_write L (after_block C b s1) =
      Inr ((after_block C b s1)\<lparr>node_db := e, Neo_Batch := [], Neo_BatchCached := 0\<rparr>)"
    using ops(2) by (simp add: neominer_write_def after_block_def s1_def)
  ultimately have run: "take_in L C d s =
      Inr ((after_block C b s1)\<lparr>node_db := e, Neo_Batch := [], Neo_BatchCached := 0\<rparr>)"
    by (simp add: take_in_def)
  show ?thesis
    using process_block_mem(2) [OF mem chain] e assms(8)
    by (intro that [OF run]) (simp_all add: in_memory_def after_block_def s1_def)
qed

text \<open>The load stops at the first block with a bad fingerprint.\<close>

lemma until_good:
  "in_memory C loaded cp h as s \<Longrightarrow> valid_chain cp h (as @ bs) \<Longrightarrow> list_all good_fingerprint bs \<Longrightarrow>
     load_until C (bs @ cs) s = load_until C cs (fold (after_block C) bs s)"
proof (induction bs arbitrary: as s)
  case (Cons b bs)
  have chain: "valid_chain cp h (as @ [b])"
    using valid_chain_take [of cp h "as @ [b]" bs] Cons.prems(2) by simp
  note process_block_mem [OF Cons.prems(1) chain]
  with Cons.IH [of "as @ [b]" "after_block C b s"] Cons.prems show ?case
    by (simp add: good_fingerprint_def)
qed simp

lemma released_at:
  assumes "db_holds L (node_db s) (as @ b # bs)" "valid_chain cp h (as @ b # bs)"
    and "in_memory C loaded cp h [] s" "list_all good_fingerprint as" "\<not> good_fingerprint b"
  shows "db_load_released L C s = Inr (fold (after_block C) as s, Some (blk_height b))"
proof -
  have "filter (\<lambda>b. blk_height b < NOT 0) (as @ b # bs) = as @ b # bs"
    unfolding filter_id_conv by (rule ballI) (rule valid_chain_below [OF assms(2)])
  then have "db_load_released L C s = Inr (load_until C (zero_block # as @ b # bs) s)"
    using load_blocks_holds [OF assms(1), of 0 "NOT 0 - 1"]
    by (simp add: db_load_released_def Let_def del: load_until.simps filter.simps filter_append)
  also have "load_until C (zero_block # as @ b # bs) s = load_until C (as @ b # bs) s"
    by (simp add: zero_block_def zero_metadata_def combcore_process_block_def db_compute_block_fingerprint_def)
  also have "\<dots> = load_until C (b # bs) (fold (after_block C) as s)"
    using until_good [of cp h "[]" s as "b # bs"] valid_chain_take [OF assms(2)] assms(3,4) by simp
  finally show ?thesis
    using assms(5) by (simp add: good_fingerprint_def)
qed

lemma removal_leaves_gap:
  assumes "valid_chain cp h (as @ b # bs)" "in_memory C loaded cp h as s1" "db_holds L (node_db s1) (as @ b # bs)"
    and "Neo_Batch s1 = []" "Neo_BatchCached s1 = 0" "1 < Neo_BatchCapacity s1"
    and "BD_Previous d = tip cp as" "good_data cp h as d"
  obtains s2 s3 where "take_in L C d s1 = Inr s2" "removal_pending L (Some (blk_height b)) s2 = Inr s3"
    "gap L C loaded cp h as (neominer_block d (blk_height b)) s3"
proof -
  have ht: "blk_height b = h + of_nat (length as) + 1"
    using assms(1) by (simp add: valid_chain_def linked_append)
  define b1 where "b1 = neominer_block d (blk_height b)"
  have b1: "blk_height b1 = blk_height b" by (simp add: b1_def neominer_block_def)
  have chain: "valid_chain cp h as" using assms(1) valid_chain_take by blast
  obtain s2 where s2: "take_in L C d s1 = Inr s2" "in_memory C loaded cp h (as @ [b1]) s2"
    "db_holds L (node_db s2) (filter (\<lambda>x. blk_height x < blk_height b1) (as @ b # bs) @ [b1]
       @ filter (\<lambda>x. blk_height b1 < blk_height x) (as @ b # bs))"
    "Neo_Batch s2 = []" "Neo_BatchCached s2 = 0" "1 < Neo_BatchCapacity s2"
    by (rule take_in_block [OF assms(2) chain assms(7,8,3-6), folded ht b1_def])
  have "filter (\<lambda>x. blk_height x < blk_height b)
      (filter (\<lambda>x. blk_height x < blk_height b1) (as @ b # bs) @ [b1] @ filter (\<lambda>x. blk_height b1 < blk_height x) (as @ b # bs))
    = filter (\<lambda>x. blk_height x < blk_height b) (as @ b # bs)"
    by (auto simp: b1 filter_empty_conv)
  also have "\<dots> = as"
    using valid_chain_wf [OF assms(1)]
    by (auto simp: wf_chain_append filter_id_conv filter_empty_conv dest: less_asym)
  finally obtain e where e: "db_remove_blocks_after L (node_db s2) (blk_height b) = (None, e)" "db_holds L e as"
    using remove_after_holds [OF s2(3), of "blk_height b"] by metis
  have "blk_height b \<noteq> 0"
    using valid_chain_height [OF assms(1), of "length as"] by auto
  then have "removal_pending L (Some (blk_height b)) s2 = Inr (s2\<lparr>node_db := e\<rparr>)"
    using e(1) by (simp add: removal_pending_def db_load_recover_def)
  moreover have "valid_chain cp h (as @ [b1])"
    using neominer_block_extends [OF chain assms(7,8)] by (simp add: b1_def ht)
  then have "gap L C loaded cp h as b1 (s2\<lparr>node_db := e\<rparr>)"
    using s2(2,4-6) e(2) by (simp add: gap_def in_memory_def)
  ultimately show ?thesis
    using that [OF s2(1)] unfolding b1_def by blast
qed

text \<open>The next block is written above the gap, and the database cannot be loaded any more.\<close>

lemma gap_bricks:
  assumes "gap L C loaded cp h as b1 s" "list_all good_fingerprint as"
    and "BD_Previous d2 = blk_hash b1" "good_data cp h (as @ [b1]) d2"
    and "in_memory C loaded cp h [] start" "\<not> node_db_is_new start"
  obtains s' where "take_in L C d2 s = Inr s'"
    "db_start L C (start\<lparr>node_db := node_db s'\<rparr>) = Inl PanicCorruptionZero"
proof -
  have chain1: "valid_chain cp h (as @ [b1])" and mem1: "in_memory C loaded cp h (as @ [b1]) s"
    and disk: "db_holds L (node_db s) as" "Neo_Batch s = []" "Neo_BatchCached s = 0" "1 < Neo_BatchCapacity s"
    using assms(1) by (simp_all add: gap_def)
  define b2 where "b2 = neominer_block d2 (h + of_nat (length (as @ [b1])) + 1)"
  have prev: "BD_Previous d2 = tip cp (as @ [b1])"
    using assms(3) by (simp add: tip_def)
  have chain2: "valid_chain cp h ((as @ [b1]) @ [b2])"
    unfolding b2_def by (rule neominer_block_extends [OF chain1 prev assms(4)])
  then have above: "filter (\<lambda>x. blk_height x < blk_height b2) as @ [b2] @ filter (\<lambda>x. blk_height b2 < blk_height x) as
      = as @ [b2]"
    using valid_chain_wf [OF chain2]
    by (auto simp: wf_chain_append filter_id_conv filter_empty_conv dest: less_asym)
  obtain s' where s': "take_in L C d2 s = Inr s'" "db_holds L (node_db s') (as @ [b2])"
    by (rule take_in_block [OF mem1 chain1 prev assms(4) disk, folded b2_def, unfolded above])
  define s0 where "s0 = start\<lparr>node_db := node_db s', DB_Version := DB_CURRENT_VERSION, DB_InitialLoad := True\<rparr>"
  have db: "db_holds L (node_db s0) (as @ b2 # [])" and mem: "in_memory C loaded cp h [] s0"
    using s'(2) assms(5) by (simp_all add: s0_def in_memory_def)
  have top: "blk_height (last [b2]) < NOT 0"
    using valid_chain_below [OF chain2] by simp
  have off: "blk_previous b2 \<noteq> tip cp as" "blk_hash b2 \<noteq> zero32"
    using chain1 tip_member [of cp as] assms(3,4) by (auto simp: b2_def neominer_block_def good_data_def valid_chain_def)
  have "good_fingerprint b2"
    unfolding b2_def by (rule neominer_block_good)
  then have "db_load L C s0 = Inl PanicCorruptionZero"
    by (rule load_unlinked [OF db valid_chain_take [OF chain1] mem assms(2) _ off top])
  then have "db_start L C (start\<lparr>node_db := node_db s'\<rparr>) = Inl PanicCorruptionZero"
    using version_holds [OF s'(2)] assms(6) by (simp add: db_start_def s0_def)
  with s'(1) show ?thesis by (rule that)
qed

end

subsection \<open>A block that arrives before the removal\<close>

text \<open>
  C16. The recovery can destroy new blocks. When the block on top of the last good one arrives
  between the release of the main goroutine and the removal, it is taken in and written, and
  then removed from the database, while the node keeps it in memory. The next block is stored
  above the gap, and the next start panics with corruption height zero.
\<close>

theorem recovery_race:
  assumes "reliable_store L" "libcomb_chain C loaded"
    and "db_holds L (node_db s) (as @ b # bs)" "valid_chain cp h (as @ b # bs)"
    and "in_memory C loaded cp h [] s" "list_all good_fingerprint as" "\<not> good_fingerprint b"
    and "Neo_Batch s = []" "Neo_BatchCached s = 0" "1 < Neo_BatchCapacity s"
    and "BD_Previous d = tip cp as" "good_data cp h as d"
    and "BD_Previous d2 = BD_Hash d" "good_data cp h (as @ [neominer_block d (blk_height b)]) d2"
    and "in_memory C loaded cp h [] start" "\<not> node_db_is_new start"
  shows "\<exists>s1 s2 s3 s4. db_load_released L C s = Inr (s1, Some (blk_height b))
    \<and> take_in L C d s1 = Inr s2 \<and> removal_pending L (Some (blk_height b)) s2 = Inr s3
    \<and> in_memory C loaded cp h (as @ [neominer_block d (blk_height b)]) s3 \<and> db_holds L (node_db s3) as
    \<and> take_in L C d2 s3 = Inr s4
    \<and> db_start L C (start\<lparr>node_db := node_db s4\<rparr>) = Inl PanicCorruptionZero"
proof -
  note node = comb_nodeI [OF assms(1,2)]
  define s1 where "s1 = fold (after_block C) as s"
  have mem1: "in_memory C loaded cp h as s1"
    using comb_node.consume_good(2) [OF node, of cp h "[]" as s] assms(5,6) valid_chain_take [OF assms(4)]
    by (simp add: s1_def)
  have s1: "db_holds L (node_db s1) (as @ b # bs)" "Neo_Batch s1 = []" "Neo_BatchCached s1 = 0"
    "1 < Neo_BatchCapacity s1"
    using assms(3,8-10) by (simp_all add: s1_def)
  obtain s2 s3 where s3: "take_in L C d s1 = Inr s2" "removal_pending L (Some (blk_height b)) s2 = Inr s3"
    "gap L C loaded cp h as (neominer_block d (blk_height b)) s3"
    by (rule comb_node.removal_leaves_gap [OF node assms(4) mem1 s1 assms(11,12)])
  have "BD_Previous d2 = blk_hash (neominer_block d (blk_height b))"
    using assms(13) by (simp add: neominer_block_def)
  then obtain s4 where s4: "take_in L C d2 s3 = Inr s4"
    "db_start L C (start\<lparr>node_db := node_db s4\<rparr>) = Inl PanicCorruptionZero"
    by (rule comb_node.gap_bricks [OF node s3(3) assms(6) _ assms(14-16)])
  have "db_load_released L C s = Inr (s1, Some (blk_height b))"
    unfolding s1_def by (rule comb_node.released_at [OF node assms(3-7)])
  with s3 s4 show ?thesis
    by (auto simp: gap_def)
qed

theorem recovery_race_witness:
  "\<exists>s1 s2 s3 s4.
      db_load_released log_store plain_libcomb (sample_start\<lparr>node_db := sample_database [sample_1, bad_block]\<rparr>)
        = Inr (s1, Some 12)
    \<and> take_in log_store plain_libcomb (sample_data 121 101 []) s1 = Inr s2
    \<and> removal_pending log_store (Some 12) s2 = Inr s3
    \<and> in_memory plain_libcomb snd (sample_hash 100) 10
        ([sample_1] @ [neominer_block (sample_data 121 101 []) 12]) s3
    \<and> db_holds log_store (node_db s3) [sample_1]
    \<and> take_in log_store plain_libcomb (sample_data 122 121 []) s3 = Inr s4
    \<and> db_start log_store plain_libcomb (sample_start\<lparr>node_db := node_db s4\<rparr>) = Inl PanicCorruptionZero"
proof -
  have at_12: "blk_height bad_block = 12"
    by (simp add: bad_block_def)
  have data: "good_data (sample_hash 100) 10 [sample_1] (sample_data 121 101 [])"
    "good_data (sample_hash 100) 10 ([sample_1] @ [neominer_block (sample_data 121 101 []) 12]) (sample_data 122 121 [])"
    by (simp_all add: sample_data_def good_data_def sample_tips sample_hash_zero neominer_block_def)
  show ?thesis
    by (rule recovery_race [OF log_store_reliable plain_libcomb_chain corrupted_sample(2,1,3,5,4), unfolded at_12])
      (use data sample_start_memory in
        \<open>simp_all add: sample_start_def sample_node_def sample_data_def tip_def sample_tips\<close>)
qed

end
