(* ===== verification/Wallet.thy ===== *)
theory Wallet
  imports Combcore
begin

section \<open>wallet.go: importing, printing and exporting constructs\<close>

text \<open>
  The wallet itself lives in \<open>libcomb\<close>; this file turns its objects into lines of hexadecimal
  text and JSON values and back. Arrays of fixed length are lists. The library's wallet
  operations are the record \<open>WL\<close> of the library interface.
\<close>

subsection \<open>The JSON values\<close>

record Key =
  Key_Public :: string
  Key_Private :: "string list"
  Key_Balance :: u64
  Key_Active :: bool

record Stack =
  Stack_Destination :: string
  Stack_Sum :: u64
  Stack_Change :: string
  Stack_Address :: string
  Stack_Balance :: u64
  Stack_Active :: bool

record UnsignedTransaction =
  UTx_Source :: string
  UTx_Destination :: string
  UTx_ID :: string

record Transaction =
  Transaction_Source :: string
  Transaction_Destination :: string
  Transaction_Signature :: "string list"
  Transaction_Active :: bool
  Transaction_ID :: string

record Decider =
  Decider_Private :: "string list"
  Decider_Tips :: "string list"
  Decider_ID :: string

record MerkleSegment =
  Merkle_Tips :: "string list"
  Merkle_Signature :: "string list"
  Merkle_Branches :: "string list"
  Merkle_Leaf :: string
  Merkle_Next :: string
  Merkle_Balance :: u64
  Merkle_Active :: bool
  Merkle_ID :: string
  Merkle_Root :: string

record UnsignedMerkleSegment =
  UMerkle_Tips :: "string list"
  UMerkle_Next :: string
  UMerkle_Root :: string
  UMerkle_Balance :: u64
  UMerkle_ID :: string

record StringWallet =
  SW_Keys :: "Key list"
  SW_Stacks :: "Stack list"
  SW_TXs :: "Transaction list"
  SW_Deciders :: "Decider list"
  SW_Merkles :: "MerkleSegment list"
  SW_UnsignedMerkles :: "UnsignedMerkleSegment list"

subsection \<open>Loading the bytes of a construct\<close>

text \<open>The chunks \<open>data[i*32 : (i+1)*32]\<close>; the lengths have been checked before.\<close>

definition chunk :: "bytes \<Rightarrow> nat \<Rightarrow> hash256" where
  "chunk data i = take 32 (drop (32 * i) data)"

definition wallet_load_stack :: "'l wallet_lib \<Rightarrow> bytes \<Rightarrow> 'l \<Rightarrow> 'l \<times> (go_error + hash256)" where
  "wallet_load_stack WL data l =
     (if length data \<noteq> 32 + 32 + 8 then (l, Inl ErrStackMalformed)
      else case lib_LoadStack WL
                  \<lparr>LStack_Change = chunk data 0, LStack_Destination = chunk data 1,
                   LStack_Sum = (case get_be64 (drop 64 data) of None \<Rightarrow> 0 | Some v \<Rightarrow> v)\<rparr> l of
             (l, address) \<Rightarrow> (l, Inr address))"

definition wallet_load_key :: "'l wallet_lib \<Rightarrow> bytes \<Rightarrow> 'l \<Rightarrow> 'l \<times> (go_error + hash256)" where
  "wallet_load_key WL data l =
     (if length data \<noteq> 21 * 32 then (l, Inl ErrKeyMalformed)
      else case lib_LoadKey WL \<lparr>LKey_Public = zero32, LKey_Private = map (chunk data) [0..<21]\<rparr> l of
             (l, address) \<Rightarrow> (l, Inr address))"

definition wallet_load_transaction :: "'l wallet_lib \<Rightarrow> bytes \<Rightarrow> 'l \<Rightarrow> 'l \<times> (go_error + hash256)" where
  "wallet_load_transaction WL data l =
     (if length data \<noteq> 23 * 32 then (l, Inl ErrTxMalformed)
      else lib_LoadTransaction WL
             \<lparr>LTx_Source = chunk data 0, LTx_Destination = chunk data 1,
              LTx_Signature = map (\<lambda>i. chunk data (i + 2)) [0..<21]\<rparr> l)"

definition wallet_load_merkle_segment :: "'l wallet_lib \<Rightarrow> bytes \<Rightarrow> 'l \<Rightarrow> 'l \<times> (go_error + hash256)" where
  "wallet_load_merkle_segment WL data l =
     (if length data \<noteq> 22 * 32 then (l, Inl ErrMerkleMalformed)
      else lib_LoadMerkleSegment WL
             \<lparr>LMer_Tips = [chunk data 0, chunk data 1], LMer_Signature = [chunk data 2, chunk data 3],
              LMer_Branches = map (chunk (drop 128 data)) [0..<16],
              LMer_Leaf = chunk (drop (16 * 32) (drop 128 data)) 0,
              LMer_Next = chunk (drop (16 * 32) (drop 128 data)) 1, LMer_Root = zero32\<rparr> l)"

definition wallet_load_unsigned_merkle_segment ::
  "'l wallet_lib \<Rightarrow> bytes \<Rightarrow> 'l \<Rightarrow> 'l \<times> (go_error + hash256)" where
  "wallet_load_unsigned_merkle_segment WL data l =
     (if length data \<noteq> 4 * 32 then (l, Inl ErrUnsignedMerkleMalformed)
      else lib_LoadUnsignedMerkleSegment WL
             \<lparr>LUm_Tips = [chunk data 0, chunk data 1], LUm_Next = chunk data 2, LUm_Root = chunk data 3\<rparr> l)"

text \<open>The old format of a decider has a hash before the two private keys, which is ignored.\<close>

definition wallet_load_decider :: "'l wallet_lib \<Rightarrow> bytes \<Rightarrow> 'l \<Rightarrow> 'l \<times> (go_error + hash256)" where
  "wallet_load_decider WL data l =
     (if length data = 3 * 32 then
        case lib_LoadDecider WL \<lparr>LDec_Private = [chunk data 1, chunk data 2], LDec_Tips = [zero32, zero32]\<rparr> l of
          (l, short) \<Rightarrow> (l, Inr short)
      else if length data = 2 * 32 then
        case lib_LoadDecider WL \<lparr>LDec_Private = [chunk data 0, chunk data 1], LDec_Tips = [zero32, zero32]\<rparr> l of
          (l, short) \<Rightarrow> (l, Inr short)
      else (l, Inl ErrDeciderMalformed))"

subsection \<open>Loading a line\<close>

text \<open>\<open>COMBInfo.Prefix[k]\<close> is the empty string for a key that is not in the map.\<close>

definition prefix_of :: "(string \<rightharpoonup> string) \<Rightarrow> string \<Rightarrow> string" where
  "prefix_of P k = (case P k of None \<Rightarrow> '''' | Some p \<Rightarrow> p)"

text \<open>
  One of the six tests of \<open>wallet_load_construct\<close>: when the line has the prefix, the rest of
  it is decoded and loaded, and the later tests see the line without the prefix.
\<close>

definition load_prefixed ::
  "string \<Rightarrow> (bytes \<Rightarrow> 'l \<Rightarrow> 'l \<times> (go_error + hash256)) \<Rightarrow> string \<times> 'l \<times> (go_error + hash256)
     \<Rightarrow> string \<times> 'l \<times> (go_error + hash256)" where
  "load_prefixed pre load st = (case st of (construct, l, r) \<Rightarrow>
     if prefix pre construct
     then let construct = drop (length pre) construct
          in (construct, load (hex2byte (bytes_of construct)) l)
     else (construct, l, r))"

definition wallet_load_construct ::
  "'l wallet_lib \<Rightarrow> (string \<rightharpoonup> string) \<Rightarrow> string \<Rightarrow> 'l \<Rightarrow> 'l \<times> (go_error + hash256)" where
  "wallet_load_construct WL P construct l =
     snd (load_prefixed (prefix_of P ''unsigned_merkle'') (wallet_load_unsigned_merkle_segment WL)
         (load_prefixed (prefix_of P ''decider'') (wallet_load_decider WL)
         (load_prefixed (prefix_of P ''merkle'') (wallet_load_merkle_segment WL)
         (load_prefixed (prefix_of P ''key'') (wallet_load_key WL)
         (load_prefixed (prefix_of P ''tx'') (wallet_load_transaction WL)
         (load_prefixed (prefix_of P ''stack'') (wallet_load_stack WL)
           (construct, l, Inr zero32)))))))"

text \<open>\<open>strings.Split(data, "\n")\<close>: one more line than there are line ends.\<close>

fun split_lines :: "string \<Rightarrow> string list" where
  "split_lines [] = [[]]"
| "split_lines (c # cs) =
     (if c = CHR 0x0A then [] # split_lines cs
      else (c # hd (split_lines cs)) # tl (split_lines cs))"

definition load_line :: "'l wallet_lib \<Rightarrow> (string \<rightharpoonup> string) \<Rightarrow> string \<Rightarrow> 'l \<Rightarrow> 'l" where
  "load_line WL P line l = (if line = '''' then l else fst (wallet_load_construct WL P line l))"

definition wallet_load :: "'l wallet_lib \<Rightarrow> string \<Rightarrow> ('d, 'l) node \<Rightarrow> ('d, 'l) node" where
  "wallet_load WL data s =
     (let s = combcore_lock_status (combcore_set_status ''Loading Wallet...'' s);
          s = s\<lparr>node_lib := fold (load_line WL (COMB_Prefix s)) (split_lines data) (node_lib s)\<rparr>
      in combcore_set_status ''Idle'' (combcore_unlock_status s))"

subsection \<open>Parsing JSON values\<close>

definition wallet_parse_key :: "Key \<Rightarrow> go_error + lib_key" where
  "wallet_parse_key w =
     try_then (parse_hex (Key_Public w)) (\<lambda>public.
     try_then (map_res parse_hex (Key_Private w)) (\<lambda>private.
     Inr \<lparr>LKey_Public = public, LKey_Private = private\<rparr>))"

definition wallet_parse_stack :: "Stack \<Rightarrow> go_error + lib_stack" where
  "wallet_parse_stack s =
     try_then (parse_hex (Stack_Destination s)) (\<lambda>destination.
     try_then (parse_hex (Stack_Change s)) (\<lambda>change.
     Inr \<lparr>LStack_Change = change, LStack_Destination = destination, LStack_Sum = Stack_Sum s\<rparr>))"

definition wallet_parse_unsigned_transaction :: "UnsignedTransaction \<Rightarrow> go_error + lib_tx" where
  "wallet_parse_unsigned_transaction tx =
     try_then (parse_hex (UTx_Destination tx)) (\<lambda>destination.
     try_then (parse_hex (UTx_Source tx)) (\<lambda>source.
     Inr \<lparr>LTx_Source = source, LTx_Destination = destination, LTx_Signature = replicate 21 zero32\<rparr>))"

definition wallet_parse_transaction :: "Transaction \<Rightarrow> go_error + lib_tx" where
  "wallet_parse_transaction tx =
     try_then (parse_hex (Transaction_Destination tx)) (\<lambda>destination.
     try_then (parse_hex (Transaction_Source tx)) (\<lambda>source.
     try_then (map_res parse_hex (Transaction_Signature tx)) (\<lambda>signature.
     Inr \<lparr>LTx_Source = source, LTx_Destination = destination, LTx_Signature = signature\<rparr>)))"

definition wallet_parse_decider :: "'l wallet_lib \<Rightarrow> Decider \<Rightarrow> go_error + lib_decider" where
  "wallet_parse_decider WL d =
     try_then (map_res parse_hex (Decider_Private d)) (\<lambda>private.
     Inr (lib_RecoverDecider WL \<lparr>LDec_Private = private, LDec_Tips = [zero32, zero32]\<rparr>))"

definition wallet_parse_merkle_segment :: "MerkleSegment \<Rightarrow> go_error + lib_merkle" where
  "wallet_parse_merkle_segment m =
     try_then (map_res parse_hex (Merkle_Tips m)) (\<lambda>tips.
     try_then (map_res parse_hex (Merkle_Signature m)) (\<lambda>signature.
     try_then (parse_hex (Merkle_Leaf m)) (\<lambda>leaf.
     try_then (parse_hex (Merkle_Next m)) (\<lambda>next_hash.
     try_then (map_res parse_hex (Merkle_Branches m)) (\<lambda>branches.
     Inr \<lparr>LMer_Tips = tips, LMer_Signature = signature, LMer_Branches = branches,
          LMer_Leaf = leaf, LMer_Next = next_hash, LMer_Root = zero32\<rparr>)))))"

definition wallet_parse_unsigned_merkle_segment :: "UnsignedMerkleSegment \<Rightarrow> go_error + lib_umerkle" where
  "wallet_parse_unsigned_merkle_segment c =
     try_then (map_res parse_hex (UMerkle_Tips c)) (\<lambda>tips.
     try_then (parse_hex (UMerkle_Next c)) (\<lambda>next_hash.
     try_then (parse_hex (UMerkle_Root c)) (\<lambda>root.
     Inr \<lparr>LUm_Tips = tips, LUm_Next = next_hash, LUm_Root = root\<rparr>)))"

subsection \<open>Printing JSON values\<close>

definition wallet_stringify_key :: "'l wallet_lib \<Rightarrow> 'l \<Rightarrow> lib_key \<Rightarrow> Key" where
  "wallet_stringify_key WL l w =
     \<lparr>Key_Public = stringify_hex (LKey_Public w), Key_Private = map stringify_hex (LKey_Private w),
      Key_Balance = lib_GetBalance WL l (LKey_Public w), Key_Active = lib_KeyActive WL l w\<rparr>"

definition wallet_stringify_stack :: "'l wallet_lib \<Rightarrow> 'l \<Rightarrow> lib_stack \<Rightarrow> Stack" where
  "wallet_stringify_stack WL l s =
     \<lparr>Stack_Destination = stringify_hex (LStack_Destination s), Stack_Sum = LStack_Sum s,
      Stack_Change = stringify_hex (LStack_Change s), Stack_Address = stringify_hex (lib_StackID WL s),
      Stack_Balance = lib_GetBalance WL l (lib_StackID WL s), Stack_Active = lib_StackActive WL l s\<rparr>"

definition wallet_stringify_transaction :: "'l wallet_lib \<Rightarrow> 'l \<Rightarrow> lib_tx \<Rightarrow> Transaction" where
  "wallet_stringify_transaction WL l tx =
     \<lparr>Transaction_Source = stringify_hex (LTx_Source tx),
      Transaction_Destination = stringify_hex (LTx_Destination tx),
      Transaction_Signature = map stringify_hex (LTx_Signature tx),
      Transaction_Active = lib_TransactionActive WL l tx,
      Transaction_ID = stringify_hex (lib_TransactionID WL tx)\<rparr>"

definition wallet_stringify_decider :: "'l wallet_lib \<Rightarrow> lib_decider \<Rightarrow> Decider" where
  "wallet_stringify_decider WL d =
     \<lparr>Decider_Private = map stringify_hex (LDec_Private d), Decider_Tips = map stringify_hex (LDec_Tips d),
      Decider_ID = stringify_hex (lib_DeciderID WL d)\<rparr>"

definition wallet_stringify_unsigned_merkle_segment ::
  "'l wallet_lib \<Rightarrow> 'l \<Rightarrow> lib_umerkle \<Rightarrow> UnsignedMerkleSegment" where
  "wallet_stringify_unsigned_merkle_segment WL l c =
     \<lparr>UMerkle_Tips = map stringify_hex (LUm_Tips c), UMerkle_Next = stringify_hex (LUm_Next c),
      UMerkle_Root = stringify_hex (LUm_Root c),
      UMerkle_Balance = lib_GetBalance WL l (lib_UnsignedMerkleSegmentID WL c),
      UMerkle_ID = stringify_hex (lib_UnsignedMerkleSegmentID WL c)\<rparr>"

definition wallet_stringify_merkle_segment :: "'l wallet_lib \<Rightarrow> 'l \<Rightarrow> lib_merkle \<Rightarrow> MerkleSegment" where
  "wallet_stringify_merkle_segment WL l m =
     \<lparr>Merkle_Tips = map stringify_hex (LMer_Tips m), Merkle_Signature = map stringify_hex (LMer_Signature m),
      Merkle_Branches = map stringify_hex (LMer_Branches m), Merkle_Leaf = stringify_hex (LMer_Leaf m),
      Merkle_Next = stringify_hex (LMer_Next m),
      Merkle_Balance = lib_GetBalance WL l (lib_MerkleSegmentID WL m),
      Merkle_Active = lib_MerkleSegmentActive WL l m,
      Merkle_ID = stringify_hex (lib_MerkleSegmentID WL m), Merkle_Root = stringify_hex (LMer_Root m)\<rparr>"

definition wallet_stringify :: "'l wallet_lib \<Rightarrow> 'l \<Rightarrow> StringWallet" where
  "wallet_stringify WL l =
     \<lparr>SW_Keys = map (wallet_stringify_key WL l) (lib_GetKeys WL l),
      SW_Stacks = map (wallet_stringify_stack WL l) (lib_GetStacks WL l),
      SW_TXs = map (wallet_stringify_transaction WL l) (lib_GetTransactions WL l),
      SW_Deciders = map (wallet_stringify_decider WL) (lib_GetDeciders WL l),
      SW_Merkles = map (wallet_stringify_merkle_segment WL l) (lib_GetMerkleSegments WL l),
      SW_UnsignedMerkles =
        map (wallet_stringify_unsigned_merkle_segment WL l) (lib_GetUnsignedMerkleSegments WL l)\<rparr>"

subsection \<open>Exporting\<close>

definition wallet_export_key :: "(string \<rightharpoonup> string) \<Rightarrow> lib_key \<Rightarrow> string" where
  "wallet_export_key P w = prefix_of P ''key'' @ concat (map stringify_hex (LKey_Private w))"

definition wallet_export_stack :: "(string \<rightharpoonup> string) \<Rightarrow> lib_stack \<Rightarrow> string" where
  "wallet_export_stack P s =
     prefix_of P ''stack'' @ fmt_X (LStack_Change s) @ fmt_X (LStack_Destination s)
     @ fmt_X (uint64_to_bytes (LStack_Sum s))"

definition wallet_export_transaction :: "(string \<rightharpoonup> string) \<Rightarrow> lib_tx \<Rightarrow> string" where
  "wallet_export_transaction P tx =
     prefix_of P ''tx'' @ fmt_X (LTx_Source tx) @ fmt_X (LTx_Destination tx)
     @ concat (map stringify_hex (LTx_Signature tx))"

definition wallet_export_decider :: "(string \<rightharpoonup> string) \<Rightarrow> lib_decider \<Rightarrow> hash256 \<Rightarrow> string" where
  "wallet_export_decider P d next_hash =
     prefix_of P ''decider'' @ fmt_X next_hash @ fmt_X (LDec_Private d ! 0) @ fmt_X (LDec_Private d ! 1)"

definition wallet_export_merkle_segment :: "(string \<rightharpoonup> string) \<Rightarrow> lib_merkle \<Rightarrow> string" where
  "wallet_export_merkle_segment P m =
     prefix_of P ''merkle'' @ fmt_X (LMer_Tips m ! 0) @ fmt_X (LMer_Tips m ! 1)
     @ fmt_X (LMer_Signature m ! 0) @ fmt_X (LMer_Signature m ! 1)
     @ concat (map stringify_hex (LMer_Branches m)) @ fmt_X (LMer_Leaf m) @ fmt_X (LMer_Next m)"

definition wallet_export_unsigned_merkle_segment :: "(string \<rightharpoonup> string) \<Rightarrow> lib_umerkle \<Rightarrow> string" where
  "wallet_export_unsigned_merkle_segment P m =
     prefix_of P ''unsigned_merkle'' @ fmt_X (LUm_Tips m ! 0) @ fmt_X (LUm_Tips m ! 1)
     @ fmt_X (LUm_Next m) @ fmt_X (LUm_Root m)"

definition unlines :: "string list \<Rightarrow> string" where
  "unlines ls = concat (map (\<lambda>line. line @ [CHR 0x0A]) ls)"

definition export_lines :: "'l wallet_lib \<Rightarrow> (string \<rightharpoonup> string) \<Rightarrow> (hash256 \<Rightarrow> bool) \<Rightarrow> 'l \<Rightarrow> string list" where
  "export_lines WL P wanted l =
     map (wallet_export_key P) (filter (\<lambda>k. wanted (lib_KeyID WL k)) (lib_GetKeys WL l))
     @ map (wallet_export_stack P) (filter (\<lambda>s. wanted (lib_StackID WL s)) (lib_GetStacks WL l))
     @ map (wallet_export_transaction P)
         (filter (\<lambda>tx. wanted (lib_TransactionID WL tx)) (lib_GetTransactions WL l))
     @ map (\<lambda>d. wallet_export_decider P d zero32)
         (filter (\<lambda>d. wanted (lib_DeciderID WL d)) (lib_GetDeciders WL l))
     @ map (wallet_export_merkle_segment P)
         (filter (\<lambda>m. wanted (lib_MerkleSegmentID WL m)) (lib_GetMerkleSegments WL l))
     @ map (wallet_export_unsigned_merkle_segment P)
         (filter (\<lambda>m. wanted (lib_UnsignedMerkleSegmentID WL m)) (lib_GetUnsignedMerkleSegments WL l))"

definition wallet_export :: "'l wallet_lib \<Rightarrow> (string \<rightharpoonup> string) \<Rightarrow> 'l \<Rightarrow> string" where
  "wallet_export WL P l = unlines (export_lines WL P (\<lambda>_. True) l)"

definition wallet_export_history ::
  "'l wallet_lib \<Rightarrow> (string \<rightharpoonup> string) \<Rightarrow> hash256 set \<Rightarrow> 'l \<Rightarrow> string" where
  "wallet_export_history WL P history l = unlines (export_lines WL P (\<lambda>id. id \<in> history) l)"

end
