(* ===== verification/Control.thy ===== *)
theory Control
  imports Wallet
begin

section \<open>control.go: the JSON-RPC methods\<close>

text \<open>
  A method takes its decoded arguments and returns the library or node state with an error or
  the reply; what it left in \<open>reply\<close> before an error is not sent. The methods on the wallet
  see the library alone, \<open>l\<close>; the others see the node. Go's \<open>int\<close> is an integer of 64 bits,
  and a conversion from it wraps. Printing to the log is left out.
\<close>

subsection \<open>Loading constructs\<close>

definition LoadTransaction :: "'l wallet_lib \<Rightarrow> Transaction \<Rightarrow> 'l \<Rightarrow> 'l \<times> (go_error + string)" where
  "LoadTransaction WL args l =
     (case wallet_parse_transaction args of
        Inl err \<Rightarrow> (l, Inl err)
      | Inr tx \<Rightarrow>
          (case lib_LoadTransaction WL tx l of
             (l, Inl err) \<Rightarrow> (l, Inl err)
           | (l, Inr ident) \<Rightarrow> (l, Inr (stringify_hex ident))))"

definition LoadKey :: "'l wallet_lib \<Rightarrow> Key \<Rightarrow> 'l \<Rightarrow> 'l \<times> (go_error + string)" where
  "LoadKey WL args l =
     (case wallet_parse_key args of
        Inl err \<Rightarrow> (l, Inl err)
      | Inr w \<Rightarrow> (case lib_LoadKey WL w l of (l, address) \<Rightarrow> (l, Inr (stringify_hex address))))"

definition LoadStack :: "'l wallet_lib \<Rightarrow> Stack \<Rightarrow> 'l \<Rightarrow> 'l \<times> (go_error + string)" where
  "LoadStack WL args l =
     (case wallet_parse_stack args of
        Inl err \<Rightarrow> (l, Inl err)
      | Inr s \<Rightarrow> (case lib_LoadStack WL s l of (l, address) \<Rightarrow> (l, Inr (stringify_hex address))))"

definition LoadDecider :: "'l wallet_lib \<Rightarrow> Decider \<Rightarrow> 'l \<Rightarrow> 'l \<times> (go_error + string)" where
  "LoadDecider WL args l =
     (case wallet_parse_decider WL args of
        Inl err \<Rightarrow> (l, Inl err)
      | Inr d \<Rightarrow> (case lib_LoadDecider WL d l of (l, ident) \<Rightarrow> (l, Inr (stringify_hex ident))))"

definition LoadMerkleSegment :: "'l wallet_lib \<Rightarrow> MerkleSegment \<Rightarrow> 'l \<Rightarrow> 'l \<times> (go_error + string)" where
  "LoadMerkleSegment WL args l =
     (case wallet_parse_merkle_segment args of
        Inl err \<Rightarrow> (l, Inl err)
      | Inr m \<Rightarrow>
          (case lib_LoadMerkleSegment WL m l of
             (l, Inl err) \<Rightarrow> (l, Inl err)
           | (l, Inr ident) \<Rightarrow> (l, Inr (fmt_X ident))))"

definition LoadUnsignedMerkleSegment ::
  "'l wallet_lib \<Rightarrow> UnsignedMerkleSegment \<Rightarrow> 'l \<Rightarrow> 'l \<times> (go_error + string)" where
  "LoadUnsignedMerkleSegment WL args l =
     (case wallet_parse_unsigned_merkle_segment args of
        Inl err \<Rightarrow> (l, Inl err)
      | Inr m \<Rightarrow>
          (case lib_LoadUnsignedMerkleSegment WL m l of
             (l, Inl err) \<Rightarrow> (l, Inl err)
           | (l, Inr ident) \<Rightarrow> (l, Inr (stringify_hex ident))))"

subsection \<open>Making constructs\<close>

definition GenerateKey :: "'l wallet_lib \<Rightarrow> 'l \<Rightarrow> 'l \<times> (go_error + Key)" where
  "GenerateKey WL l = (case lib_NewKey WL l of (l, key) \<Rightarrow> (l, Inr (wallet_stringify_key WL l key)))"

definition GenerateDecider :: "'l wallet_lib \<Rightarrow> 'l \<Rightarrow> 'l \<times> (go_error + Decider)" where
  "GenerateDecider WL l =
     (case lib_NewDecider WL l of (l, decider) \<Rightarrow> (l, Inr (wallet_stringify_decider WL decider)))"

definition ConstructStack :: "'l wallet_lib \<Rightarrow> Stack \<Rightarrow> go_error + Stack" where
  "ConstructStack WL args =
     try_then (wallet_parse_stack args) (\<lambda>s. Inr (args\<lparr>Stack_Address := stringify_hex (lib_StackID WL s)\<rparr>))"

definition ConstructTransaction :: "'l wallet_lib \<Rightarrow> UnsignedTransaction \<Rightarrow> 'l \<Rightarrow> go_error + Transaction" where
  "ConstructTransaction WL args l =
     try_then (wallet_parse_unsigned_transaction args) (\<lambda>tx.
     try_then (lib_SignTransaction WL l tx) (\<lambda>tx.
     Inr (wallet_stringify_transaction WL l tx)))"

record SignDeciderArgs =
  SD_ID :: string
  SD_Destination :: int

definition SignDecider :: "'l wallet_lib \<Rightarrow> SignDeciderArgs \<Rightarrow> 'l \<Rightarrow> go_error + string list" where
  "SignDecider WL args l =
     try_then (parse_hex (SD_ID args)) (\<lambda>ident.
     try_then (lib_LookupDecider WL l ident) (\<lambda>d.
     try_then (lib_SignDecider WL d (word_of_int (SD_Destination args))) (\<lambda>(s0, s1).
     Inr [stringify_hex s0, stringify_hex s1])))"

record ConstructUnsignedMerkleSegmentArgs =
  CU_Tips :: "string list"
  CU_Next :: string
  CU_Root :: string

definition ConstructUnsignedMerkleSegment ::
  "'l wallet_lib \<Rightarrow> ConstructUnsignedMerkleSegmentArgs \<Rightarrow> 'l \<Rightarrow> go_error + UnsignedMerkleSegment" where
  "ConstructUnsignedMerkleSegment WL args l =
     try_then (map_res parse_hex (CU_Tips args)) (\<lambda>tips.
     try_then (parse_hex (CU_Root args)) (\<lambda>root.
     try_then (parse_hex (CU_Next args)) (\<lambda>next_hash.
     Inr (wallet_stringify_unsigned_merkle_segment WL l
            \<lparr>LUm_Tips = tips, LUm_Next = next_hash, LUm_Root = root\<rparr>))))"

subsection \<open>Merkle trees\<close>

text \<open>The array of 65536 leaves: the given ones, then zeros.\<close>

definition max_leaves :: nat where
  "max_leaves = 65536"

definition leaf_array :: "hash256 list \<Rightarrow> hash256 list" where
  "leaf_array leaves = leaves @ replicate (max_leaves - length leaves) zero32"

definition ComputeRoot :: "'l wallet_lib \<Rightarrow> string list \<Rightarrow> go_error + string" where
  "ComputeRoot WL args =
     (if length args > max_leaves then Inl ErrTooManyLeaves
      else try_then (map_res parse_hex args) (\<lambda>leaves.
             Inr (stringify_hex (fst (lib_ComputeProof WL (leaf_array leaves) 0)))))"

record ComputeProofArgs =
  CP_Tree :: "string list"
  CP_Destination :: int

record ComputeProofResult =
  CP_Root :: string
  CP_Leaf :: string
  CP_Branches :: string

definition ComputeProof :: "'l wallet_lib \<Rightarrow> ComputeProofArgs \<Rightarrow> go_error + ComputeProofResult" where
  "ComputeProof WL args =
     (if length (CP_Tree args) > max_leaves then Inl ErrTooManyLeaves
      else if CP_Destination args < 0 \<or> CP_Destination args > 65535 then Inl ErrDestinationRange
      else try_then (map_res parse_hex (CP_Tree args)) (\<lambda>leaves.
             case lib_ComputeProof WL (leaf_array leaves) (word_of_int (CP_Destination args)) of
               (root, branches, leaf) \<Rightarrow>
                 Inr \<lparr>CP_Root = stringify_hex root, CP_Leaf = stringify_hex leaf,
                      CP_Branches = concat (map stringify_hex branches)\<rparr>))"

record DecideMerkleSegmentArgs =
  DM_Address :: string
  DM_Signature :: "string list"
  DM_Branches :: string
  DM_Leaf :: string

text \<open>The 16 substrings \<open>args.Branches[i*64 : (i+1)*64]\<close>; the length has been checked before.\<close>

definition branch_strings :: "string \<Rightarrow> string list" where
  "branch_strings s = map (\<lambda>i. take 64 (drop (64 * i) s)) [0..<16]"

definition DecideMerkleSegment ::
  "'l wallet_lib \<Rightarrow> DecideMerkleSegmentArgs \<Rightarrow> 'l \<Rightarrow> go_error + MerkleSegment" where
  "DecideMerkleSegment WL args l =
     try_then (parse_hex (DM_Address args)) (\<lambda>address.
     try_then (map_res parse_hex (DM_Signature args)) (\<lambda>signature.
     if length (DM_Branches args) \<noteq> 16 * 32 * 2 then Inl ErrBranchesLength
     else
       try_then (map_res parse_hex (branch_strings (DM_Branches args))) (\<lambda>branches.
       try_then (parse_hex (DM_Leaf args)) (\<lambda>leaf.
       try_then (lib_LookupUnsignedMerkleSegment WL l address) (\<lambda>u.
       try_then (lib_RecoverMerkleSegment WL
                   \<lparr>LMer_Tips = LUm_Tips u, LMer_Signature = signature, LMer_Branches = branches,
                    LMer_Leaf = leaf, LMer_Next = LUm_Next u, LMer_Root = zero32\<rparr>) (\<lambda>m.
       if lib_MerkleSegmentID WL m \<noteq> lib_UnsignedMerkleSegmentID WL u then Inl ErrAddressMismatch
       else Inr (wallet_stringify_merkle_segment WL l m)))))))"

subsection \<open>Commits and balances\<close>

definition GetAddressBalance :: "'l wallet_lib \<Rightarrow> string \<Rightarrow> 'l \<Rightarrow> go_error + u64" where
  "GetAddressBalance WL args l = try_then (parse_hex args) (\<lambda>address. Inr (lib_GetBalance WL l address))"

definition CommitAddress :: "'l wallet_lib \<Rightarrow> string \<Rightarrow> go_error + string" where
  "CommitAddress WL args = try_then (parse_hex args) (\<lambda>address. Inr (stringify_hex (lib_Commit WL address)))"

text \<open>Two loops that append to the reply, and return at the first address that does not parse.\<close>

definition CommitAddresses :: "'l wallet_lib \<Rightarrow> string list \<Rightarrow> go_error + string list" where
  "CommitAddresses WL args =
     fold_res (\<lambda>a reply. try_then (parse_hex a) (\<lambda>address.
       Inr (reply @ [stringify_hex (lib_Commit WL address)]))) args []"

definition CheckAddresses :: "'l wallet_lib \<Rightarrow> string list \<Rightarrow> 'l \<Rightarrow> go_error + string list" where
  "CheckAddresses WL args l =
     fold_res (\<lambda>a reply. try_then (parse_hex a) (\<lambda>address.
       Inr (if \<not> lib_HaveCommit WL l (lib_Commit WL address) then reply @ [a] else reply))) args []"

definition GetCOMBBase :: "'l wallet_lib \<Rightarrow> int \<Rightarrow> 'l \<Rightarrow> go_error + string" where
  "GetCOMBBase WL args l =
     try_then (lib_GetCOMBBase WL l (word_of_int args)) (\<lambda>combbase. Inr (stringify_hex combbase))"

definition GetTag :: "'l wallet_lib \<Rightarrow> string \<Rightarrow> 'l \<Rightarrow> go_error + tag" where
  "GetTag WL args l = try_then (parse_hex args) (\<lambda>commit. lib_GetCommitTag WL l commit)"

subsection \<open>The wallet and the node\<close>

definition GetCoinHistory :: "'l wallet_lib \<Rightarrow> string \<Rightarrow> ('d, 'l) node \<Rightarrow> go_error + string" where
  "GetCoinHistory WL args s =
     try_then (parse_hex args) (\<lambda>address.
       Inr (wallet_export_history WL (COMB_Prefix s) (lib_GetCoinHistory WL (node_lib s) address) (node_lib s)))"

definition LoadWallet :: "'l wallet_lib \<Rightarrow> string \<Rightarrow> ('d, 'l) node \<Rightarrow> ('d, 'l) node \<times> (go_error + unit)" where
  "LoadWallet WL args s = (wallet_load WL args s, Inr ())"

definition SaveWallet :: "'l wallet_lib \<Rightarrow> ('d, 'l) node \<Rightarrow> go_error + string" where
  "SaveWallet WL s = Inr (wallet_export WL (COMB_Prefix s) (node_lib s))"

definition GetWallet :: "'l wallet_lib \<Rightarrow> 'l \<Rightarrow> go_error + StringWallet" where
  "GetWallet WL l = Inr (wallet_stringify WL l)"

record BlockReply =
  BR_Hash :: string
  BR_Height :: int

text \<open>The reads of the database can panic on a malformed entry: \<open>None\<close>.\<close>

definition GetBlockByHeight :: "'d leveldb \<Rightarrow> int \<Rightarrow> ('d, 'l) node \<Rightarrow> BlockReply option" where
  "GetBlockByHeight L args s =
     map_option (\<lambda>metadata. \<lparr>BR_Hash = stringify_hex (BM_Hash metadata), BR_Height = sint (BM_Height metadata)\<rparr>)
       (db_get_block_by_height L (node_db s) (word_of_int args))"

record StatusInfo =
  SI_COMBHeight :: u64
  SI_BTCHeight :: u64
  SI_BTCKnownHeight :: u64
  SI_Commits :: u64
  SI_Status :: string
  SI_Network :: string

definition GetStatus :: "'l wallet_lib \<Rightarrow> ('d, 'l) node \<Rightarrow> StatusInfo" where
  "GetStatus WL s =
     \<lparr>SI_COMBHeight = COMB_Height s, SI_BTCHeight = Chain_Height (BTC_Chain s),
      SI_BTCKnownHeight = Chain_KnownHeight (BTC_Chain s), SI_Commits = lib_GetCommitCount WL (node_lib s),
      SI_Status = COMB_Status s, SI_Network = COMB_Network s\<rparr>"

definition GetFingerprint :: "'d leveldb \<Rightarrow> ('d, 'l) node \<Rightarrow> string option" where
  "GetFingerprint L s = map_option stringify_hex (db_compute_db_fingerprint L (node_db s))"

end
