(* ===== verification/Rpc_Server.thy ===== *)
theory Rpc_Server
  imports Control Config
begin

section \<open>rpc.go: JSON-RPC over HTTP\<close>

text \<open>
  \<open>httpHandler\<close> lets \<open>net/rpc\<close> serve one request: it reads the request's method, looks the method
  up among those of the registered \<open>Control\<close>, decodes the only parameter into the argument type
  of the method, calls it and writes the reply or the error, with the identifier of the request.
  \<open>HttpConnection\<close> hands reads on to the request body and writes to the response, so that a
  request is its body and a response the bytes written, \<open>None\<close> if there are none. The JSON text
  format is a parameter: \<open>'j\<close> is a JSON value, and \<open>json_codec\<close> has a decoder for every argument
  type, the decoder of a request and the encoder of a response.
\<close>

subsection \<open>Values on the wire\<close>

datatype rpc_reply =
    ReplyString string
  | ReplyStrings "string list"
  | ReplyNumber u64
  | ReplyKey Key
  | ReplyStack Stack
  | ReplyTransaction Transaction
  | ReplyDecider Decider
  | ReplyMerkle MerkleSegment
  | ReplyUnsigned UnsignedMerkleSegment
  | ReplyProof ComputeProofResult
  | ReplyTag tag
  | ReplyWallet StringWallet
  | ReplyBlock BlockReply
  | ReplyStatus StatusInfo
  | ReplyEmpty

text \<open>A request is its method, identifier and parameters; both of the latter may be missing.\<close>

record 'j json_codec =
  rpc_request :: "bytes \<Rightarrow> (string \<times> 'j option \<times> 'j option) option"
  rpc_response :: "'j option \<Rightarrow> go_error + rpc_reply \<Rightarrow> bytes"
  arg_transaction :: "'j \<Rightarrow> go_error + Transaction"
  arg_unsigned_transaction :: "'j \<Rightarrow> go_error + UnsignedTransaction"
  arg_key :: "'j \<Rightarrow> go_error + Key"
  arg_stack :: "'j \<Rightarrow> go_error + Stack"
  arg_decider :: "'j \<Rightarrow> go_error + Decider"
  arg_merkle :: "'j \<Rightarrow> go_error + MerkleSegment"
  arg_unsigned_merkle :: "'j \<Rightarrow> go_error + UnsignedMerkleSegment"
  arg_sign_decider :: "'j \<Rightarrow> go_error + SignDeciderArgs"
  arg_construct_unsigned :: "'j \<Rightarrow> go_error + ConstructUnsignedMerkleSegmentArgs"
  arg_compute_proof :: "'j \<Rightarrow> go_error + ComputeProofArgs"
  arg_decide :: "'j \<Rightarrow> go_error + DecideMerkleSegmentArgs"
  arg_string :: "'j \<Rightarrow> go_error + string"
  arg_strings :: "'j \<Rightarrow> go_error + string list"
  arg_int :: "'j \<Rightarrow> go_error + int"
  arg_any :: "'j \<Rightarrow> go_error + unit"
  arg_empty :: "'j \<Rightarrow> go_error + unit"

subsection \<open>The registered methods\<close>

text \<open>A call changes the node and returns an error or a reply, or panics.\<close>

datatype call_result = Returned "go_error + rpc_reply" | Panicked

type_synonym ('d, 'l, 'j) rpc_method = "'j \<Rightarrow> ('d, 'l) node \<Rightarrow> ('d, 'l) node \<times> call_result"

definition decoded ::
  "('j \<Rightarrow> go_error + 'a) \<Rightarrow> ('a \<Rightarrow> ('d, 'l) node \<Rightarrow> ('d, 'l) node \<times> call_result) \<Rightarrow> ('d, 'l, 'j) rpc_method" where
  "decoded dec call j s = (case dec j of Inl err \<Rightarrow> (s, Returned (Inl err)) | Inr args \<Rightarrow> call args s)"

definition on_wallet ::
  "('a \<Rightarrow> rpc_reply) \<Rightarrow> ('l \<Rightarrow> 'l \<times> (go_error + 'a)) \<Rightarrow> ('d, 'l) node \<Rightarrow> ('d, 'l) node \<times> call_result" where
  "on_wallet reply call s =
     (case call (node_lib s) of (l, r) \<Rightarrow> (s\<lparr>node_lib := l\<rparr>, Returned (map_sum id reply r)))"

definition answer ::
  "('a \<Rightarrow> rpc_reply) \<Rightarrow> (go_error + 'a) \<Rightarrow> ('d, 'l) node \<Rightarrow> ('d, 'l) node \<times> call_result" where
  "answer reply r s = (s, Returned (map_sum id reply r))"

definition or_panic ::
  "('a \<Rightarrow> rpc_reply) \<Rightarrow> 'a option \<Rightarrow> ('d, 'l) node \<Rightarrow> ('d, 'l) node \<times> call_result" where
  "or_panic reply r s = (s, case r of None \<Rightarrow> Panicked | Some v \<Rightarrow> Returned (Inr (reply v)))"

definition control_methods ::
  "'l wallet_lib \<Rightarrow> 'd leveldb \<Rightarrow> 'j json_codec \<Rightarrow> (string \<times> ('d, 'l, 'j) rpc_method) list" where
  "control_methods WL L J =
    [(''LoadTransaction'', decoded (arg_transaction J) (\<lambda>a. on_wallet ReplyString (LoadTransaction WL a))),
     (''LoadKey'', decoded (arg_key J) (\<lambda>a. on_wallet ReplyString (LoadKey WL a))),
     (''LoadStack'', decoded (arg_stack J) (\<lambda>a. on_wallet ReplyString (LoadStack WL a))),
     (''LoadDecider'', decoded (arg_decider J) (\<lambda>a. on_wallet ReplyString (LoadDecider WL a))),
     (''LoadMerkleSegment'', decoded (arg_merkle J) (\<lambda>a. on_wallet ReplyString (LoadMerkleSegment WL a))),
     (''GenerateKey'', decoded (arg_any J) (\<lambda>_. on_wallet ReplyKey (GenerateKey WL))),
     (''ConstructStack'', decoded (arg_stack J) (\<lambda>a. answer ReplyStack (ConstructStack WL a))),
     (''GenerateDecider'', decoded (arg_any J) (\<lambda>_. on_wallet ReplyDecider (GenerateDecider WL))),
     (''ConstructTransaction'', decoded (arg_unsigned_transaction J) (\<lambda>a s.
        answer ReplyTransaction (ConstructTransaction WL a (node_lib s)) s)),
     (''SignDecider'', decoded (arg_sign_decider J) (\<lambda>a s.
        answer ReplyStrings (SignDecider WL a (node_lib s)) s)),
     (''ConstructUnsignedMerkleSegment'', decoded (arg_construct_unsigned J) (\<lambda>a s.
        answer ReplyUnsigned (ConstructUnsignedMerkleSegment WL a (node_lib s)) s)),
     (''LoadUnsignedMerkleSegment'', decoded (arg_unsigned_merkle J) (\<lambda>a.
        on_wallet ReplyString (LoadUnsignedMerkleSegment WL a))),
     (''ComputeRoot'', decoded (arg_strings J) (\<lambda>a. answer ReplyString (ComputeRoot WL a))),
     (''ComputeProof'', decoded (arg_compute_proof J) (\<lambda>a. answer ReplyProof (ComputeProof WL a))),
     (''DecideMerkleSegment'', decoded (arg_decide J) (\<lambda>a s.
        answer ReplyMerkle (DecideMerkleSegment WL a (node_lib s)) s)),
     (''GetAddressBalance'', decoded (arg_string J) (\<lambda>a s.
        answer ReplyNumber (GetAddressBalance WL a (node_lib s)) s)),
     (''CommitAddress'', decoded (arg_string J) (\<lambda>a. answer ReplyString (CommitAddress WL a))),
     (''CommitAddresses'', decoded (arg_strings J) (\<lambda>a. answer ReplyStrings (CommitAddresses WL a))),
     (''CheckAddresses'', decoded (arg_strings J) (\<lambda>a s.
        answer ReplyStrings (CheckAddresses WL a (node_lib s)) s)),
     (''GetCOMBBase'', decoded (arg_int J) (\<lambda>a s. answer ReplyString (GetCOMBBase WL a (node_lib s)) s)),
     (''GetTag'', decoded (arg_string J) (\<lambda>a s. answer ReplyTag (GetTag WL a (node_lib s)) s)),
     (''GetCoinHistory'', decoded (arg_string J) (\<lambda>a s. answer ReplyString (GetCoinHistory WL a s) s)),
     (''LoadWallet'', decoded (arg_string J) (\<lambda>a s.
        case LoadWallet WL a s of (s, r) \<Rightarrow> answer (\<lambda>_. ReplyEmpty) r s)),
     (''SaveWallet'', decoded (arg_empty J) (\<lambda>_ s. answer ReplyString (SaveWallet WL s) s)),
     (''GetWallet'', decoded (arg_empty J) (\<lambda>_ s. answer ReplyWallet (GetWallet WL (node_lib s)) s)),
     (''GetBlockByHeight'', decoded (arg_int J) (\<lambda>a s. or_panic ReplyBlock (GetBlockByHeight L a s) s)),
     (''GetStatus'', decoded (arg_empty J) (\<lambda>_ s. or_panic ReplyStatus (Some (GetStatus WL s)) s)),
     (''GetFingerprint'', decoded (arg_empty J) (\<lambda>_ s. or_panic ReplyString (GetFingerprint L s) s))]"

subsection \<open>Serving a request\<close>

text \<open>The service is what stands before the last dot of the requested method.\<close>

definition split_last :: "'a \<Rightarrow> 'a list \<Rightarrow> ('a list \<times> 'a list) option" where
  "split_last c xs =
     (if c \<in> set xs
      then Some (rev (tl (dropWhile (\<lambda>x. x \<noteq> c) (rev xs))), rev (takeWhile (\<lambda>x. x \<noteq> c) (rev xs)))
      else None)"

definition find_method ::
  "(string \<times> 'm) list \<Rightarrow> string \<Rightarrow> go_error + 'm" where
  "find_method methods service_method =
     (case split_last (CHR ''.'') service_method of
        None \<Rightarrow> Inl (ErrExternal (''rpc: service/method request ill-formed: '' @ service_method))
      | Some (service, name) \<Rightarrow>
          if service \<noteq> ''Control'' then Inl (ErrExternal (''rpc: can'' @ [CHR 0x27] @ ''t find service '' @ service_method))
          else case map_of methods name of
                 None \<Rightarrow> Inl (ErrExternal (''rpc: can'' @ [CHR 0x27] @ ''t find method '' @ service_method))
               | Some m \<Rightarrow> Inr m)"

text \<open>
  A request that cannot be decoded gets no response; neither does one whose method panics, whose
  panic \<open>net/http\<close> recovers.
\<close>

definition httpHandler ::
  "'l wallet_lib \<Rightarrow> 'd leveldb \<Rightarrow> 'j json_codec \<Rightarrow> bytes \<Rightarrow> ('d, 'l) node \<Rightarrow> ('d, 'l) node \<times> bytes option" where
  "httpHandler WL L J body s =
     (case rpc_request J body of
        None \<Rightarrow> (s, None)
      | Some (service_method, ident, params) \<Rightarrow>
          (case find_method (control_methods WL L J) service_method of
             Inl err \<Rightarrow> (s, Some (rpc_response J ident (Inl err)))
           | Inr call \<Rightarrow>
               (case params of
                  None \<Rightarrow> (s, Some (rpc_response J ident (Inl (ErrExternal ''jsonrpc: request body missing params''))))
                | Some j \<Rightarrow>
                    (case call j s of
                       (s, Panicked) \<Rightarrow> (s, None)
                     | (s, Returned r) \<Rightarrow> (s, Some (rpc_response J ident r))))))"

subsection \<open>Listening\<close>

text \<open>
  \<open>listen\<close> says whether an address can be bound. A failure is logged, and the node goes on without
  its RPC server; \<open>rpc_start\<close> is whether it has one.
\<close>

definition rpc_serve :: "flags \<Rightarrow> (string \<Rightarrow> go_error option) \<Rightarrow> go_error option" where
  "rpc_serve F listen = listen (comb_host F @ '':'' @ fmt_d (comb_port F))"

definition rpc_start :: "flags \<Rightarrow> (string \<Rightarrow> go_error option) \<Rightarrow> bool" where
  "rpc_start F listen \<longleftrightarrow> rpc_serve F listen = None"

end
