(* ===== verification/Sample_Lib.thy ===== *)
theory Sample_Lib
  imports Libcomb Sha256
begin

section \<open>A concrete library for the witnesses\<close>

text \<open>
  \<open>plain_libcomb\<close> extended by a wallet: the state is the state of the block handling and the
  list of the stacks that were loaded; every other construct is accepted and forgotten.
\<close>

definition with_wallet :: "'c libcomb \<Rightarrow> ('c \<times> 'w) libcomb" where
  "with_wallet C =
     \<lparr>lib_LoadBlock = (\<lambda>b. apfst (lib_LoadBlock C b)),
      lib_UnloadBlock = (\<lambda>(c, w). case lib_UnloadBlock C c of (c, h) \<Rightarrow> ((c, w), h)),
      lib_FinishReorg = apfst (lib_FinishReorg C),
      lib_GetHeight = (\<lambda>(c, w). lib_GetHeight C c),
      lib_SetHeight = (\<lambda>h. apfst (lib_SetHeight C h)),
      lib_Reset = apfst (lib_Reset C),
      lib_SwitchToTestnet = apfst (lib_SwitchToTestnet C)\<rparr>"

definition stack_lib :: "('c \<times> lib_stack list) wallet_lib" where
  "stack_lib =
     \<lparr>lib_LoadKey = (\<lambda>k l. (l, LKey_Public k)),
      lib_LoadStack = (\<lambda>s l. (apsnd (\<lambda>stacks. stacks @ [s]) l, LStack_Change s)),
      lib_LoadTransaction = (\<lambda>tx l. (l, Inr (LTx_Source tx))), lib_LoadDecider = (\<lambda>d l. (l, zero32)),
      lib_LoadMerkleSegment = (\<lambda>m l. (l, Inr (LMer_Root m))),
      lib_LoadUnsignedMerkleSegment = (\<lambda>m l. (l, Inr (LUm_Root m))),
      lib_GetKeys = (\<lambda>l. []), lib_GetStacks = snd, lib_GetTransactions = (\<lambda>l. []),
      lib_GetDeciders = (\<lambda>l. []), lib_GetMerkleSegments = (\<lambda>l. []), lib_GetUnsignedMerkleSegments = (\<lambda>l. []),
      lib_KeyID = LKey_Public, lib_StackID = LStack_Change, lib_TransactionID = LTx_Source,
      lib_DeciderID = (\<lambda>d. zero32), lib_MerkleSegmentID = LMer_Leaf, lib_UnsignedMerkleSegmentID = LUm_Next,
      lib_KeyActive = (\<lambda>l k. False), lib_StackActive = (\<lambda>l s. s \<in> set (snd l)),
      lib_TransactionActive = (\<lambda>l tx. False), lib_MerkleSegmentActive = (\<lambda>l m. False),
      lib_GetBalance = (\<lambda>l h. 0),
      lib_NewKey = (\<lambda>l. (l, \<lparr>LKey_Public = zero32, LKey_Private = replicate 21 zero32\<rparr>)),
      lib_NewDecider = (\<lambda>l. (l, \<lparr>LDec_Private = [zero32, zero32], LDec_Tips = [zero32, zero32]\<rparr>)),
      lib_SignTransaction = (\<lambda>l tx. Inr tx), lib_RecoverDecider = (\<lambda>d. d),
      lib_LookupDecider = (\<lambda>l h. Inr \<lparr>LDec_Private = [h, h], LDec_Tips = [h, h]\<rparr>),
      lib_SignDecider = (\<lambda>d n. Inr (zero32, zero32)),
      lib_LookupUnsignedMerkleSegment = (\<lambda>l h. Inr \<lparr>LUm_Tips = [h, h], LUm_Next = h, LUm_Root = h\<rparr>),
      lib_RecoverMerkleSegment = Inr,
      lib_ComputeProof = (\<lambda>tree n. (tree ! 0, replicate 16 zero32, tree ! unat n)),
      lib_Commit = sha256, lib_HaveCommit = (\<lambda>l h. False),
      lib_GetCOMBBase = (\<lambda>l h. Inr zero32), lib_GetCommitTag = (\<lambda>l h. Inr \<lparr>Tag_Height = 0, Tag_Order = 0\<rparr>),
      lib_GetCoinHistory = (\<lambda>l h. {h}), lib_GetCommitCount = (\<lambda>l. of_nat (length (snd l))),
      lib_GetBlockCommits = (\<lambda>l h. [(replicate 32 2, \<lparr>Tag_Height = h, Tag_Order = 1\<rparr>),
                                    (replicate 32 1, \<lparr>Tag_Height = h, Tag_Order = 0\<rparr>)])\<rparr>"

definition some_stack :: lib_stack where
  "some_stack = \<lparr>LStack_Change = replicate 32 3, LStack_Destination = replicate 32 4, LStack_Sum = 1000\<rparr>"

lemma with_wallet_simps [simp]:
  "lib_GetHeight (with_wallet C) l = lib_GetHeight C (fst l)"
  "lib_LoadBlock (with_wallet C) b l = (lib_LoadBlock C b (fst l), snd l)"
  by (simp_all add: with_wallet_def apfst_def map_prod_def split: prod.splits)

interpretation stacks: wallet_chain "with_wallet plain_libcomb" "\<lambda>l. snd (fst l)" stack_lib
  by unfold_locales
    (auto simp: with_wallet_def plain_libcomb_def stack_lib_def keeps_blocks_def split: prod.splits)

lemma stacks_chain: "wallet_chain (with_wallet plain_libcomb) (\<lambda>l. snd (fst l)) stack_lib"
  by (rule stacks.wallet_chain_axioms)

end
