(* ===== verification/Wallet_Correct.thy ===== *)
theory Wallet_Correct
  imports Wallet Sample_Lib
begin

section \<open>What the wallet exports, it can load\<close>

text \<open>
  The six kinds of constructs share one format: a prefix, then the bytes of the object in
  hexadecimal. The locale \<open>construct_format\<close> is that contract; it is interpreted for each kind
  on the loader and the exporter of that kind, and its lemma gives the round trip through
  \<open>wallet_load_construct\<close>. Arrays of the library have their fixed lengths in \<open>wf_key\<close> etc.
\<close>

subsection \<open>Well-formed objects\<close>

definition wf_key :: "lib_key \<Rightarrow> bool" where
  "wf_key w \<longleftrightarrow> is32 (LKey_Public w) \<and> length (LKey_Private w) = 21 \<and> list_all is32 (LKey_Private w)"

definition wf_stack :: "lib_stack \<Rightarrow> bool" where
  "wf_stack s \<longleftrightarrow> is32 (LStack_Change s) \<and> is32 (LStack_Destination s)"

definition wf_ltx :: "lib_tx \<Rightarrow> bool" where
  "wf_ltx tx \<longleftrightarrow> is32 (LTx_Source tx) \<and> is32 (LTx_Destination tx)
     \<and> length (LTx_Signature tx) = 21 \<and> list_all is32 (LTx_Signature tx)"

definition wf_decider :: "lib_decider \<Rightarrow> bool" where
  "wf_decider d \<longleftrightarrow> (\<exists>a b. LDec_Private d = [a, b] \<and> is32 a \<and> is32 b)"

definition wf_merkle :: "lib_merkle \<Rightarrow> bool" where
  "wf_merkle m \<longleftrightarrow> (\<exists>a b. LMer_Tips m = [a, b] \<and> is32 a \<and> is32 b)
     \<and> (\<exists>a b. LMer_Signature m = [a, b] \<and> is32 a \<and> is32 b)
     \<and> length (LMer_Branches m) = 16 \<and> list_all is32 (LMer_Branches m)
     \<and> is32 (LMer_Leaf m) \<and> is32 (LMer_Next m)"

definition wf_umerkle :: "lib_umerkle \<Rightarrow> bool" where
  "wf_umerkle m \<longleftrightarrow> (\<exists>a b. LUm_Tips m = [a, b] \<and> is32 a \<and> is32 b)
     \<and> is32 (LUm_Next m) \<and> is32 (LUm_Root m)"

lemmas wf_objects = wf_key_def wf_stack_def wf_ltx_def wf_decider_def wf_merkle_def wf_umerkle_def

subsection \<open>Bytes of an object\<close>

lemma concat32_length: "list_all is32 hs \<Longrightarrow> length (concat hs) = 32 * length hs"
  by (induction hs) auto

lemma drop_concat32: "list_all is32 hs \<Longrightarrow> k \<le> length hs \<Longrightarrow> drop (32 * k) (concat hs @ r) = concat (drop k hs) @ r"
proof (induction k arbitrary: hs)
  case (Suc k)
  then obtain h t where "hs = h # t" by (cases hs) auto
  with Suc show ?case by simp
qed simp

lemma chunk_concat:
  assumes "list_all is32 hs" "i < length hs"
  shows "chunk (concat hs @ r) i = hs ! i"
proof -
  have "drop i hs = hs ! i # drop (Suc i) hs"
    using assms(2) by (simp add: Cons_nth_drop_Suc)
  moreover have "is32 (hs ! i)"
    using assms by (simp add: list_all_length)
  ultimately show ?thesis
    using assms drop_concat32 [of hs i r] by (simp add: chunk_def)
qed

lemma chunk_concat_exact: "list_all is32 hs \<Longrightarrow> i < length hs \<Longrightarrow> chunk (concat hs) i = hs ! i"
  using chunk_concat [of hs i "[]"] by simp

lemma chunks_concat:
  "list_all is32 hs \<Longrightarrow> length hs = k + n \<Longrightarrow> map (\<lambda>i. chunk (concat hs) (i + k)) [0..<n] = drop k hs"
  by (intro nth_equalityI) (auto simp: chunk_concat_exact add.commute)

definition key_bytes :: "lib_key \<Rightarrow> bytes" where
  "key_bytes w = concat (LKey_Private w)"

definition stack_bytes :: "lib_stack \<Rightarrow> bytes" where
  "stack_bytes s = concat [LStack_Change s, LStack_Destination s] @ put_be64 (LStack_Sum s)"

definition tx_bytes :: "lib_tx \<Rightarrow> bytes" where
  "tx_bytes tx = concat (LTx_Source tx # LTx_Destination tx # LTx_Signature tx)"

definition decider_bytes :: "lib_decider \<Rightarrow> bytes" where
  "decider_bytes d = concat [zero32, LDec_Private d ! 0, LDec_Private d ! 1]"

definition merkle_bytes :: "lib_merkle \<Rightarrow> bytes" where
  "merkle_bytes m = concat ([LMer_Tips m ! 0, LMer_Tips m ! 1, LMer_Signature m ! 0, LMer_Signature m ! 1]
     @ LMer_Branches m @ [LMer_Leaf m, LMer_Next m])"

definition umerkle_bytes :: "lib_umerkle \<Rightarrow> bytes" where
  "umerkle_bytes m = concat [LUm_Tips m ! 0, LUm_Tips m ! 1, LUm_Next m, LUm_Root m]"

lemma concat_stringify: "concat (map stringify_hex hs) = fmt_X (concat hs)"
  by (induction hs) (simp_all add: stringify_hex_def)

lemma export_bytes:
  "wallet_export_key P w = prefix_of P ''key'' @ fmt_X (key_bytes w)"
  "wallet_export_stack P s = prefix_of P ''stack'' @ fmt_X (stack_bytes s)"
  "wallet_export_transaction P tx = prefix_of P ''tx'' @ fmt_X (tx_bytes tx)"
  "wallet_export_decider P d zero32 = prefix_of P ''decider'' @ fmt_X (decider_bytes d)"
  "wallet_export_merkle_segment P m = prefix_of P ''merkle'' @ fmt_X (merkle_bytes m)"
  "wallet_export_unsigned_merkle_segment P u = prefix_of P ''unsigned_merkle'' @ fmt_X (umerkle_bytes u)"
  by (simp_all add: wallet_export_key_def key_bytes_def wallet_export_stack_def stack_bytes_def
      wallet_export_transaction_def tx_bytes_def wallet_export_decider_def decider_bytes_def
      wallet_export_merkle_segment_def merkle_bytes_def wallet_export_unsigned_merkle_segment_def
      umerkle_bytes_def concat_stringify uint64_to_bytes_put)

lemma rebuild_tx:
  "\<lparr>LTx_Source = LTx_Source tx, LTx_Destination = LTx_Destination tx, LTx_Signature = LTx_Signature tx\<rparr> = tx"
  by (cases tx) simp

subsection \<open>The library calls of a reload\<close>

text \<open>What is not in the text comes back as zero: a key's address, a decider's tips, a root.\<close>

definition reload_key :: "'l wallet_lib \<Rightarrow> lib_key \<Rightarrow> 'l \<Rightarrow> 'l \<times> (go_error + hash256)" where
  "reload_key WL w l = apsnd Inr (lib_LoadKey WL (w\<lparr>LKey_Public := zero32\<rparr>) l)"

definition reload_stack :: "'l wallet_lib \<Rightarrow> lib_stack \<Rightarrow> 'l \<Rightarrow> 'l \<times> (go_error + hash256)" where
  "reload_stack WL s l = apsnd Inr (lib_LoadStack WL s l)"

definition reload_decider :: "'l wallet_lib \<Rightarrow> lib_decider \<Rightarrow> 'l \<Rightarrow> 'l \<times> (go_error + hash256)" where
  "reload_decider WL d l = apsnd Inr (lib_LoadDecider WL (d\<lparr>LDec_Tips := [zero32, zero32]\<rparr>) l)"

definition reload_merkle :: "'l wallet_lib \<Rightarrow> lib_merkle \<Rightarrow> 'l \<Rightarrow> 'l \<times> (go_error + hash256)" where
  "reload_merkle WL m = lib_LoadMerkleSegment WL (m\<lparr>LMer_Root := zero32\<rparr>)"

subsection \<open>The format\<close>

locale construct_format =
  fixes body :: "'a \<Rightarrow> bytes"
    and load :: "bytes \<Rightarrow> 'l \<Rightarrow> 'l \<times> (go_error + hash256)"
    and reload :: "'a \<Rightarrow> 'l \<Rightarrow> 'l \<times> (go_error + hash256)"
    and wf :: "'a \<Rightarrow> bool"
  assumes load_body: "wf x \<Longrightarrow> load (body x) l = reload x l"
begin

text \<open>Lines of one kind are loaded one after the other, when their prefix selects the loader.\<close>

lemma reload_lines:
  assumes "\<And>b l. wallet_load_construct WL P (pre @ fmt_X b) l = load b l" "pre \<noteq> ''''" "list_all wf xs"
  shows "fold (load_line WL P) (map (\<lambda>x. pre @ fmt_X (body x)) xs) l = fold (\<lambda>x l. fst (reload x l)) xs l"
  using assms(2,3) by (induction xs arbitrary: l) (auto simp: load_line_def assms(1) load_body)

end

interpretation key_format: construct_format key_bytes "wallet_load_key WL" "reload_key WL" wf_key for WL
proof
  fix w l assume "wf_key w"
  then have "length (key_bytes w) = 21 * 32" "map (chunk (key_bytes w)) [0..<21] = LKey_Private w"
    using chunks_concat [of "LKey_Private w" 0 21]
    by (simp_all add: wf_key_def key_bytes_def concat32_length)
  then show "wallet_load_key WL (key_bytes w) l = reload_key WL w l"
    by (cases w) (simp add: wallet_load_key_def reload_key_def apsnd_def map_prod_def split: prod.split)
qed

interpretation stack_format: construct_format stack_bytes "wallet_load_stack WL" "reload_stack WL" wf_stack for WL
proof
  fix s l assume "wf_stack s"
  then show "wallet_load_stack WL (stack_bytes s) l = reload_stack WL s l"
    by (cases s) (simp add: wf_stack_def wallet_load_stack_def stack_bytes_def reload_stack_def chunk_def
        apsnd_def map_prod_def split: prod.split)
qed

interpretation tx_format: construct_format tx_bytes "wallet_load_transaction WL" "lib_LoadTransaction WL" wf_ltx for WL
proof
  fix tx l assume wf: "wf_ltx tx"
  define hs where "hs = LTx_Source tx # LTx_Destination tx # LTx_Signature tx"
  have hs: "list_all is32 hs" "length hs = 2 + 21" "tx_bytes tx = concat hs"
    using wf by (simp_all add: hs_def wf_ltx_def tx_bytes_def)
  have "chunk (concat hs) 0 = LTx_Source tx" "chunk (concat hs) 1 = LTx_Destination tx"
    "map (\<lambda>i. chunk (concat hs) (i + 2)) [0..<21] = LTx_Signature tx"
    using chunks_concat [OF hs(1,2)] chunk_concat_exact [OF hs(1)] hs(2) by (simp_all add: hs_def)
  then show "wallet_load_transaction WL (tx_bytes tx) l = lib_LoadTransaction WL tx l"
    using hs by (simp add: wallet_load_transaction_def concat32_length rebuild_tx)
qed

interpretation decider_format: construct_format decider_bytes "wallet_load_decider WL" "reload_decider WL" wf_decider for WL
proof
  fix d l assume "wf_decider d"
  then show "wallet_load_decider WL (decider_bytes d) l = reload_decider WL d l"
    by (cases d) (auto simp: wf_decider_def wallet_load_decider_def decider_bytes_def reload_decider_def chunk_def
        apsnd_def map_prod_def split: prod.split)
qed

interpretation merkle_format: construct_format merkle_bytes "wallet_load_merkle_segment WL" "reload_merkle WL" wf_merkle for WL
proof
  fix m l assume wf: "wf_merkle m"
  then obtain a b c d where tips: "LMer_Tips m = [a, b]" "LMer_Signature m = [c, d]"
    and len: "is32 a" "is32 b" "is32 c" "is32 d" by (auto simp: wf_merkle_def)
  define hs where "hs = LMer_Branches m @ [LMer_Leaf m, LMer_Next m]"
  have hs: "list_all is32 hs" "length hs = 18" "merkle_bytes m = a @ b @ c @ d @ concat hs"
    using wf by (simp_all add: hs_def wf_merkle_def merkle_bytes_def tips)
  have rest: "drop 128 (merkle_bytes m) = concat hs"
    using len by (simp add: hs(3))
  have "map (chunk (concat hs)) [0..<16] = LMer_Branches m"
    using hs(1) wf chunk_concat_exact [OF hs(1)] hs(2)
    by (intro nth_equalityI) (auto simp: wf_merkle_def hs_def nth_append)
  moreover have "drop (16 * 32) (concat hs) = concat (drop 16 hs)"
    using drop_concat32 [OF hs(1), of 16 "[]"] hs(2) by simp
  then have "drop (16 * 32) (concat hs) = LMer_Leaf m @ LMer_Next m"
    using wf by (simp add: hs_def wf_merkle_def)
  ultimately have "wallet_load_merkle_segment WL (merkle_bytes m) l =
      lib_LoadMerkleSegment WL \<lparr>LMer_Tips = [a, b], LMer_Signature = [c, d], LMer_Branches = LMer_Branches m,
        LMer_Leaf = LMer_Leaf m, LMer_Next = LMer_Next m, LMer_Root = zero32\<rparr> l"
    using len wf hs(1,2)
    by (simp add: wallet_load_merkle_segment_def rest wf_merkle_def)
      (simp add: chunk_def hs(3) concat32_length)
  moreover have "\<lparr>LMer_Tips = [a, b], LMer_Signature = [c, d], LMer_Branches = LMer_Branches m,
      LMer_Leaf = LMer_Leaf m, LMer_Next = LMer_Next m, LMer_Root = zero32\<rparr> = m\<lparr>LMer_Root := zero32\<rparr>"
    using tips by (cases m) simp
  ultimately show "wallet_load_merkle_segment WL (merkle_bytes m) l = reload_merkle WL m l"
    by (simp only: reload_merkle_def)
qed

interpretation umerkle_format: construct_format umerkle_bytes "wallet_load_unsigned_merkle_segment WL"
  "lib_LoadUnsignedMerkleSegment WL" wf_umerkle for WL
proof
  fix m l assume "wf_umerkle m"
  then show "wallet_load_unsigned_merkle_segment WL (umerkle_bytes m) l = lib_LoadUnsignedMerkleSegment WL m l"
    by (cases m) (auto simp: wf_umerkle_def wallet_load_unsigned_merkle_segment_def umerkle_bytes_def chunk_def)
qed

subsection \<open>The prefixes of the networks\<close>

lemma mainnet_prefixes:
  "prefix_of mainnet_prefix ''stack'' = ''/stack/data/''" "prefix_of mainnet_prefix ''tx'' = ''/tx/recv/''"
  "prefix_of mainnet_prefix ''key'' = ''/wallet/data/''" "prefix_of mainnet_prefix ''merkle'' = ''/merkle/data/''"
  "prefix_of mainnet_prefix ''unsigned_merkle'' = ''/contract/data/''"
  "prefix_of mainnet_prefix ''decider'' = ''/purse/data/''"
  by (simp_all add: prefix_of_def mainnet_prefix_def)

lemma testnet_prefixes:
  "prefix_of testnet_prefix k = backslashed (prefix_of mainnet_prefix k)"
  by (auto simp: prefix_of_def mainnet_prefix_def testnet_prefix_def backslashed_def)

lemma backslashed_simps [simp]:
  "backslashed [] = []"
  "backslashed (c # s) = (if c = CHR ''/'' then CHR 0x5C else c) # backslashed s"
  by (simp_all add: backslashed_def)

text \<open>No prefix is the start of hexadecimal text, so a stripped line passes the later tests.\<close>

lemma not_hex_prefix [simp]: "\<not> is_hex_char c \<Longrightarrow> \<not> prefix (c # q) (fmt_X b)"
  using fmt_X_hex_chars [of b] by (cases "fmt_X b") auto

lemma separators_not_hex [simp]: "\<not> is_hex_char CHR ''/''" "\<not> is_hex_char CHR 0x5C"
  by (simp_all add: is_hex_char_def)

lemma load_prefixed_simps:
  "prefix pre s \<Longrightarrow> load_prefixed pre load (s, l, r)
     = (drop (length pre) s, load (hex2byte (bytes_of (drop (length pre) s))) l)"
  "\<not> prefix pre s \<Longrightarrow> load_prefixed pre load (s, lr) = (s, lr)"
  by (simp_all add: load_prefixed_def Let_def split: prod.split)

text \<open>Which loader a prefix selects.\<close>

lemma load_by_prefix:
  assumes "P = mainnet_prefix \<or> P = testnet_prefix"
  shows "wallet_load_construct WL P (prefix_of P ''stack'' @ fmt_X b) l = wallet_load_stack WL b l"
    and "wallet_load_construct WL P (prefix_of P ''tx'' @ fmt_X b) l = wallet_load_transaction WL b l"
    and "wallet_load_construct WL P (prefix_of P ''key'' @ fmt_X b) l = wallet_load_key WL b l"
    and "wallet_load_construct WL P (prefix_of P ''merkle'' @ fmt_X b) l = wallet_load_merkle_segment WL b l"
    and "wallet_load_construct WL P (prefix_of P ''decider'' @ fmt_X b) l = wallet_load_decider WL b l"
    and "wallet_load_construct WL P (prefix_of P ''unsigned_merkle'' @ fmt_X b) l
           = wallet_load_unsigned_merkle_segment WL b l"
  using assms
  by (auto simp: wallet_load_construct_def load_prefixed_simps testnet_prefixes mainnet_prefixes)

subsection \<open>Lines\<close>

lemma split_not_empty: "split_lines s \<noteq> []"
  by (cases s) auto

lemma split_line:
  "CHR 0x0A \<notin> set line \<Longrightarrow> split_lines (line @ CHR 0x0A # rest) = line # split_lines rest"
  by (induction line) (auto simp: split_not_empty)

lemma split_unlines:
  "(\<And>line. line \<in> set ls \<Longrightarrow> CHR 0x0A \<notin> set line) \<Longrightarrow> split_lines (unlines ls) = ls @ [[]]"
  by (induction ls) (simp_all add: unlines_def split_line)

lemma export_no_newline:
  assumes "P = mainnet_prefix \<or> P = testnet_prefix"
  shows "CHR 0x0A \<notin> set (prefix_of P k @ fmt_X b)"
proof -
  have "list_all is_hex_char (fmt_X b)" by (rule fmt_X_hex_chars)
  moreover have "\<not> is_hex_char CHR 0x0A" by (simp add: is_hex_char_def)
  ultimately have "CHR 0x0A \<notin> set (fmt_X b)"
    by (auto simp: list_all_iff)
  moreover have "CHR 0x0A \<notin> set (prefix_of P k)"
    using assms by (auto simp: prefix_of_def mainnet_prefix_def testnet_prefix_def split: if_splits)
  ultimately show ?thesis by simp
qed

lemma export_not_empty:
  assumes "P = mainnet_prefix \<or> P = testnet_prefix"
    and "k \<in> {''key'', ''stack'', ''tx'', ''decider'', ''merkle'', ''unsigned_merkle''}"
  shows "prefix_of P k @ x \<noteq> ''''"
  using assms by (auto simp: testnet_prefixes mainnet_prefixes)

subsection \<open>The properties\<close>

text \<open>
  C29. JSON round trip: parsing what \<open>wallet_stringify\<close> prints gives the object back; a decider
  is recovered from its private keys, and a segment's root is left out.
\<close>

theorem parse_stringify_objects:
  "(wf_key k \<longrightarrow> wallet_parse_key (wallet_stringify_key WL l k) = Inr k)
   \<and> (wf_stack s \<longrightarrow> wallet_parse_stack (wallet_stringify_stack WL l s) = Inr s)
   \<and> (wf_ltx tx \<longrightarrow> wallet_parse_transaction (wallet_stringify_transaction WL l tx) = Inr tx)
   \<and> (wf_decider d \<longrightarrow> wallet_parse_decider WL (wallet_stringify_decider WL d)
                        = Inr (lib_RecoverDecider WL (d\<lparr>LDec_Tips := [zero32, zero32]\<rparr>)))
   \<and> (wf_merkle m \<longrightarrow> wallet_parse_merkle_segment (wallet_stringify_merkle_segment WL l m)
                        = Inr (m\<lparr>LMer_Root := zero32\<rparr>))
   \<and> (wf_umerkle u \<longrightarrow> wallet_parse_unsigned_merkle_segment (wallet_stringify_unsigned_merkle_segment WL l u)
                        = Inr u)"
proof -
  have all: "map_res parse_hex (map stringify_hex hs) = Inr hs" if "list_all is32 hs" for hs
    using that by (induction hs) auto
  show ?thesis
    by (cases k; cases s; cases tx; cases d; cases m; cases u)
      (auto simp: wf_objects all wallet_parse_key_def wallet_stringify_key_def wallet_parse_stack_def
        wallet_stringify_stack_def wallet_parse_transaction_def wallet_stringify_transaction_def
        wallet_parse_decider_def wallet_stringify_decider_def wallet_parse_merkle_segment_def
        wallet_stringify_merkle_segment_def wallet_parse_unsigned_merkle_segment_def
        wallet_stringify_unsigned_merkle_segment_def)
qed

theorem parse_stringify_objects_witness:
  "wf_stack some_stack \<and> wallet_parse_stack (wallet_stringify_stack stack_lib ((), []) some_stack) = Inr some_stack"
  using parse_stringify_objects [of _ stack_lib "((), [])" some_stack]
  by (simp add: wf_stack_def some_stack_def)

definition wf_wallet :: "'l wallet_lib \<Rightarrow> 'l \<Rightarrow> bool" where
  "wf_wallet WL l \<longleftrightarrow>
     list_all wf_key (lib_GetKeys WL l) \<and> list_all wf_stack (lib_GetStacks WL l)
     \<and> list_all wf_ltx (lib_GetTransactions WL l) \<and> list_all wf_decider (lib_GetDeciders WL l)
     \<and> list_all wf_merkle (lib_GetMerkleSegments WL l) \<and> list_all wf_umerkle (lib_GetUnsignedMerkleSegments WL l)"

text \<open>All objects of the library state \<open>old\<close>, loaded into \<open>l\<close>, kind by kind.\<close>

definition reload_wallet :: "'l wallet_lib \<Rightarrow> 'l \<Rightarrow> 'l \<Rightarrow> 'l" where
  "reload_wallet WL old l =
     fold (\<lambda>u l. fst (lib_LoadUnsignedMerkleSegment WL u l)) (lib_GetUnsignedMerkleSegments WL old)
       (fold (\<lambda>m l. fst (reload_merkle WL m l)) (lib_GetMerkleSegments WL old)
       (fold (\<lambda>d l. fst (reload_decider WL d l)) (lib_GetDeciders WL old)
       (fold (\<lambda>tx l. fst (lib_LoadTransaction WL tx l)) (lib_GetTransactions WL old)
       (fold (\<lambda>s l. fst (reload_stack WL s l)) (lib_GetStacks WL old)
       (fold (\<lambda>k l. fst (reload_key WL k l)) (lib_GetKeys WL old) l)))))"

text \<open>
  C24. Wallet round trip: importing an exported wallet on either network makes exactly the
  library calls that load every key, stack, transaction, decider and segment of it, in the order
  of the export, no line being rejected or taken for another kind; afterwards the status is
  \<open>Idle\<close> and unlocked.
\<close>

theorem wallet_round_trip:
  assumes "COMB_Prefix s = mainnet_prefix \<or> COMB_Prefix s = testnet_prefix" "wf_wallet WL old"
  shows "node_lib (wallet_load WL (wallet_export WL (COMB_Prefix s) old) s) = reload_wallet WL old (node_lib s)
    \<and> COMB_Status (wallet_load WL (wallet_export WL (COMB_Prefix s) old) s) = ''Idle''
    \<and> \<not> COMB_StatusLock (wallet_load WL (wallet_export WL (COMB_Prefix s) old) s)"
proof -
  define P where "P = COMB_Prefix s"
  have P: "P = mainnet_prefix \<or> P = testnet_prefix"
    using assms(1) by (simp add: P_def)
  have "CHR 0x0A \<notin> set line" if "line \<in> set (export_lines WL P (\<lambda>_. True) old)" for line
    using that export_no_newline [OF P] by (auto simp: export_lines_def export_bytes)
  then have lines: "split_lines (wallet_export WL P old) = export_lines WL P (\<lambda>_. True) old @ [[]]"
    unfolding wallet_export_def by (rule split_unlines)
  note by_kind = key_format.reload_lines [OF load_by_prefix(3) [OF P]]
    stack_format.reload_lines [OF load_by_prefix(1) [OF P]] tx_format.reload_lines [OF load_by_prefix(2) [OF P]]
    decider_format.reload_lines [OF load_by_prefix(5) [OF P]]
    merkle_format.reload_lines [OF load_by_prefix(4) [OF P]]
    umerkle_format.reload_lines [OF load_by_prefix(6) [OF P]]
  have "prefix_of P k \<noteq> ''''" if "k \<in> {''key'', ''stack'', ''tx'', ''decider'', ''merkle'', ''unsigned_merkle''}" for k
    using export_not_empty [OF P that, of "[]"] by simp
  then have "fold (load_line WL P) (export_lines WL P (\<lambda>_. True) old) l = reload_wallet WL old l" for l
    using assms(2) by (simp add: export_lines_def export_bytes(4) export_bytes(1,2,3,5,6) [abs_def]
        reload_wallet_def wf_wallet_def by_kind)
  then have "fold (load_line WL P) (split_lines (wallet_export WL P old)) l = reload_wallet WL old l" for l
    by (simp add: lines load_line_def)
  then show ?thesis
    by (simp add: wallet_load_def combcore_set_status_def combcore_lock_status_def combcore_unlock_status_def
        Let_def flip: P_def)
qed

text \<open>A node whose wallet keeps one kind of construct, stacks.\<close>

definition stack_node :: "lib_stack list \<Rightarrow> (unit, unit \<times> lib_stack list) node" where
  "stack_node stacks =
     \<lparr>COMB_Height = 0, COMB_Hash = zero32, COMB_Chain = Map.empty, COMB_Status = ''Idle'',
      COMB_StatusLock = False, COMB_Network = ''mainnet'', COMB_Magic = 0, COMB_Prefix = mainnet_prefix,
      COMB_Path = '''', DB_InitialLoad = False, DB_Version = 1, node_db = (), node_db_is_new = False,
      Neo_BatchCapacity = 500, Neo_BatchCached = 0, Neo_Batch = [], BTC_RestURL = '''', BTC_DirectPath = '''',
      BTC_Chain = \<lparr>Chain_Height = 0, Chain_KnownHeight = 0, Chain_TopHash = zero32\<rparr>, node_lib = ((), stacks)\<rparr>"

theorem wallet_round_trip_witness:
  "node_lib (wallet_load stack_lib (wallet_export stack_lib mainnet_prefix ((), [some_stack])) (stack_node []))
     = ((), [some_stack])"
proof -
  have "wf_wallet stack_lib ((), [some_stack])"
    by (simp add: wf_wallet_def stack_lib_def wf_stack_def some_stack_def)
  then show ?thesis
    using wallet_round_trip [of "stack_node []" stack_lib "((), [some_stack])"]
    by (simp add: reload_wallet_def reload_stack_def stack_lib_def stack_node_def)
qed

text \<open>
  C31. Rejected lines: a known prefix with bytes of the wrong length is an error and leaves the
  library as it was; a line with no known prefix is not an error: the call returns the zero
  address, does nothing, and is logged as a construct that was loaded.
\<close>

theorem load_construct_rejects:
  assumes "P = mainnet_prefix \<or> P = testnet_prefix"
  shows "(length b \<noteq> 72 \<longrightarrow> wallet_load_construct WL P (prefix_of P ''stack'' @ fmt_X b) l = (l, Inl ErrStackMalformed))
    \<and> (length b \<noteq> 736 \<longrightarrow> wallet_load_construct WL P (prefix_of P ''tx'' @ fmt_X b) l = (l, Inl ErrTxMalformed))
    \<and> (length b \<noteq> 672 \<longrightarrow> wallet_load_construct WL P (prefix_of P ''key'' @ fmt_X b) l = (l, Inl ErrKeyMalformed))
    \<and> (length b \<noteq> 704 \<longrightarrow> wallet_load_construct WL P (prefix_of P ''merkle'' @ fmt_X b) l = (l, Inl ErrMerkleMalformed))
    \<and> (length b \<notin> {64, 96} \<longrightarrow> wallet_load_construct WL P (prefix_of P ''decider'' @ fmt_X b) l = (l, Inl ErrDeciderMalformed))
    \<and> (length b \<noteq> 128 \<longrightarrow> wallet_load_construct WL P (prefix_of P ''unsigned_merkle'' @ fmt_X b) l
         = (l, Inl ErrUnsignedMerkleMalformed))
    \<and> ((\<forall>k \<in> dom P. \<not> prefix (prefix_of P k) line) \<longrightarrow> wallet_load_construct WL P line l = (l, Inr zero32))"
proof -
  have "{''stack'', ''tx'', ''key'', ''merkle'', ''unsigned_merkle'', ''decider''} \<subseteq> dom P"
    using assms by (auto simp: mainnet_prefix_def testnet_prefix_def)
  then have "wallet_load_construct WL P line l = (l, Inr zero32)" if "\<forall>k \<in> dom P. \<not> prefix (prefix_of P k) line"
    using that by (simp add: wallet_load_construct_def load_prefixed_simps)
  then show ?thesis
    by (simp add: load_by_prefix [OF assms] wallet_load_stack_def wallet_load_transaction_def wallet_load_key_def
        wallet_load_merkle_segment_def wallet_load_decider_def wallet_load_unsigned_merkle_segment_def)
qed

theorem load_construct_rejects_witness:
  "wallet_load_construct stack_lib mainnet_prefix (prefix_of mainnet_prefix ''stack'' @ fmt_X [1, 2]) ((), [])
     = (((), []), Inl ErrStackMalformed)
   \<and> wallet_load_construct stack_lib mainnet_prefix ''garbage'' ((), []) = (((), []), Inr zero32)"
proof -
  have "\<forall>k \<in> dom mainnet_prefix. \<not> prefix (prefix_of mainnet_prefix k) ''garbage''"
    by (auto simp: mainnet_prefix_def prefix_of_def split: if_splits)
  then show ?thesis
    using load_construct_rejects [of mainnet_prefix "[1, 2]" stack_lib "((), [])" "''garbage''"] by simp
qed

end
