(* ===== verification/Control_Correct.thy ===== *)
theory Control_Correct
  imports Control Wallet_Correct
begin

section \<open>What the JSON-RPC methods promise\<close>

text \<open>
  The methods pass hexadecimal strings to each other through the client: the strings one method
  replies with are what the next one parses. The lemmas say that nothing is lost on the way.
\<close>

subsection \<open>Lists of hexadecimal strings\<close>

lemma parse_printed_list [simp]: "list_all is32 hs \<Longrightarrow> map_res parse_hex (map stringify_hex hs) = Inr hs"
  by (induction hs) auto

lemma stringify_length: "is32 h \<Longrightarrow> length (stringify_hex h) = 64"
  by (simp add: stringify_hex_def)

lemma printed_list_length: "list_all is32 hs \<Longrightarrow> length (concat (map stringify_hex hs)) = 64 * length hs"
  by (induction hs) (auto simp: stringify_length)

lemma drop_printed_list:
  "list_all is32 hs \<Longrightarrow> k \<le> length hs \<Longrightarrow>
     drop (64 * k) (concat (map stringify_hex hs)) = concat (map stringify_hex (drop k hs))"
proof (induction k arbitrary: hs)
  case (Suc k)
  then obtain h t where "hs = h # t" by (cases hs) auto
  with Suc show ?case by (simp add: stringify_length)
qed simp

text \<open>The substrings that \<open>DecideMerkleSegment\<close> cuts are the hashes that \<open>ComputeProof\<close> printed.\<close>

lemma cut_printed_branches:
  assumes "list_all is32 hs" "length hs = 16"
  shows "branch_strings (concat (map stringify_hex hs)) = map stringify_hex hs"
proof -
  have "take 64 (drop (64 * i) (concat (map stringify_hex hs))) = stringify_hex (hs ! i)" if "i < 16" for i
  proof -
    have "drop i hs = hs ! i # drop (Suc i) hs"
      using that assms(2) by (simp add: Cons_nth_drop_Suc)
    moreover have "is32 (hs ! i)"
      using that assms by (simp add: list_all_length)
    ultimately show ?thesis
      using that assms by (simp add: drop_printed_list stringify_length)
  qed
  then show ?thesis
    using assms(2) by (intro nth_equalityI) (simp_all add: branch_strings_def)
qed

lemma parsed_list: "map_res parse_hex ss = Inr hs \<Longrightarrow> map stringify_hex hs = map to_upper ss"
  by (induction ss arbitrary: hs) (auto simp: results dest: parse_hex_upper)

lemma to_upper_concat: "to_upper (concat ss) = concat (map to_upper ss)"
  by (induction ss) (simp_all add: to_upper_def)

lemma parsed_branches:
  assumes "length s = 1024" "map_res parse_hex (branch_strings s) = Inr hs"
  shows "concat (map stringify_hex hs) = to_upper s \<and> length hs = 16"
proof -
  have "length hs = 16"
    using parsed_list [OF assms(2), THEN map_eq_imp_length_eq] by (simp add: branch_strings_def)
  moreover have "concat (branch_strings s) = take (64 * n) s @ concat (map (\<lambda>i. take 64 (drop (64 * i) s)) [n..<16])"
    if "n \<le> 16" for n
    using that
  proof (induction n)
    case (Suc n)
    have "take (64 * Suc n) s = take (64 * n) s @ take 64 (drop (64 * n) s)"
      using take_add [of "64 * n" 64 s] by (simp add: add.commute)
    with Suc show ?case by (simp add: upt_conv_Cons)
  qed (simp add: branch_strings_def)
  from this [of 16] have "concat (branch_strings s) = s"
    using assms(1) by simp
  ultimately show ?thesis
    using parsed_list [OF assms(2)] to_upper_concat [of "branch_strings s"] by simp
qed

lemma parse_lower: "is32 h \<Longrightarrow> parse_hex (fmt_x h) = Inr h"
  by (simp add: parse_hex_def checkHEX32_def checkHEX_iff fmt_X_hex_chars hex2byte32_eq to_upper_fmt)

lemma list_all_replicate [simp]: "list_all P (replicate n x) \<longleftrightarrow> n = 0 \<or> P x"
  by (induction n) auto

subsection \<open>Signing a Merkle segment\<close>

text \<open>
  C25. The methods compose: the root, branches and leaf that \<open>ComputeProof\<close> replies with and the
  signature \<open>SignDecider\<close> replies with are what \<open>DecideMerkleSegment\<close> takes; when the library
  recovers from them a segment with the ID of the unsigned segment, the reply is accepted by
  \<open>LoadMerkleSegment\<close>, which loads that very segment, its root left out.
\<close>

theorem decide_with_proof:
  assumes computed: "length tree \<le> max_leaves" "map_res parse_hex tree = Inr leaves" "0 \<le> n" "n \<le> 65535"
      "lib_ComputeProof WL (leaf_array leaves) (word_of_int n) = (root, branches, leaf)"
    and shape: "length branches = 16" "list_all is32 branches" "is32 leaf"
    and sign: "parse_hex decider = Inr did" "lib_LookupDecider WL l did = Inr d"
      "lib_SignDecider WL d (word_of_int n) = Inr (s0, s1)" "is32 s0" "is32 s1"
    and unsigned: "parse_hex address = Inr uid" "lib_LookupUnsignedMerkleSegment WL l uid = Inr u"
    and recover: "lib_RecoverMerkleSegment WL
        \<lparr>LMer_Tips = LUm_Tips u, LMer_Signature = [s0, s1], LMer_Branches = branches,
         LMer_Leaf = leaf, LMer_Next = LUm_Next u, LMer_Root = zero32\<rparr> = Inr m" "wf_merkle m"
      "lib_MerkleSegmentID WL m = lib_UnsignedMerkleSegmentID WL u"
  shows "\<exists>pf signature segment.
     ComputeProof WL \<lparr>CP_Tree = tree, CP_Destination = n\<rparr> = Inr pf
     \<and> SignDecider WL \<lparr>SD_ID = decider, SD_Destination = n\<rparr> l = Inr signature
     \<and> DecideMerkleSegment WL \<lparr>DM_Address = address, DM_Signature = signature,
          DM_Branches = CP_Branches pf, DM_Leaf = CP_Leaf pf\<rparr> l = Inr segment
     \<and> LoadMerkleSegment WL segment l =
         apsnd (\<lambda>r. try_then r (\<lambda>ident. Inr (stringify_hex ident)))
           (lib_LoadMerkleSegment WL (m\<lparr>LMer_Root := zero32\<rparr>) l)"
proof -
  have p: "ComputeProof WL \<lparr>CP_Tree = tree, CP_Destination = n\<rparr>
      = Inr \<lparr>CP_Root = stringify_hex root, CP_Leaf = stringify_hex leaf,
             CP_Branches = concat (map stringify_hex branches)\<rparr>"
    using computed by (simp add: ComputeProof_def)
  have s: "SignDecider WL \<lparr>SD_ID = decider, SD_Destination = n\<rparr> l = Inr [stringify_hex s0, stringify_hex s1]"
    using sign by (simp add: SignDecider_def)
  have d: "DecideMerkleSegment WL \<lparr>DM_Address = address, DM_Signature = [stringify_hex s0, stringify_hex s1],
       DM_Branches = concat (map stringify_hex branches), DM_Leaf = stringify_hex leaf\<rparr> l
      = Inr (wallet_stringify_merkle_segment WL l m)"
    using shape sign(4,5) unsigned recover
    by (simp add: DecideMerkleSegment_def cut_printed_branches printed_list_length)
  have "wallet_parse_merkle_segment (wallet_stringify_merkle_segment WL l m) = Inr (m\<lparr>LMer_Root := zero32\<rparr>)"
    using recover(2) by (cases m) (auto simp: wf_merkle_def wallet_parse_merkle_segment_def
        wallet_stringify_merkle_segment_def)
  then have ld: "LoadMerkleSegment WL (wallet_stringify_merkle_segment WL l m) l =
      apsnd (\<lambda>r. try_then r (\<lambda>ident. Inr (stringify_hex ident)))
        (lib_LoadMerkleSegment WL (m\<lparr>LMer_Root := zero32\<rparr>) l)"
    by (simp add: LoadMerkleSegment_def stringify_hex_def try_then_def split: prod.splits sum.splits)
  from p s d ld show ?thesis
    by (intro exI conjI) (assumption | simp)+
qed


text \<open>A segment whose leaf is the address, as the concrete library has it.\<close>

definition sample_segment :: lib_merkle where
  "sample_segment =
     \<lparr>LMer_Tips = [replicate 32 5, replicate 32 5], LMer_Signature = [zero32, zero32],
      LMer_Branches = replicate 16 zero32, LMer_Leaf = replicate 32 5, LMer_Next = replicate 32 5,
      LMer_Root = zero32\<rparr>"

theorem decide_with_proof_witness:
  "\<exists>pf signature segment.
     ComputeProof (stack_lib :: (unit \<times> lib_stack list) wallet_lib)
       \<lparr>CP_Tree = [stringify_hex (replicate 32 5)], CP_Destination = 0\<rparr> = Inr pf
     \<and> SignDecider stack_lib \<lparr>SD_ID = stringify_hex zero32, SD_Destination = 0\<rparr> ((), []) = Inr signature
     \<and> DecideMerkleSegment stack_lib \<lparr>DM_Address = stringify_hex (replicate 32 5), DM_Signature = signature,
          DM_Branches = CP_Branches pf, DM_Leaf = CP_Leaf pf\<rparr> ((), []) = Inr segment
     \<and> LoadMerkleSegment stack_lib segment ((), []) = (((), []), Inr (stringify_hex zero32))"
proof -
  define tree where "tree = [stringify_hex (replicate 32 5)]"
  have c: "length tree \<le> max_leaves" "map_res parse_hex tree = Inr [replicate 32 5]" "(0 :: int) \<le> 0" "(0 :: int) \<le> 65535"
    "lib_ComputeProof (stack_lib :: (unit \<times> lib_stack list) wallet_lib) (leaf_array [replicate 32 5]) (word_of_int 0)
       = (replicate 32 5, replicate 16 zero32, replicate 32 5)"
    by (simp_all add: tree_def max_leaves_def stack_lib_def leaf_array_def)
  have "wf_merkle sample_segment"
    by (simp add: wf_merkle_def sample_segment_def)
  with decide_with_proof [OF c, of "stringify_hex zero32" zero32 "((), [])" _ zero32 zero32
      "stringify_hex (replicate 32 5)" "replicate 32 5" _ sample_segment]
  show ?thesis
    by (simp add: tree_def) (simp add: stack_lib_def sample_segment_def)
qed

text \<open>
  C26. No segment is made for another address: when the library looks up what it is asked for, the
  reply of \<open>DecideMerkleSegment\<close> has the requested address, in upper case, as its ID, and it
  was recovered from the tips and the next address of the unsigned segment with that address and
  from the signature, 16 branches and leaf of the request.
\<close>

theorem decided_address:
  assumes lookup: "\<And>h u. lib_LookupUnsignedMerkleSegment WL l h = Inr u \<Longrightarrow> lib_UnsignedMerkleSegmentID WL u = h"
    and run: "DecideMerkleSegment WL args l = Inr segment"
  shows "Merkle_ID segment = to_upper (DM_Address args)
    \<and> (\<exists>uid u signature branches leaf m.
         lib_LookupUnsignedMerkleSegment WL l uid = Inr u
         \<and> map stringify_hex signature = map to_upper (DM_Signature args)
         \<and> concat (map stringify_hex branches) = to_upper (DM_Branches args) \<and> length branches = 16
         \<and> stringify_hex leaf = to_upper (DM_Leaf args)
         \<and> lib_RecoverMerkleSegment WL
             \<lparr>LMer_Tips = LUm_Tips u, LMer_Signature = signature, LMer_Branches = branches,
              LMer_Leaf = leaf, LMer_Next = LUm_Next u, LMer_Root = zero32\<rparr> = Inr m
         \<and> segment = wallet_stringify_merkle_segment WL l m)"
proof -
  obtain uid signature branches leaf u m where parts:
      "parse_hex (DM_Address args) = Inr uid" "map_res parse_hex (DM_Signature args) = Inr signature"
      "length (DM_Branches args) = 1024" "map_res parse_hex (branch_strings (DM_Branches args)) = Inr branches"
      "parse_hex (DM_Leaf args) = Inr leaf"
    and u: "lib_LookupUnsignedMerkleSegment WL l uid = Inr u"
    and m: "lib_RecoverMerkleSegment WL
             \<lparr>LMer_Tips = LUm_Tips u, LMer_Signature = signature, LMer_Branches = branches,
              LMer_Leaf = leaf, LMer_Next = LUm_Next u, LMer_Root = zero32\<rparr> = Inr m"
      "lib_MerkleSegmentID WL m = lib_UnsignedMerkleSegmentID WL u"
      "segment = wallet_stringify_merkle_segment WL l m"
    using run by (auto simp: DecideMerkleSegment_def results split: if_splits)
  have "Merkle_ID segment = to_upper (DM_Address args)"
    using lookup [OF u] m(2,3) parse_hex_upper [OF parts(1)] by (simp add: wallet_stringify_merkle_segment_def)
  moreover have "concat (map stringify_hex branches) = to_upper (DM_Branches args)" "length branches = 16"
    using parsed_branches [OF parts(3,4)] by auto
  ultimately show ?thesis
    using u m parsed_list [OF parts(2)] parse_hex_upper [OF parts(5)] by metis
qed

theorem decided_address_witness:
  "Merkle_ID (wallet_stringify_merkle_segment stack_lib ((), []) sample_segment) = to_upper (fmt_x (replicate 32 5))"
proof -
  have "DecideMerkleSegment stack_lib
      \<lparr>DM_Address = fmt_x (replicate 32 5), DM_Signature = [stringify_hex zero32, stringify_hex zero32],
       DM_Branches = concat (map stringify_hex (replicate 16 zero32)), DM_Leaf = stringify_hex (replicate 32 5)\<rparr>
      ((), []) = Inr (wallet_stringify_merkle_segment stack_lib ((), []) sample_segment)"
    by (simp add: DecideMerkleSegment_def cut_printed_branches printed_list_length
        parse_lower del: concat_replicate_trivial map_replicate)
      (simp add: stack_lib_def sample_segment_def)
  from decided_address [OF _ this] show ?thesis
    by (simp add: stack_lib_def)
qed

subsection \<open>Destinations\<close>

text \<open>
  C35. Only one of the two methods checks the destination: outside \<open>0..65535\<close> \<open>ComputeProof\<close> is
  an error on every tree, while \<open>SignDecider\<close> drops the upper bits and signs for another leaf,
  the one the remainder modulo 65536 gives.
\<close>

theorem destination_checks:
  "(n < 0 \<or> n > 65535 \<longrightarrow> (\<exists>err. ComputeProof WL \<lparr>CP_Tree = tree, CP_Destination = n\<rparr> = Inl err))
   \<and> SignDecider WL \<lparr>SD_ID = decider, SD_Destination = n\<rparr> l
       = SignDecider WL \<lparr>SD_ID = decider, SD_Destination = n mod 65536\<rparr> l"
proof -
  have "(word_of_int n :: u16) = word_of_int (n mod 65536)"
    by (simp add: word_of_int_eq_iff take_bit_eq_mod)
  then show ?thesis
    by (auto simp: ComputeProof_def SignDecider_def)
qed

theorem destination_checks_witness:
  "SignDecider stack_lib \<lparr>SD_ID = fmt_X zero32, SD_Destination = 65539\<rparr> ((), [])
     = SignDecider stack_lib \<lparr>SD_ID = fmt_X zero32, SD_Destination = 3\<rparr> ((), [])
   \<and> (\<exists>err. ComputeProof (stack_lib :: (unit \<times> lib_stack list) wallet_lib)
                \<lparr>CP_Tree = [], CP_Destination = 65539\<rparr> = Inl err)"
  using destination_checks [of 65539 stack_lib "[]" "fmt_X zero32" "((), [])"] by simp

subsection \<open>Addresses\<close>

text \<open>
  C30. \<open>CheckAddresses\<close> returns the given addresses whose commit the library does not have, in
  their order and as they were written, and \<open>CommitAddresses\<close> the commit of each; both fail
  with the error of the first address that does not parse.
\<close>

theorem check_addresses_result:
  "CheckAddresses WL args l =
     (case map_res parse_hex args of
        Inl err \<Rightarrow> Inl err
      | Inr hs \<Rightarrow> Inr (map fst (filter (\<lambda>(a, h). \<not> lib_HaveCommit WL l (lib_Commit WL h)) (zip args hs))))
   \<and> CommitAddresses WL args =
     (case map_res parse_hex args of
        Inl err \<Rightarrow> Inl err
      | Inr hs \<Rightarrow> Inr (map (\<lambda>h. stringify_hex (lib_Commit WL h)) hs))"
proof -
  have "fold_res (\<lambda>a reply. try_then (parse_hex a) (\<lambda>h.
          Inr (if \<not> lib_HaveCommit WL l (lib_Commit WL h) then reply @ [a] else reply))) args r =
     (case map_res parse_hex args of
        Inl err \<Rightarrow> Inl err
      | Inr hs \<Rightarrow> Inr (r @ map fst (filter (\<lambda>(a, h). \<not> lib_HaveCommit WL l (lib_Commit WL h)) (zip args hs))))"
    for r
    by (induction args arbitrary: r) (auto simp: try_then_def split: sum.splits)
  moreover have "fold_res (\<lambda>a reply. try_then (parse_hex a) (\<lambda>h.
          Inr (reply @ [stringify_hex (lib_Commit WL h)]))) args r =
     (case map_res parse_hex args of
        Inl err \<Rightarrow> Inl err
      | Inr hs \<Rightarrow> Inr (r @ map (\<lambda>h. stringify_hex (lib_Commit WL h)) hs))" for r
    by (induction args arbitrary: r) (auto simp: try_then_def split: sum.splits)
  ultimately show ?thesis
    by (simp add: CheckAddresses_def CommitAddresses_def split: sum.splits)
qed

end
