(* ===== verification/Ghetto_Api.thy ===== *)
theory Ghetto_Api
  imports Config Neominer
begin

section \<open>ghettoapi.go: the HTTP endpoints\<close>

text \<open>
  A handler takes its path variable and returns what it writes to the response: \<open>Inl\<close> when the
  variable is refused. The responses that print a Go value are that value; the JSON decoder of
  \<open>push_block\<close> is a parameter. The two private endpoints change the node; \<open>Inl\<close> is then the
  panic that ends the request (\<open>net/http\<close> recovers it; \<open>Recovered_Panics\<close> has the state it leaves).
  \<open>Ghetto_Server\<close> has the routing and listening; the mutex is left out.
\<close>

subsection \<open>Path variables\<close>

text \<open>\<open>strconv.Atoi\<close>: an optional sign and decimal digits, within 64 bits.\<close>

definition digits_val :: "string \<Rightarrow> int option" where
  "digits_val ds =
     (if ds \<noteq> '''' \<and> list_all (\<lambda>c. 48 \<le> (of_char c :: nat) \<and> (of_char c :: nat) \<le> 57) ds
      then Some (foldl (\<lambda>v c. 10 * v + (of_char c - 48)) 0 ds) else None)"

definition atoi :: "string \<Rightarrow> go_error + int" where
  "atoi s =
     (let v = (case s of
                 [] \<Rightarrow> None
               | c # cs \<Rightarrow> if c = CHR ''-'' then map_option uminus (digits_val cs)
                          else if c = CHR ''+'' then digits_val cs else digits_val s)
      in case v of
           None \<Rightarrow> Inl (ErrExternal ''strconv.Atoi'')
         | Some n \<Rightarrow> if - (2 ^ 63) \<le> n \<and> n < 2 ^ 63 then Inr n else Inl (ErrExternal ''strconv.Atoi''))"

subsection \<open>Commits of a block\<close>

type_synonym commitTagPair = "string \<times> tag"

text \<open>The position of the first pair with a larger order, looked for from the front.\<close>

fun find_insert_at :: "u32 \<Rightarrow> commitTagPair list \<Rightarrow> nat \<Rightarrow> nat \<Rightarrow> nat" where
  "find_insert_at order [] i insert_at = insert_at"
| "find_insert_at order (pair # out) i insert_at =
     (if order < Tag_Order (snd pair) then insert_at else find_insert_at order out (i + 1) (i + 1))"

text \<open>
  \<open>append(out[:insert_at+1], out[insert_at:]...)\<close> makes room by moving the rest of the slice one
  place to the right; the entry at \<open>insert_at\<close> is then overwritten.
\<close>

definition insert_pair :: "hash256 \<times> tag \<Rightarrow> commitTagPair list \<Rightarrow> commitTagPair list" where
  "insert_pair e out =
     (let insert_at = find_insert_at (Tag_Order (snd e)) out 0 0;
          pair = (to_upper (fmt_x (fst e)), snd e)
      in if length out = insert_at then out @ [pair]
         else (take (insert_at + 1) out @ drop insert_at out)[insert_at := pair])"

definition api_lib_get_block_commits :: "'l wallet_lib \<Rightarrow> string \<Rightarrow> 'l \<Rightarrow> go_error + commitTagPair list" where
  "api_lib_get_block_commits WL block l =
     try_then (atoi block) (\<lambda>h. Inr (fold insert_pair (lib_GetBlockCommits WL l (word_of_int h)) []))"

definition api_lib_get_block_coinbase_commit :: "'l wallet_lib \<Rightarrow> string \<Rightarrow> 'l \<Rightarrow> go_error + string" where
  "api_lib_get_block_coinbase_commit WL block l =
     try_then (atoi block) (\<lambda>h.
       Inr (fold (\<lambda>(commit, t) combbase. if Tag_Order t = 0 then to_upper (fmt_x commit) else combbase)
              (lib_GetBlockCommits WL l (word_of_int h)) ''''))"

definition api_lib_get_height :: "'l libcomb \<Rightarrow> 'l \<Rightarrow> u64" where
  "api_lib_get_height C l = lib_GetHeight C l"

definition api_lib_get_commit_count :: "'l wallet_lib \<Rightarrow> 'l \<Rightarrow> u64" where
  "api_lib_get_commit_count WL l = lib_GetCommitCount WL l"

subsection \<open>Reading the database\<close>

definition api_db_get_block_metadata_by_height ::
  "'d leveldb \<Rightarrow> string \<Rightarrow> ('d, 'l) node \<Rightarrow> go_error + BlockMetadata option" where
  "api_db_get_block_metadata_by_height L height s =
     try_then (atoi height) (\<lambda>h. Inr (db_get_block_by_height L (node_db s) (word_of_int h)))"

definition api_db_get_full_block_by_height ::
  "'d leveldb \<Rightarrow> string \<Rightarrow> ('d, 'l) node \<Rightarrow> go_error + BlockData option" where
  "api_db_get_full_block_by_height L height s =
     try_then (atoi height) (\<lambda>h. Inr (db_get_full_block_by_height L (node_db s) (word_of_int h)))"

subsection \<open>Changing the chain\<close>

definition api_db_remove_blocks_after_height ::
  "flags \<Rightarrow> 'd leveldb \<Rightarrow> 'l libcomb \<Rightarrow> string \<Rightarrow> ('d, 'l) node \<Rightarrow> go_stop + ('d, 'l) node" where
  "api_db_remove_blocks_after_height F L C height s =
     (if node_mode F \<noteq> MID_NODE_REMOTE then Inr s
      else case atoi height of
             Inl _ \<Rightarrow> Inr s
           | Inr h \<Rightarrow>
               try_then (or_else PanicBounds (db_get_block_by_height L (node_db s) (word_of_int h))) (\<lambda>md.
                 combcore_reorg L C (BM_Hash md) s))"

definition api_db_push_block ::
  "flags \<Rightarrow> (string \<Rightarrow> go_error + BlockData) \<Rightarrow> 'd leveldb \<Rightarrow> 'l libcomb \<Rightarrow> string \<Rightarrow> ('d, 'l) node
     \<Rightarrow> go_stop + ('d, 'l) node" where
  "api_db_push_block F json_block L C block_data s =
     (if node_mode F \<noteq> MID_NODE_REMOTE then Inr s
      else case json_block block_data of
             Inl _ \<Rightarrow> Inr s
           | Inr inc_block \<Rightarrow> try_then (neominer_process_block L C inc_block s) (neominer_write L))"

end
