(* ===== verification/Ghetto_Correct.thy ===== *)
theory Ghetto_Correct
  imports Ghetto_Api Node_Limits Sample_Lib
begin

section \<open>What the HTTP endpoints promise\<close>

text \<open>
  The commits of a block come out of a map in any order and are sorted by insertion; pushed blocks
  are written before the request returns; and the removal of blocks keeps the chain up to the
  given height, unless that height is above the tip.
\<close>

subsection \<open>Insertion by order\<close>

definition shown :: "hash256 \<times> tag \<Rightarrow> commitTagPair" where
  "shown e = (fmt_X (fst e), snd e)"

abbreviation pair_order :: "'a \<times> tag \<Rightarrow> u32" where
  "pair_order p \<equiv> Tag_Order (snd p)"

lemma find_insert_at_eq:
  "find_insert_at order out i i = i + length (takeWhile (\<lambda>p. pair_order p \<le> order) out)"
  by (induction out arbitrary: i) (auto simp: not_less)

lemma insert_pair_eq:
  "insert_pair e out = takeWhile (\<lambda>p. pair_order p \<le> pair_order e) out @ shown e
     # dropWhile (\<lambda>p. pair_order p \<le> pair_order e) out"
proof -
  define xs ys where "xs = takeWhile (\<lambda>p. pair_order p \<le> pair_order e) out"
    and "ys = dropWhile (\<lambda>p. pair_order p \<le> pair_order e) out"
  have out: "out = xs @ ys" and at: "find_insert_at (pair_order e) out 0 0 = length xs"
    by (simp_all add: xs_def ys_def find_insert_at_eq)
  have "insert_pair e out = xs @ shown e # ys"
    unfolding insert_pair_def Let_def at by (cases ys) (simp_all add: out shown_def to_upper_fmt)
  then show ?thesis by (simp only: xs_def ys_def)
qed

lemma insert_pair_mset: "mset (insert_pair e out) = add_mset (shown e) (mset out)"
proof -
  let ?P = "\<lambda>p :: commitTagPair. pair_order p \<le> pair_order e"
  have "mset (insert_pair e out) = add_mset (shown e) (mset (takeWhile ?P out @ dropWhile ?P out))"
    unfolding insert_pair_eq mset_append by simp
  then show ?thesis by simp
qed

lemma insert_pair_sorted:
  assumes "sorted (map pair_order out)"
  shows "sorted (map pair_order (insert_pair e out))"
proof -
  let ?P = "\<lambda>p :: commitTagPair. pair_order p \<le> pair_order e"
  have parts: "sorted (map pair_order (takeWhile ?P out @ dropWhile ?P out))"
    using assms by simp
  have "pair_order e \<le> pair_order p" if p: "p \<in> set (dropWhile ?P out)" for p
  proof -
    obtain ys zs where split: "dropWhile ?P out = ys @ p # zs"
      using p by (elim in_set_conv_decomp [THEN iffD1, THEN exE] exE)
    then have "\<not> ?P (hd (ys @ p # zs))"
      using hd_dropWhile [of ?P out] by simp
    moreover have "pair_order (hd (ys @ p # zs)) \<le> pair_order p"
      using parts unfolding split by (cases ys) (auto simp: sorted_append)
    ultimately show ?thesis by simp
  qed
  with parts [unfolded map_append sorted_append] show ?thesis
    by (auto simp: insert_pair_eq sorted_append shown_def dest: set_takeWhileD)
qed

lemma insert_pairs:
  "mset (fold insert_pair es out) = image_mset shown (mset es) + mset out
   \<and> (sorted (map pair_order out) \<longrightarrow> sorted (map pair_order (fold insert_pair es out)))"
  by (induction es arbitrary: out) (auto simp: insert_pair_mset insert_pair_sorted)

text \<open>When the orders differ, the elements determine the sorted list.\<close>

lemma sorted_orders_unique:
  assumes "mset xs = mset ys" "sorted (map pair_order xs)" "sorted (map pair_order ys)"
    and "distinct (map pair_order ys)"
  shows "xs = ys"
proof -
  have set: "set xs = set ys" using assms(1) by (rule mset_eq_setD)
  have "mset (map pair_order xs) = mset (map pair_order ys)"
    using assms(1) by simp
  then have "sort (map pair_order ys) = map pair_order xs"
    using assms(2) by (intro properties_for_sort)
  then have "map pair_order xs = map pair_order ys"
    using assms(3) by (simp add: sorted_sort_id)
  moreover have "inj_on pair_order (set xs \<union> set ys)"
    using assms(4) set by (simp add: distinct_map)
  ultimately show ?thesis by (rule map_inj_on)
qed


text \<open>The loop of \<open>get_block_coinbase_commit\<close> finds the head of the sorted list.\<close>

lemma coinbase_last:
  "fold (\<lambda>(commit, t) combbase. if Tag_Order t = 0 then fmt_X commit else combbase) es base =
     (case filter (\<lambda>p. pair_order p = 0) (map shown es) of [] \<Rightarrow> base | p # ps \<Rightarrow> fst (last (p # ps)))"
  by (induction es arbitrary: base) (auto simp: shown_def split: list.splits)

lemma coinbase_head:
  assumes "sorted (map pair_order out)" "mset out = image_mset shown (mset es)" "distinct (map pair_order out)"
  shows "fold (\<lambda>(commit, t) combbase. if Tag_Order t = 0 then fmt_X commit else combbase) es ''''
    = (if out \<noteq> [] \<and> pair_order (hd out) = 0 then fst (hd out) else '''')"
proof -
  have same: "mset (filter (\<lambda>p. pair_order p = 0) (map shown es)) = mset (filter (\<lambda>p. pair_order p = 0) out)"
    using assms(2) by simp
  show ?thesis
  proof (cases "out \<noteq> [] \<and> pair_order (hd out) = 0")
    case True
    then obtain p ps where "out = p # ps" "pair_order p = 0" by (cases out) auto
    moreover from this assms(3) have "filter (\<lambda>p. pair_order p = 0) ps = []"
      by (auto simp: filter_empty_conv)
    ultimately have "filter (\<lambda>p. pair_order p = 0) out = [p]" "hd out = p"
      by simp_all
    with same have "filter (\<lambda>p. pair_order p = 0) (map shown es) = [p]"
      by (simp only: mset.simps mset_single_iff)
    with True \<open>hd out = p\<close> show ?thesis by (simp add: coinbase_last)
  next
    case False
    have "pair_order p \<noteq> 0" if "p \<in> set out" for p
    proof (cases out)
      case (Cons q qs)
      then have "pair_order q \<le> pair_order p" "pair_order q \<noteq> 0"
        using False that assms(1) by auto
      then show ?thesis by auto
    qed (use that in simp)
    then have "filter (\<lambda>p. pair_order p = 0) out = []"
      by (simp add: filter_empty_conv)
    with same have "filter (\<lambda>p. pair_order p = 0) (map shown es) = []"
      by (simp only: mset.simps mset_zero_iff)
    with False show ?thesis by (auto simp: coinbase_last)
  qed
qed

subsection \<open>Pushing and removing\<close>


lemma blocks_from_top:
  assumes "valid_chain cp h (as @ cs)" "as \<noteq> []"
  shows "filter (\<lambda>b. h + of_nat (length as) \<le> blk_height b) (as @ cs) = last as # cs"
proof -
  obtain as' a where as: "as = as' @ [a]"
    using assms(2) by (cases as rule: rev_cases) auto
  have a: "blk_height a = h + of_nat (length as)"
    using top_height [OF valid_chain_take [OF assms(1)] assms(2)] by (simp add: as)
  have "\<forall>x \<in> set as'. blk_height x < blk_height a" "\<forall>x \<in> set cs. blk_height a < blk_height x"
    using valid_chain_wf [OF assms(1)] by (auto simp: as wf_chain_append)
  then have "filter (\<lambda>b. blk_height a \<le> blk_height b) (as' @ a # cs) = a # cs"
    by (auto simp: filter_empty_conv filter_id_conv not_le)
  then show ?thesis
    unfolding a [symmetric] unfolding as by simp
qed

context comb_node
begin

lemma push_follows:
  assumes "chain_step cp h bs d bs'" "node_inv L C loaded cp h bs s"
    and "node_mode F = MID_NODE_REMOTE" "json_block block_data = Inr d"
  obtains s' where "api_db_push_block F json_block L C block_data s = Inr s'"
    "node_inv L C loaded cp h bs' s'" "flushed L bs' s'"
proof -
  obtain s1 where s1: "neominer_process_block L C d s = Inr s1" "node_inv L C loaded cp h bs' s1"
    by (rule step_follows [OF assms(1,2)])
  obtain s2 where "neominer_write L s1 = Inr s2" "node_inv L C loaded cp h bs' s2" "flushed L bs' s2"
    by (rule write_flushes [OF s1(2)])
  with assms(3,4) s1(1) show ?thesis
    by (intro that) (simp_all add: api_db_push_block_def)
qed

lemma pushes_follow:
  assumes "chain_run cp h bs ds bs'" "node_inv L C loaded cp h bs s" "flushed L bs s"
    and "node_mode F = MID_NODE_REMOTE" "list_all2 (\<lambda>t d. json_block t = Inr d) texts ds"
  shows "\<exists>s'. fold_res (api_db_push_block F json_block L C) texts s = Inr s'
    \<and> node_inv L C loaded cp h bs' s' \<and> flushed L bs' s'"
  using assms
proof (induction arbitrary: s texts rule: chain_run.induct)
  case (run_more bs d bs' ds bs'')
  then obtain t ts where t: "texts = t # ts" "json_block t = Inr d" "list_all2 (\<lambda>t d. json_block t = Inr d) ts ds"
    by (auto simp: list_all2_Cons2)
  obtain s1 where "api_db_push_block F json_block L C t s = Inr s1"
    "node_inv L C loaded cp h bs' s1" "flushed L bs' s1"
    by (rule push_follows [where json_block = json_block, OF run_more.hyps(1) run_more.prems(1,3) t(2)])
  with run_more.IH [of s1 ts] run_more.prems(3) t show ?case by simp
qed auto

lemma remove_found:
  assumes inv: "node_inv L C loaded cp h (as @ cs) s" and fl: "flushed L (as @ cs) s" and as: "as \<noteq> []"
    and mode: "node_mode F = MID_NODE_REMOTE" and at: "atoi height = Inr n"
    and found: "db_get_block_by_height L (node_db s) (word_of_int n) = Some (Blk_Metadata (last as))"
  obtains s' where "api_db_remove_blocks_after_height F L C height s = Inr s'"
    "node_inv L C loaded cp h as s'" "flushed L as s'"
proof -
  have chain: "valid_chain cp h (as @ cs)" and mem: "in_memory C loaded cp h (as @ cs) s"
    and db: "db_holds L (node_db s) (as @ cs)"
    using inv fl by (simp_all add: node_inv_def flushed_def)
  obtain d l where r: "combcore_reorg L C (tip cp as) s =
       Inr (s\<lparr>COMB_Hash := tip cp as, node_db := d, COMB_Height := h + of_nat (length as), node_lib := l\<rparr>)"
    "db_holds L d as"
    "in_memory C loaded cp h as
       (s\<lparr>COMB_Hash := tip cp as, node_db := d, COMB_Height := h + of_nat (length as), node_lib := l\<rparr>)"
    by (rule reorg_to_block [OF chain mem db as])
  have run: "api_db_remove_blocks_after_height F L C height s =
       Inr (s\<lparr>COMB_Hash := tip cp as, node_db := d, COMB_Height := h + of_nat (length as), node_lib := l\<rparr>)"
    using mode at found r(1) as by (simp add: api_db_remove_blocks_after_height_def tip_def)
  have "flushed L as (s\<lparr>COMB_Hash := tip cp as, node_db := d, COMB_Height := h + of_nat (length as), node_lib := l\<rparr>)"
    using fl r(2) by (simp add: flushed_def)
  with run r(3) valid_chain_take [OF chain] show ?thesis
    by (intro that) (simp_all add: node_inv_def flushed_on_disk)
qed

lemma remove_within:
  assumes inv: "node_inv L C loaded cp h (as @ cs) s" and fl: "flushed L (as @ cs) s" and as: "as \<noteq> []"
    and mode: "node_mode F = MID_NODE_REMOTE" and at: "atoi height = Inr n" "word_of_int n = h + of_nat (length as)"
  obtains s' where "api_db_remove_blocks_after_height F L C height s = Inr s'"
    "node_inv L C loaded cp h as s'" "flushed L as s'"
proof -
  have chain: "valid_chain cp h (as @ cs)" and db: "db_holds L (node_db s) (as @ cs)"
    using inv fl by (simp_all add: node_inv_def flushed_def)
  have "db_get_block_by_height L (node_db s) (word_of_int n) = Some (Blk_Metadata (last as))"
    unfolding by_height_holds [OF db] at(2) blocks_from_top [OF chain as] by simp
  then show ?thesis
    by (rule remove_found [OF inv fl as mode at(1)]) (rule that)
qed

text \<open>Below the first block the lookup gives the first block.\<close>

lemma remove_below:
  assumes inv: "node_inv L C loaded cp h (b # bs) s" and fl: "flushed L (b # bs) s"
    and mode: "node_mode F = MID_NODE_REMOTE" and at: "atoi height = Inr n" "word_of_int n \<le> h + 1"
  obtains s' where "api_db_remove_blocks_after_height F L C height s = Inr s'"
    "node_inv L C loaded cp h [b] s'" "flushed L [b] s'"
proof -
  have chain: "valid_chain cp h (b # bs)" and db: "db_holds L (node_db s) (b # bs)"
    using inv fl by (simp_all add: node_inv_def flushed_def)
  have "blk_height b = h + 1"
    using chain by (simp add: valid_chain_def)
  then have "db_get_block_by_height L (node_db s) (word_of_int n) = Some (Blk_Metadata (last [b]))"
    unfolding by_height_holds [OF db] using at(2) by simp
  moreover have "node_inv L C loaded cp h ([b] @ bs) s" "flushed L ([b] @ bs) s" "[b] \<noteq> []"
    using inv fl by simp_all
  ultimately show ?thesis
    using mode at(1) by (rule_tac remove_found) (assumption | rule that)+
qed

text \<open>A height above the tip is looked up as the zero hash.\<close>

lemma remove_above:
  assumes inv: "node_inv L C loaded cp h (b # bs) s" and fl: "flushed L (b # bs) s"
    and mode: "node_mode F = MID_NODE_REMOTE" and at: "atoi height = Inr n"
    and above: "h + of_nat (length (b # bs)) < word_of_int n"
  obtains s' where "api_db_remove_blocks_after_height F L C height s = Inr s'"
    "COMB_Hash s' = zero32" "COMB_Height s' = h + 1" "flushed L [b] s'" "loaded (node_lib s') = [Blk_Commits b]"
    "COMB_Chain s' = COMB_Chain s"
proof -
  have chain: "valid_chain cp h (b # bs)" and mem: "in_memory C loaded cp h (b # bs) s"
    and db: "db_holds L (node_db s) (b # bs)"
    using inv fl by (simp_all add: node_inv_def flushed_def)
  obtain d l where r: "combcore_reorg L C zero32 s =
       Inr (s\<lparr>COMB_Hash := zero32, node_db := d, COMB_Height := h + 1, node_lib := l\<rparr>)"
    "db_holds L d [b]" "lib_GetHeight C l = h + 1" "loaded l = [Blk_Commits b]"
    by (rule reorg_to_zero [OF chain mem db])
  have "blk_height x \<le> h + of_nat (length (b # bs))" if "x \<in> set (b # bs)" for x
    using wf_chain_le_last [OF valid_chain_wf [OF chain]] top_height [OF chain] that by auto
  then have "filter (\<lambda>x. word_of_int n \<le> blk_height x) (b # bs) = []"
    using above by (force simp: filter_empty_conv not_le)
  then have "db_get_block_by_height L (node_db s) (word_of_int n) = Some zero_metadata"
    unfolding by_height_holds [OF db] by simp
  then have run: "api_db_remove_blocks_after_height F L C height s =
       Inr (s\<lparr>COMB_Hash := zero32, node_db := d, COMB_Height := h + 1, node_lib := l\<rparr>)"
    using mode at r(1) by (simp add: api_db_remove_blocks_after_height_def zero_metadata_def)
  show ?thesis
    by (rule that [OF run]) (use r(2,4) fl in \<open>simp_all add: flushed_def\<close>)
qed

lemma stuck_at_zero:
  assumes "wf_chain bs" "on_disk L bs s" "db_holds L (node_db s) bs"
    and "COMB_Hash s = zero32" "COMB_Chain s zero32 = None" "COMB_Chain s (BD_Previous d) \<noteq> None"
    and "BD_Previous d \<noteq> zero32"
  shows "neominer_process_block L C d s = Inl PanicPastCheckpoint"
proof -
  obtain e where "neominer_write L s = Inr (s\<lparr>node_db := e, Neo_Batch := [], Neo_BatchCached := 0\<rparr>)"
    "db_holds L e bs"
    by (rule write_on_disk [OF assms(1,2)])
  moreover have "trace_back (COMB_Chain s) (BD_Previous d) zero32 = Some (Inl PanicPastCheckpoint)"
    using assms(5,7) by (intro trace_back_missing) auto
  ultimately show ?thesis
    using assms(4,6,7) by (auto simp: neominer_process_block_def neominer_reorg_def combcore_reorg_def
        by_hash_holds)
qed

end


lemma atoi_digits: "atoi ''11'' = Inr 11" "atoi ''13'' = Inr 13" "atoi ''7'' = Inr 7"
  by code_simp+

subsection \<open>The properties\<close>

text \<open>
  C27. \<open>get_block_commits\<close> answers with all commits of the block, each once, by increasing order;
  when the orders differ, the answer does not depend on the order in which Go iterates over the
  library's map, and \<open>get_block_coinbase_commit\<close> is the first of them when its order is 0, and
  otherwise empty.
\<close>

theorem block_commits_sorted:
  assumes "atoi block = Inr h" "mset (lib_GetBlockCommits WL l (word_of_int h)) = mset es"
    and "distinct (map (\<lambda>e. Tag_Order (snd e)) es)"
  shows "\<exists>out. api_lib_get_block_commits WL block l = Inr out
    \<and> mset out = mset (map (\<lambda>(commit, t). (fmt_X commit, t)) es)
    \<and> sorted (map (\<lambda>p. Tag_Order (snd p)) out)
    \<and> out = sort_key (\<lambda>p. Tag_Order (snd p)) (map (\<lambda>(commit, t). (fmt_X commit, t)) es)
    \<and> api_lib_get_block_coinbase_commit WL block l
        = Inr (if out \<noteq> [] \<and> Tag_Order (snd (hd out)) = 0 then fst (hd out) else '''')"
proof -
  define out where "out = fold insert_pair (lib_GetBlockCommits WL l (word_of_int h)) []"
  define xs where "xs = map (\<lambda>(commit, t). (fmt_X commit, t)) es"
  have shown: "shown = (\<lambda>(commit, t). (fmt_X commit, t))"
    by (auto simp: shown_def)
  have out: "mset out = mset xs" "sorted (map pair_order out)"
    using insert_pairs [of "lib_GetBlockCommits WL l (word_of_int h)" "[]"] assms(2)
    by (simp_all add: out_def xs_def shown)
  have "map pair_order xs = map (\<lambda>e. Tag_Order (snd e)) es"
    by (auto simp: xs_def)
  with assms(3) have dist: "distinct (map pair_order xs)"
    by simp
  have "mset (map pair_order (sort_key pair_order xs)) = mset (map pair_order xs)"
    "mset (map pair_order out) = mset (map pair_order xs)"
    using out(1) by simp_all
  with dist have dists: "distinct (map pair_order (sort_key pair_order xs))" "distinct (map pair_order out)"
    using mset_eq_imp_distinct_iff by metis+
  have eq: "out = sort_key pair_order xs"
    by (rule sorted_orders_unique [OF _ out(2) _ dists(1)]) (simp_all add: out(1))
  have "api_lib_get_block_coinbase_commit WL block l
      = Inr (if out \<noteq> [] \<and> pair_order (hd out) = 0 then fst (hd out) else '''')"
    using coinbase_head [OF out(2) _ dists(2), of "lib_GetBlockCommits WL l (word_of_int h)"] out(1) assms(1,2)
    by (simp add: api_lib_get_block_coinbase_commit_def xs_def shown to_upper_fmt)
  with assms(1) out eq show ?thesis
    by (simp add: api_lib_get_block_commits_def flip: out_def xs_def)
qed


theorem block_commits_sorted_witness:
  "api_lib_get_block_commits stack_lib ''7'' (((), [])) =
      Inr [(fmt_X (replicate 32 1), \<lparr>Tag_Height = 7, Tag_Order = 0\<rparr>),
           (fmt_X (replicate 32 2), \<lparr>Tag_Height = 7, Tag_Order = 1\<rparr>)]
   \<and> api_lib_get_block_coinbase_commit stack_lib ''7'' (((), [])) = Inr (fmt_X (replicate 32 1))"
proof -
  have commits: "lib_GetBlockCommits stack_lib ((), []) (word_of_int 7) =
      [(replicate 32 2, \<lparr>Tag_Height = 7, Tag_Order = 1\<rparr>), (replicate 32 1, \<lparr>Tag_Height = 7, Tag_Order = 0\<rparr>)]"
    by (simp add: stack_lib_def)
  from block_commits_sorted [OF atoi_digits(3) arg_cong [OF this, of mset]] show ?thesis
    by simp
qed

text \<open>
  Pushed blocks are durable: on a node that takes its blocks from outside, every sequence of
  pushes that follows the specification is accepted, and as each request writes the batch before
  it returns, a restart on the database as it is then loads the whole chain again.
\<close>

theorem pushes_durable:
  assumes "reliable_store L" "libcomb_chain C loaded"
    and "node_inv L C loaded cp h bs s" "flushed L bs s" "list_all good_fingerprint bs"
    and "chain_run cp h bs ds bs'" "node_mode F = MID_NODE_REMOTE"
    and "list_all2 (\<lambda>t d. json_block t = Inr d) texts ds"
    and "in_memory C loaded cp h [] start" "\<not> node_db_is_new start"
  shows "\<exists>s' s''. fold_res (api_db_push_block F json_block L C) texts s = Inr s'
    \<and> node_inv L C loaded cp h bs' s' \<and> flushed L bs' s'
    \<and> db_start L C (start\<lparr>node_db := node_db s'\<rparr>) = Inr s'' \<and> in_memory C loaded cp h bs' s''"
proof -
  note node = comb_nodeI [OF assms(1,2)]
  obtain s' where s': "fold_res (api_db_push_block F json_block L C) texts s = Inr s'"
    "node_inv L C loaded cp h bs' s'" "flushed L bs' s'"
    using comb_node.pushes_follow [where json_block = json_block, OF node assms(6,3,4,7,8)] by blast
  have db: "db_holds L (node_db (start\<lparr>node_db := node_db s'\<rparr>)) bs'" and chain: "valid_chain cp h bs'"
    using s'(2,3) by (simp_all add: flushed_def node_inv_def)
  have mem: "in_memory C loaded cp h [] (start\<lparr>node_db := node_db s'\<rparr>)"
    using assms(9) by (simp add: in_memory_def)
  obtain s'' where "db_start L C (start\<lparr>node_db := node_db s'\<rparr>) = Inr s''" "in_memory C loaded cp h bs' s''"
    by (rule comb_node.start_loads [OF node db chain mem chain_run_good [OF assms(6,5)]]) (use assms(10) in simp)
  with s' show ?thesis by blast
qed

definition remote_flags :: flags where
  "remote_flags = default_flags\<lparr>node_mode := MID_NODE_REMOTE\<rparr>"

definition sample_json :: "string \<Rightarrow> go_error + BlockData" where
  "sample_json text =
     (if text = ''fork'' then Inr (sample_data 113 101 [sample_hash 9])
      else if text = ''next'' then Inr (sample_data 103 102 []) else Inl ErrGibberish)"

lemma sample_flushed: "flushed log_store [sample_1, sample_2] sample_node"
  using sample_db_holds by (simp add: flushed_def sample_node_def)

theorem pushes_durable_witness:
  "\<exists>s' s''. fold_res (api_db_push_block remote_flags sample_json log_store plain_libcomb) [''next'', ''fork''] sample_node
      = Inr s'
    \<and> node_inv log_store plain_libcomb snd (sample_hash 100) 10 [sample_1, fork_block] s'
    \<and> flushed log_store [sample_1, fork_block] s'
    \<and> db_start log_store plain_libcomb (sample_start\<lparr>node_db := node_db s'\<rparr>) = Inr s''
    \<and> in_memory plain_libcomb snd (sample_hash 100) 10 [sample_1, fork_block] s''"
  by (rule pushes_durable [OF log_store_reliable plain_libcomb_chain sample_inv sample_flushed sample_good
        sample_run _ _ sample_start_memory])
    (simp_all add: remote_flags_def sample_json_def sample_start_def sample_node_def)

text \<open>
  C21. \<open>remove_blocks_after_height\<close> at the height of a block of the chain keeps that block and
  everything below it, in memory, in the library and in the database, and removes the rest.
\<close>

theorem remove_blocks_within:
  assumes "reliable_store L" "libcomb_chain C loaded"
    and "node_inv L C loaded cp h (as @ cs) s" "flushed L (as @ cs) s" "as \<noteq> []"
    and "node_mode F = MID_NODE_REMOTE" "atoi height = Inr n" "word_of_int n = h + of_nat (length as)"
  shows "\<exists>s'. api_db_remove_blocks_after_height F L C height s = Inr s'
    \<and> node_inv L C loaded cp h as s' \<and> flushed L as s'"
  using comb_node.remove_within [OF comb_nodeI [OF assms(1,2)] assms(3-8)] by blast

theorem remove_blocks_within_witness:
  "\<exists>s'. api_db_remove_blocks_after_height remote_flags log_store plain_libcomb ''11'' sample_node = Inr s'
    \<and> node_inv log_store plain_libcomb snd (sample_hash 100) 10 [sample_1] s' \<and> flushed log_store [sample_1] s'"
proof -
  have inv: "node_inv log_store plain_libcomb snd (sample_hash 100) 10 ([sample_1] @ [sample_2]) sample_node"
    "flushed log_store ([sample_1] @ [sample_2]) sample_node"
    using sample_inv sample_flushed by simp_all
  have "word_of_int 11 = (10 :: u64) + of_nat (length [sample_1])"
    unfolding word_numeral_alt [symmetric] by simp
  from remove_blocks_within [OF log_store_reliable plain_libcomb_chain inv _ _ atoi_digits(1) this]
  show ?thesis by (simp add: remote_flags_def)
qed


text \<open>
  C32. Above the tip the same request destroys the chain: the lookup of the height gives the zero
  hash, and the node is rolled back to it. Only the first block stays in the database and in the
  library, the tip becomes the zero hash, and every later block on top of the checkpoint or of a
  block the node had panics.
\<close>

theorem remove_above_tip:
  assumes "reliable_store L" "libcomb_chain C loaded"
    and "node_inv L C loaded cp h (b # bs) s" "flushed L (b # bs) s"
    and "node_mode F = MID_NODE_REMOTE" "atoi height = Inr n"
    and "h + of_nat (length (b # bs)) < word_of_int n"
  shows "\<exists>s'. api_db_remove_blocks_after_height F L C height s = Inr s'
    \<and> COMB_Hash s' = zero32 \<and> COMB_Height s' = h + 1
    \<and> db_holds L (node_db s') [b] \<and> loaded (node_lib s') = [Blk_Commits b]
    \<and> (\<forall>d. BD_Previous d \<in> insert cp (blk_hash ` set (b # bs)) \<longrightarrow>
           neominer_process_block L C d s' = Inl PanicPastCheckpoint)"
proof -
  note node = comb_nodeI [OF assms(1,2)]
  obtain s' where s': "api_db_remove_blocks_after_height F L C height s = Inr s'"
    "COMB_Hash s' = zero32" "COMB_Height s' = h + 1" "flushed L [b] s'" "loaded (node_lib s') = [Blk_Commits b]"
    "COMB_Chain s' = COMB_Chain s"
    by (rule comb_node.remove_above [OF node assms(3-7)])
  have "neominer_process_block L C d s' = Inl PanicPastCheckpoint"
    if "BD_Previous d \<in> insert cp (blk_hash ` set (b # bs))" for d
  proof (rule comb_node.stuck_at_zero [OF node])
    show "wf_chain [b]" "on_disk L [b] s'" "db_holds L (node_db s') [b]"
      using s'(4) by (auto simp: flushed_on_disk flushed_def db_holds_def)
    show "COMB_Hash s' = zero32" "COMB_Chain s' zero32 = None" "COMB_Chain s' (BD_Previous d) \<noteq> None"
      "BD_Previous d \<noteq> zero32"
      using assms(3) that s'(2,6)
      by (auto simp: node_inv_def in_memory_def maps_chain_def valid_chain_def)
  qed
  with s' show ?thesis by (auto simp: flushed_def)
qed

theorem remove_above_tip_witness:
  "\<exists>s'. api_db_remove_blocks_after_height remote_flags log_store plain_libcomb ''13'' sample_node = Inr s'
    \<and> COMB_Hash s' = zero32 \<and> COMB_Height s' = 10 + 1
    \<and> db_holds log_store (node_db s') [sample_1] \<and> snd (node_lib s') = [Blk_Commits sample_1]
    \<and> (\<forall>d. BD_Previous d \<in> insert (sample_hash 100) (blk_hash ` set [sample_1, sample_2]) \<longrightarrow>
           neominer_process_block log_store plain_libcomb d s' = Inl PanicPastCheckpoint)"
proof -
  have "(10 :: u64) + of_nat (length [sample_1, sample_2]) < word_of_int 13"
    unfolding word_numeral_alt [symmetric] by simp
  from remove_above_tip [OF log_store_reliable plain_libcomb_chain sample_inv sample_flushed _ atoi_digits(2) this]
  show ?thesis by (simp add: remote_flags_def del: insert_iff)
qed

end
