(* ===== verification/Rpc.thy ===== *)
theory Rpc
  imports Control_Correct Ghetto_Correct
begin

section \<open>Requests between blocks\<close>

text \<open>
  The JSON-RPC methods run beside the miner on the same node. \<open>rpc_step\<close> has a rule for every
  method that changes the state, \<open>serve_run\<close> interleaves requests with delivered blocks in any
  order. The library's wallet operations leave its blocks alone (\<open>wallet_chain\<close>), so requests
  never disturb the chain: what is delivered between them is followed as if there were none.
  A request and a block are single steps; data races inside one are not modelled.
\<close>

inductive rpc_step ::
  "'l wallet_lib \<Rightarrow> ('d, 'l) node \<Rightarrow> ('d, 'l) node \<Rightarrow> bool" for WL :: "'l wallet_lib" where
  load_transaction: "rpc_step WL s (s\<lparr>node_lib := fst (LoadTransaction WL tx (node_lib s))\<rparr>)"
| load_key: "rpc_step WL s (s\<lparr>node_lib := fst (LoadKey WL k (node_lib s))\<rparr>)"
| load_stack: "rpc_step WL s (s\<lparr>node_lib := fst (LoadStack WL st (node_lib s))\<rparr>)"
| load_decider: "rpc_step WL s (s\<lparr>node_lib := fst (LoadDecider WL d (node_lib s))\<rparr>)"
| load_merkle: "rpc_step WL s (s\<lparr>node_lib := fst (LoadMerkleSegment WL m (node_lib s))\<rparr>)"
| load_unsigned: "rpc_step WL s (s\<lparr>node_lib := fst (LoadUnsignedMerkleSegment WL u (node_lib s))\<rparr>)"
| generate_key: "rpc_step WL s (s\<lparr>node_lib := fst (GenerateKey WL (node_lib s))\<rparr>)"
| generate_decider: "rpc_step WL s (s\<lparr>node_lib := fst (GenerateDecider WL (node_lib s))\<rparr>)"
| load_wallet: "rpc_step WL s (fst (LoadWallet WL data s))"

inductive serve_run ::
  "'d leveldb \<Rightarrow> 'l libcomb \<Rightarrow> 'l wallet_lib \<Rightarrow> ('d, 'l) node \<Rightarrow> BlockData list \<Rightarrow> ('d, 'l) node \<Rightarrow> bool"
  for L :: "'d leveldb" and C :: "'l libcomb" and WL :: "'l wallet_lib" where
  serve_none: "serve_run L C WL s [] s"
| serve_request: "rpc_step WL s s1 \<Longrightarrow> serve_run L C WL s1 ds s2 \<Longrightarrow> serve_run L C WL s ds s2"
| serve_block: "neominer_process_block L C d s = Inr s1 \<Longrightarrow> serve_run L C WL s1 ds s2 \<Longrightarrow>
    serve_run L C WL s (d # ds) s2"

subsection \<open>Requests leave the chain alone\<close>

text \<open>What a request may change: the status line and the wallet part of the library.\<close>

definition same_chain :: "'l libcomb \<Rightarrow> ('l \<Rightarrow> hash256 list list) \<Rightarrow> ('d, 'l) node \<Rightarrow> ('d, 'l) node \<Rightarrow> bool" where
  "same_chain C loaded s s' \<longleftrightarrow>
     (\<exists>l msg locked. s' = s\<lparr>node_lib := l, COMB_Status := msg, COMB_StatusLock := locked\<rparr>
        \<and> lib_GetHeight C l = lib_GetHeight C (node_lib s) \<and> loaded l = loaded (node_lib s))"

lemma same_chain_inv:
  assumes "same_chain C loaded s s'" "node_inv L C loaded cp h bs s"
  shows "node_inv L C loaded cp h bs s'"
  using assms by (auto simp: same_chain_def node_inv_def in_memory_def on_disk_def)

lemma same_chain_lib:
  assumes "keeps_blocks C loaded f"
  shows "same_chain C loaded s (s\<lparr>node_lib := f (node_lib s)\<rparr>)"
  using assms by (auto simp: same_chain_def keeps_blocks_def
      intro!: exI [of _ "f (node_lib s)"] exI [of _ "COMB_Status s"] exI [of _ "COMB_StatusLock s"])

lemma keeps_blocks_id: "keeps_blocks C loaded (\<lambda>l. l)"
  by (simp add: keeps_blocks_def)

lemma keeps_blocks_fold:
  assumes "\<And>x. keeps_blocks C loaded (f x)"
  shows "keeps_blocks C loaded (fold f xs)"
proof -
  have "lib_GetHeight C (fold f xs l) = lib_GetHeight C l \<and> loaded (fold f xs l) = loaded l" for l
    using assms by (induction xs arbitrary: l) (auto simp: keeps_blocks_def)
  then show ?thesis by (simp add: keeps_blocks_def)
qed

lemma keeps_load_prefixed:
  assumes "\<And>b. keeps_blocks C loaded (\<lambda>l. fst (load b l))"
  shows "lib_GetHeight C (fst (snd (load_prefixed pre load st))) = lib_GetHeight C (fst (snd st))
    \<and> loaded (fst (snd (load_prefixed pre load st))) = loaded (fst (snd st))"
  using assms by (cases st) (simp add: load_prefixed_def keeps_blocks_def Let_def)

context wallet_chain
begin

lemmas keeps = keeps_key keeps_stack keeps_transaction keeps_decider keeps_merkle keeps_umerkle
  keeps_new_key keeps_new_decider

lemma keeps_load_construct: "keeps_blocks C loaded (\<lambda>l. fst (wallet_load_construct WL P line l))"
proof -
  have "keeps_blocks C loaded (\<lambda>l. fst (wallet_load_stack WL b l))"
    "keeps_blocks C loaded (\<lambda>l. fst (wallet_load_transaction WL b l))"
    "keeps_blocks C loaded (\<lambda>l. fst (wallet_load_key WL b l))"
    "keeps_blocks C loaded (\<lambda>l. fst (wallet_load_merkle_segment WL b l))"
    "keeps_blocks C loaded (\<lambda>l. fst (wallet_load_decider WL b l))"
    "keeps_blocks C loaded (\<lambda>l. fst (wallet_load_unsigned_merkle_segment WL b l))" for b
    using keeps by (auto simp: keeps_blocks_def wallet_load_stack_def wallet_load_transaction_def
        wallet_load_key_def wallet_load_merkle_segment_def wallet_load_decider_def
        wallet_load_unsigned_merkle_segment_def split_beta)
  note by_kind = this [THEN keeps_load_prefixed]
  show ?thesis
    unfolding keeps_blocks_def wallet_load_construct_def by (simp add: by_kind)
qed

lemma keeps_loaders:
  "keeps_blocks C loaded (\<lambda>l. fst (LoadTransaction WL tx l))"
  "keeps_blocks C loaded (\<lambda>l. fst (LoadKey WL k l))"
  "keeps_blocks C loaded (\<lambda>l. fst (LoadStack WL st l))"
  "keeps_blocks C loaded (\<lambda>l. fst (LoadDecider WL d l))"
  "keeps_blocks C loaded (\<lambda>l. fst (LoadMerkleSegment WL m l))"
  "keeps_blocks C loaded (\<lambda>l. fst (LoadUnsignedMerkleSegment WL u l))"
  "keeps_blocks C loaded (\<lambda>l. fst (GenerateKey WL l))"
  "keeps_blocks C loaded (\<lambda>l. fst (GenerateDecider WL l))"
proof -
  have fsts: "fst (case x of (l, Inl err) \<Rightarrow> (l, Inl err) | (l, Inr v) \<Rightarrow> (l, Inr (f v))) = fst x"
    for x :: "'l \<times> (go_error + hash256)" and f :: "hash256 \<Rightarrow> string"
    by (auto split: prod.splits sum.splits)
  show
    "keeps_blocks C loaded (\<lambda>l. fst (LoadTransaction WL tx l))"
    "keeps_blocks C loaded (\<lambda>l. fst (LoadKey WL k l))"
    "keeps_blocks C loaded (\<lambda>l. fst (LoadStack WL st l))"
    "keeps_blocks C loaded (\<lambda>l. fst (LoadDecider WL d l))"
    "keeps_blocks C loaded (\<lambda>l. fst (LoadMerkleSegment WL m l))"
    "keeps_blocks C loaded (\<lambda>l. fst (LoadUnsignedMerkleSegment WL u l))"
    "keeps_blocks C loaded (\<lambda>l. fst (GenerateKey WL l))"
    "keeps_blocks C loaded (\<lambda>l. fst (GenerateDecider WL l))"
    using keeps by (auto simp: keeps_blocks_def LoadTransaction_def LoadKey_def LoadStack_def LoadDecider_def
        LoadMerkleSegment_def LoadUnsignedMerkleSegment_def GenerateKey_def GenerateDecider_def fsts
        split_beta split: sum.splits)
qed

lemma load_wallet_same: "same_chain C loaded s (wallet_load WL data s)"
proof -
  have "keeps_blocks C loaded (load_line WL P line)" for P line
    using keeps_load_construct by (auto simp: keeps_blocks_def load_line_def)
  then have keep: "keeps_blocks C loaded (fold (load_line WL P) lines)" for P lines
    by (rule keeps_blocks_fold)
  define l where "l = fold (load_line WL (COMB_Prefix s)) (split_lines data) (node_lib s)"
  have "wallet_load WL data s = s\<lparr>node_lib := l, COMB_Status := ''Idle'', COMB_StatusLock := False\<rparr>"
    by (simp add: wallet_load_def combcore_set_status_def combcore_lock_status_def combcore_unlock_status_def
        Let_def l_def)
  then show ?thesis
    using keep unfolding same_chain_def keeps_blocks_def l_def by blast
qed

lemma rpc_same_chain: "rpc_step WL s s' \<Longrightarrow> same_chain C loaded s s'"
  by (induction rule: rpc_step.induct)
    (simp_all add: keeps_loaders [THEN same_chain_lib] LoadWallet_def load_wallet_same)

end

lemma serve_follows:
  assumes "comb_node L C loaded" "wallet_chain C loaded WL"
    and "serve_run L C WL s ds s'" "chain_run cp h bs ds bs'" "node_inv L C loaded cp h bs s"
  shows "node_inv L C loaded cp h bs' s'"
  using assms(3-5)
proof (induction arbitrary: bs rule: serve_run.induct)
  case (serve_request s s1 ds s2)
  then show ?case
    using same_chain_inv [OF wallet_chain.rpc_same_chain [OF assms(2) serve_request.hyps(1)]] by blast
next
  case (serve_block d s s1 ds s2)
  then obtain bs1 where step: "chain_step cp h bs d bs1" "chain_run cp h bs1 ds bs'" by auto
  have "node_inv L C loaded cp h bs1 s1"
    using comb_node.step_follows [OF assms(1) step(1) serve_block.prems(2)] serve_block.hyps(1) by auto
  with step(2) show ?case by (rule serve_block.IH)
qed simp

text \<open>
  Requests do not disturb the chain: whatever JSON-RPC requests are served between delivered
  blocks, in any interleaving, the node follows the blocks as if there were none, \<open>GetStatus\<close>
  reports the height of that chain, and the next block of the specification is accepted.
\<close>

theorem requests_between_blocks:
  assumes "reliable_store L" "wallet_chain C loaded WL"
    and "node_inv L C loaded cp h bs s" "chain_run cp h bs ds bs'" "serve_run L C WL s ds s'"
  shows "node_inv L C loaded cp h bs' s'
    \<and> SI_COMBHeight (GetStatus WL s') = h + of_nat (length bs')
    \<and> (\<forall>d bs''. chain_step cp h bs' d bs'' \<longrightarrow>
         (\<exists>s''. neominer_process_block L C d s' = Inr s'' \<and> node_inv L C loaded cp h bs'' s''))"
proof -
  have node: "comb_node L C loaded"
    using assms(1,2) by (intro comb_nodeI) (simp_all add: wallet_chain_def)
  have inv: "node_inv L C loaded cp h bs' s'"
    by (rule serve_follows [OF node assms(2,5,4,3)])
  then show ?thesis
    using comb_node.step_follows [OF node _ inv] by (auto simp: GetStatus_def node_inv_def in_memory_def) blast
qed


text \<open>The example node with a wallet beside its blocks.\<close>

definition with_stacks :: "'w \<Rightarrow> ('d, 'c) node \<Rightarrow> ('d, 'c \<times> 'w) node" where
  "with_stacks w s =
     \<lparr>COMB_Height = COMB_Height s, COMB_Hash = COMB_Hash s, COMB_Chain = COMB_Chain s,
      COMB_Status = COMB_Status s, COMB_StatusLock = COMB_StatusLock s, COMB_Network = COMB_Network s,
      COMB_Magic = COMB_Magic s, COMB_Prefix = COMB_Prefix s, COMB_Path = COMB_Path s,
      DB_InitialLoad = DB_InitialLoad s, DB_Version = DB_Version s, node_db = node_db s,
      node_db_is_new = node_db_is_new s, Neo_BatchCapacity = Neo_BatchCapacity s,
      Neo_BatchCached = Neo_BatchCached s, Neo_Batch = Neo_Batch s, BTC_RestURL = BTC_RestURL s,
      BTC_DirectPath = BTC_DirectPath s, BTC_Chain = BTC_Chain s, node_lib = (node_lib s, w)\<rparr>"

lemma with_stacks_inv:
  "node_inv L C loaded cp h bs s \<Longrightarrow>
     node_inv L (with_wallet C) (\<lambda>l. loaded (fst l)) cp h bs (with_stacks w s)"
  by (simp add: node_inv_def in_memory_def on_disk_def with_stacks_def)

theorem requests_between_blocks_witness:
  "\<exists>s1 s'. serve_run log_store (with_wallet plain_libcomb) stack_lib (with_stacks [] sample_node)
       [sample_data 113 101 [sample_hash 9]] s'
    \<and> snd (node_lib s1) = [some_stack] \<and> rpc_step stack_lib (with_stacks [] sample_node) s1
    \<and> SI_COMBHeight (GetStatus stack_lib s') = 12"
proof -
  let ?s = "with_stacks ([] :: lib_stack list) sample_node"
  define printed where "printed = wallet_stringify_stack stack_lib (((0 :: u64, []), []) :: (u64 \<times> hash256 list list) \<times> lib_stack list) some_stack"
  define s1 where "s1 = ?s\<lparr>node_lib := fst (LoadStack stack_lib printed (node_lib ?s))\<rparr>"
  have inv: "node_inv log_store (with_wallet plain_libcomb) (\<lambda>l. snd (fst l)) (sample_hash 100) 10 [sample_1, sample_2] ?s"
    by (rule with_stacks_inv [OF sample_inv])
  have request: "rpc_step stack_lib ?s s1"
    unfolding s1_def by (rule rpc_step.load_stack)
  have "node_inv log_store (with_wallet plain_libcomb) (\<lambda>l. snd (fst l)) (sample_hash 100) 10 [sample_1, sample_2] s1"
    by (rule same_chain_inv [OF wallet_chain.rpc_same_chain [OF stacks_chain request] inv])
  then obtain s2 where "neominer_process_block log_store (with_wallet plain_libcomb)
      (sample_data 113 101 [sample_hash 9]) s1 = Inr s2"
    using comb_node.step_follows [OF comb_nodeI [OF log_store_reliable stacks.libcomb_chain_axioms] sample_replace]
    by blast
  then have run: "serve_run log_store (with_wallet plain_libcomb) stack_lib ?s [sample_data 113 101 [sample_hash 9]] s2"
    by (rule serve_request [OF request serve_block [OF _ serve_none]])
  have fork: "chain_run (sample_hash 100) 10 [sample_1, sample_2] [sample_data 113 101 [sample_hash 9]] [sample_1, fork_block]"
    using sample_replace by (auto intro: chain_run.intros)
  have "wallet_parse_stack printed = Inr some_stack"
    by (simp add: printed_def wallet_parse_stack_def wallet_stringify_stack_def some_stack_def)
  then have "snd (node_lib s1) = [some_stack]"
    by (simp add: s1_def LoadStack_def) (simp add: stack_lib_def with_stacks_def)
  with run request requests_between_blocks [OF log_store_reliable stacks_chain inv fork run]
  show ?thesis by (intro exI [of _ s1] exI [of _ s2]) simp
qed

end
