(* ===== verification/Rpc_Dispatch.thy ===== *)
theory Rpc_Dispatch
  imports Rpc_Server Rpc
begin

section \<open>What a JSON-RPC request can do\<close>

text \<open>
  Every request that \<open>httpHandler\<close> serves is a step of \<open>rpc_step\<close> or leaves the node as it is, so
  what \<open>Rpc\<close> shows about the methods holds for all bytes a client may send.
\<close>

subsection \<open>The methods\<close>

definition writing_methods :: "string list" where
  "writing_methods =
    [''LoadTransaction'', ''LoadKey'', ''LoadStack'', ''LoadDecider'', ''LoadMerkleSegment'', ''GenerateKey'',
     ''GenerateDecider'', ''LoadUnsignedMerkleSegment'', ''LoadWallet'']"

definition panicking_methods :: "string list" where
  "panicking_methods = [''GetBlockByHeight'', ''GetFingerprint'']"

definition good_method :: "'l wallet_lib \<Rightarrow> string \<times> ('d, 'l, 'j) rpc_method \<Rightarrow> bool" where
  "good_method WL m \<longleftrightarrow>
     (\<forall>j s. (fst (snd m j s) = s \<or> fst m \<in> set writing_methods \<and> rpc_step WL s (fst (snd m j s)))
        \<and> (snd (snd m j s) = Panicked \<longrightarrow> fst m \<in> set panicking_methods \<and> fst (snd m j s) = s))"

lemma fst_calls [simp]:
  "fst (on_wallet reply call s) = s\<lparr>node_lib := fst (call (node_lib s))\<rparr>"
  "fst (answer reply r s) = s"
  "fst (or_panic reply x s) = s"
  by (simp_all add: on_wallet_def answer_def or_panic_def split: prod.split)

lemma snd_calls [simp]:
  "snd (on_wallet reply call s) \<noteq> Panicked"
  "snd (answer reply r s) \<noteq> Panicked"
  "snd (or_panic reply x s) = Panicked \<longleftrightarrow> x = None"
  by (simp_all add: on_wallet_def answer_def or_panic_def split: prod.split option.split)

lemma decoded_cases:
  "(\<And>err. dec j = Inl err \<Longrightarrow> P (s, Returned (Inl err))) \<Longrightarrow> (\<And>a. dec j = Inr a \<Longrightarrow> P (f a s)) \<Longrightarrow> P (decoded dec f j s)"
  by (cases "dec j") (simp_all add: decoded_def)

lemma good_read:
  assumes "\<And>a s. fst (f a s) = s" "\<And>a s. snd (f a s) = Panicked \<Longrightarrow> name \<in> set panicking_methods"
  shows "good_method WL (name, decoded dec f)"
  unfolding good_method_def fst_conv snd_conv by (intro allI, rule decoded_cases) (use assms in auto)

lemma good_write:
  assumes "name \<in> set writing_methods" "\<And>a s. rpc_step WL s (fst (f a s))" "\<And>a s. snd (f a s) \<noteq> Panicked"
  shows "good_method WL (name, decoded dec f)"
  unfolding good_method_def fst_conv snd_conv by (intro allI, rule decoded_cases) (use assms in auto)

lemma load_wallet_call:
  "fst (case LoadWallet WL a s of (s, r) \<Rightarrow> answer reply r s) = fst (LoadWallet WL a s)"
  "snd (case LoadWallet WL a s of (s, r) \<Rightarrow> answer reply r s) \<noteq> Panicked"
  by (simp_all split: prod.split)

lemma methods_good: "list_all (good_method WL) (control_methods WL L J)"
  unfolding control_methods_def list.pred_inject
  by (intro conjI TrueI;
      ((rule good_write; simp add: writing_methods_def load_wallet_call rpc_step.intros; fail)
     | (rule good_read; simp add: panicking_methods_def; fail)
     | (simp; fail)))

subsection \<open>Finding the method\<close>

definition control_name :: "string \<Rightarrow> string" where
  "control_name name = ''Control.'' @ name"

lemma split_last_plain: "c \<notin> set ys \<Longrightarrow> split_last c (xs @ c # ys) = Some (xs, ys)"
proof -
  assume "c \<notin> set ys"
  then have "takeWhile (\<lambda>x. x \<noteq> c) (rev ys @ c # rev xs) = rev ys"
    "dropWhile (\<lambda>x. x \<noteq> c) (rev ys @ c # rev xs) = c # rev xs"
    by (auto simp: takeWhile_append dropWhile_append)
  then show ?thesis
    by (simp add: split_last_def)
qed

lemma split_last_SomeD: "split_last c zs = Some (xs, ys) \<Longrightarrow> zs = xs @ c # ys"
proof -
  assume *: "split_last c zs = Some (xs, ys)"
  then have "c \<in> set zs"
    by (simp add: split_last_def split: if_splits)
  then obtain xs' ys' where "zs = xs' @ c # ys'" "c \<notin> set ys'"
    using split_list_last by metis
  with * show ?thesis
    by (simp add: split_last_plain)
qed

lemma find_method_InrD:
  "find_method methods service_method = Inr m \<Longrightarrow>
     \<exists>name. service_method = control_name name \<and> map_of methods name = Some m"
  unfolding find_method_def control_name_def
  by (auto dest!: split_last_SomeD split: option.splits prod.splits if_splits)

lemma find_method_unknown:
  assumes "service_method \<notin> control_name ` fst ` set methods"
  shows "\<exists>err. find_method methods service_method = Inl err"
proof (cases "find_method methods service_method")
  case (Inr m)
  then obtain name where "service_method = control_name name" "(name, m) \<in> set methods"
    by (auto dest!: find_method_InrD dest: map_of_SomeD)
  with assms show ?thesis by force
qed simp

lemma found_good:
  assumes "find_method (control_methods WL L J) service_method = Inr m"
  obtains name where "service_method = control_name name" "good_method WL (name, m)"
proof -
  obtain name where "service_method = control_name name" "map_of (control_methods WL L J) name = Some m"
    using find_method_InrD [OF assms] by blast
  then show ?thesis
    using methods_good [of WL L J] by (auto simp: list_all_iff dest!: map_of_SomeD intro: that)
qed

subsection \<open>Serving\<close>

text \<open>What is known of a served request, by the method it asks for.\<close>

lemma served_request:
  fixes WL :: "'l wallet_lib" and L :: "'d leveldb" and s :: "('d, 'l) node"
  assumes "rpc_request J body = Some (service_method, ident, params)"
  defines "served \<equiv> httpHandler WL L J body s"
  shows "(\<exists>r. served = (s, Some (rpc_response J ident r)))
    \<or> served = (s, None) \<and> service_method \<in> control_name ` set panicking_methods
    \<or> rpc_step WL s (fst served) \<and> service_method \<in> control_name ` set writing_methods
        \<and> (\<exists>r. snd served = Some (rpc_response J ident r))"
proof (cases "find_method (control_methods WL L J) service_method")
  case (Inr m)
  show ?thesis
  proof (cases params)
    case (Some j)
    obtain name where name: "service_method = control_name name" "good_method WL (name, m)"
      using Inr by (rule found_good)
    have "served = (case m j s of (s, Panicked) \<Rightarrow> (s, None) | (s, Returned r) \<Rightarrow> (s, Some (rpc_response J ident r)))"
      by (simp add: served_def httpHandler_def assms(1) Inr Some)
    moreover have "panicking_methods \<noteq> []"
      by (simp add: panicking_methods_def)
    ultimately show ?thesis
      using name unfolding good_method_def
      by (cases "m j s") (auto split: call_result.splits dest!: spec [of _ j] spec [of _ s])
  qed (auto simp: served_def httpHandler_def assms(1) Inr)
qed (auto simp: served_def httpHandler_def assms(1))

lemma unknown_method:
  assumes "rpc_request J body = Some (service_method, ident, params)"
    and "service_method \<notin> control_name ` fst ` set (control_methods WL L J)"
  shows "\<exists>err. httpHandler WL L J body s = (s, Some (rpc_response J ident (Inl err)))"
  using find_method_unknown [OF assms(2)] by (auto simp: httpHandler_def assms(1))

lemma served_step:
  "fst (httpHandler WL L J body s) = s \<or> rpc_step WL s (fst (httpHandler WL L J body s))"
proof (cases "rpc_request J body")
  case (Some q)
  obtain service_method ident params where "q = (service_method, ident, params)" by (cases q)
  with Some have "rpc_request J body = Some (service_method, ident, params)" by simp
  from served_request [OF this, of WL L s] show ?thesis by auto
qed (simp add: httpHandler_def)

lemma same_chain_refl [simp]: "same_chain C loaded s s"
  unfolding same_chain_def by (intro exI [of _ "node_lib s"] exI [of _ "COMB_Status s"] exI [of _ "COMB_StatusLock s"]) simp

lemma served_same_chain:
  "wallet_chain C loaded WL \<Longrightarrow> same_chain C loaded s (fst (httpHandler WL L J body s))"
  using served_step [of WL L J body s] wallet_chain.rpc_same_chain same_chain_refl by metis

text \<open>
  C7. Every sequence of bytes posted to the RPC server keeps the chain of the node. A request that
  cannot be decoded has no effect and no response. Any other is answered under its own
  identifier, unless it asks for one of the two methods that may panic, which have no effect then;
  the node changes only at the nine methods that load or generate wallet data, and only as those
  methods do; a method that is not registered is an error response and no more.
\<close>

theorem rpc_dispatch:
  assumes "wallet_chain C loaded WL"
  shows "same_chain C loaded s (fst (httpHandler WL L J body s))
    \<and> (case rpc_request J body of
         None \<Rightarrow> httpHandler WL L J body s = (s, None)
       | Some (service_method, ident, params) \<Rightarrow>
           (snd (httpHandler WL L J body s) = None \<longrightarrow>
              fst (httpHandler WL L J body s) = s
              \<and> service_method \<in> control_name ` set [''GetBlockByHeight'', ''GetFingerprint''])
         \<and> (\<forall>b. snd (httpHandler WL L J body s) = Some b \<longrightarrow> (\<exists>r. b = rpc_response J ident r))
         \<and> (fst (httpHandler WL L J body s) \<noteq> s \<longrightarrow>
              rpc_step WL s (fst (httpHandler WL L J body s))
              \<and> service_method \<in> control_name ` set
                  [''LoadTransaction'', ''LoadKey'', ''LoadStack'', ''LoadDecider'', ''LoadMerkleSegment'', ''GenerateKey'',
                   ''GenerateDecider'', ''LoadUnsignedMerkleSegment'', ''LoadWallet''])
         \<and> (service_method \<notin> control_name ` fst ` set (control_methods WL L J) \<longrightarrow>
              (\<exists>err. httpHandler WL L J body s = (s, Some (rpc_response J ident (Inl err))))))"
proof (cases "rpc_request J body")
  case (Some q)
  obtain service_method ident params where q: "q = (service_method, ident, params)" by (cases q)
  with Some have request: "rpc_request J body = Some (service_method, ident, params)" by simp
  show ?thesis
    unfolding request option.case prod.case writing_methods_def [symmetric] panicking_methods_def [symmetric]
    using served_request [OF request, of WL L s] unknown_method [OF request, of WL L s] served_same_chain [OF assms]
    by (intro conjI impI allI) auto
qed (simp add: httpHandler_def)

text \<open>A client that knows two requests, one of them for a method that does not exist.\<close>

definition printed_stack :: Stack where
  "printed_stack = wallet_stringify_stack stack_lib (((0 :: u64, []), []) :: (u64 \<times> hash256 list list) \<times> lib_stack list) some_stack"

definition stack_codec :: "unit json_codec" where
  "stack_codec =
     \<lparr>rpc_request = (\<lambda>body.
        if body = [] then None
        else Some (if body = [1] then ''Control.LoadStack'' else ''Control.Reboot'', None, Some ())),
      rpc_response = (\<lambda>ident r. case r of Inl _ \<Rightarrow> [0] | Inr _ \<Rightarrow> [1]),
      arg_transaction = (\<lambda>_. Inl (ErrExternal '''')), arg_unsigned_transaction = (\<lambda>_. Inl (ErrExternal '''')),
      arg_key = (\<lambda>_. Inl (ErrExternal '''')), arg_stack = (\<lambda>_. Inr printed_stack), arg_decider = (\<lambda>_. Inl (ErrExternal '''')),
      arg_merkle = (\<lambda>_. Inl (ErrExternal '''')), arg_unsigned_merkle = (\<lambda>_. Inl (ErrExternal '''')),
      arg_sign_decider = (\<lambda>_. Inl (ErrExternal '''')), arg_construct_unsigned = (\<lambda>_. Inl (ErrExternal '''')),
      arg_compute_proof = (\<lambda>_. Inl (ErrExternal '''')), arg_decide = (\<lambda>_. Inl (ErrExternal '''')),
      arg_string = (\<lambda>_. Inl (ErrExternal '''')), arg_strings = (\<lambda>_. Inl (ErrExternal '''')), arg_int = (\<lambda>_. Inl (ErrExternal '''')),
      arg_any = Inr, arg_empty = Inr\<rparr>"

lemma find_load_stack:
  "find_method (control_methods WL L J) ''Control.LoadStack'' =
     Inr (decoded (arg_stack J) (\<lambda>a. on_wallet ReplyString (LoadStack WL a)))"
  by (simp add: find_method_def split_last_def control_methods_def)

theorem rpc_dispatch_witness:
  "let s = with_stacks [] sample_node;
       serve = \<lambda>body. httpHandler stack_lib log_store stack_codec body s
   in snd (node_lib (fst (serve [1]))) = [some_stack] \<and> snd (serve [1]) = Some [1]
    \<and> same_chain (with_wallet plain_libcomb) (\<lambda>l. snd (fst l)) s (fst (serve [1]))
    \<and> serve [] = (s, None) \<and> serve [2] = (s, Some [0])"
proof -
  let ?s = "with_stacks ([] :: lib_stack list) sample_node"
  let ?serve = "\<lambda>body. httpHandler stack_lib log_store stack_codec body ?s"
  note dispatch = rpc_dispatch [OF stacks_chain, of ?s log_store stack_codec]
  have "wallet_parse_stack printed_stack = Inr some_stack"
    by (simp add: printed_stack_def wallet_parse_stack_def wallet_stringify_stack_def some_stack_def)
  then have "snd (node_lib (fst (?serve [1]))) = [some_stack]" "snd (?serve [1]) = Some [1]"
    unfolding httpHandler_def stack_codec_def
    by (simp_all add: find_load_stack decoded_def on_wallet_def LoadStack_def split_beta)
      (simp_all add: stack_lib_def with_stacks_def)
  moreover have "?serve [] = (?s, None)"
    using dispatch [of "[]"] by (simp add: stack_codec_def)
  moreover have "?serve [2] = (?s, Some [0])"
    using dispatch [of "[2]"] by (auto simp: stack_codec_def control_name_def control_methods_def)
  ultimately show ?thesis
    using dispatch [of "[1]"] by (simp add: Let_def)
qed

end
