(* ===== verification/Recovered_Panics.thy ===== *)
theory Recovered_Panics
  imports Ghetto_Correct
begin

section \<open>What a panic in a handler leaves behind\<close>

text \<open>
  \<open>net/http\<close> recovers a panic of a handler, and the node goes on with whatever the handler has
  changed before. The other theories forget that state: in the miner's goroutine a panic ends the
  program. Here the two private endpoints and the operations below them return the state together with the
  panic, and agree with the definitions of \<open>Combcore\<close>, \<open>Neominer\<close> and \<open>Ghetto_Api\<close> otherwise. The
  state next to \<open>NoReturn\<close>, a loop that does not end, has no meaning.
\<close>

type_synonym ('d, 'l) outcome = "go_stop option \<times> ('d, 'l) node"

fun outcome_result :: "('d, 'l) outcome \<Rightarrow> go_stop + ('d, 'l) node" where
  "outcome_result (None, s) = Inr s"
| "outcome_result (Some stop, s) = Inl stop"

fun then_outcome :: "('d, 'l) outcome \<Rightarrow> (('d, 'l) node \<Rightarrow> ('d, 'l) outcome) \<Rightarrow> ('d, 'l) outcome" where
  "then_outcome (None, s) f = f s"
| "then_outcome (Some stop, s) f = (Some stop, s)"

lemma then_outcome_result:
  "outcome_result (then_outcome m f) = try_then (outcome_result m) (\<lambda>s. outcome_result (f s))"
  by (cases "(m, f)" rule: then_outcome.cases) simp_all

definition write_outcome :: "'d leveldb \<Rightarrow> ('d, 'l) node \<Rightarrow> ('d, 'l) outcome" where
  "write_outcome L s =
     (case db_write L (node_db s) (Neo_Batch s) of
        (Some err, d, b) \<Rightarrow> (Some (PanicBatchWrite err), s\<lparr>node_db := d, Neo_Batch := b\<rparr>)
      | (None, d, b) \<Rightarrow> (None, s\<lparr>node_db := d, Neo_Batch := b, Neo_BatchCached := 0\<rparr>))"

definition process_outcome :: "'l libcomb \<Rightarrow> Block \<Rightarrow> ('d, 'l) node \<Rightarrow> ('d, 'l) outcome" where
  "process_outcome C block s =
     (if BM_Hash (Blk_Metadata block) = zero32 then (None, s)
      else if BM_Previous (Blk_Metadata block) \<noteq> COMB_Hash s then (Some PanicSanityChain, s)
      else
        let lib = lib_LoadBlock C (Blk_Commits block) (node_lib s);
            s = s\<lparr>node_lib := lib, COMB_Height := lib_GetHeight C lib\<rparr>
        in if COMB_Height s \<noteq> BM_Height (Blk_Metadata block) then (Some PanicSanityHeight, s)
           else (None, s\<lparr>COMB_Chain := (COMB_Chain s)(BM_Hash (Blk_Metadata block) \<mapsto> COMB_Hash s),
                         COMB_Hash := BM_Hash (Blk_Metadata block)\<rparr>))"

text \<open>
  When the walk back leaves the map, \<open>COMBInfo.Hash, ok = COMBInfo.Chain[COMBInfo.Hash]\<close> has stored
  the zero value before the panic.
\<close>

definition reorg_outcome :: "'d leveldb \<Rightarrow> 'l libcomb \<Rightarrow> hash256 \<Rightarrow> ('d, 'l) node \<Rightarrow> ('d, 'l) outcome" where
  "reorg_outcome L C target s =
     (case db_get_block_by_hash L (node_db s) target of
        None \<Rightarrow> (Some PanicBounds, s)
      | Some metadata \<Rightarrow>
          (case trace_back (COMB_Chain s) target (COMB_Hash s) of
             None \<Rightarrow> (Some NoReturn, s)
           | Some (Inl stop) \<Rightarrow> (Some stop, s\<lparr>COMB_Hash := zero32\<rparr>)
           | Some (Inr hash) \<Rightarrow>
               (case db_remove_blocks_after L (node_db s) (BM_Height metadata + 1) of (_, d) \<Rightarrow>
                let s = s\<lparr>COMB_Hash := hash, node_db := d\<rparr>
                in case unload_to C (BM_Height metadata) (COMB_Height s) (node_lib s) of
                     None \<Rightarrow> (Some NoReturn, s)
                   | Some (height, lib) \<Rightarrow>
                       (None, s\<lparr>COMB_Height := height, node_lib := lib_FinishReorg C lib\<rparr>))))"

definition neominer_reorg_outcome ::
  "'d leveldb \<Rightarrow> 'l libcomb \<Rightarrow> hash256 \<Rightarrow> ('d, 'l) node \<Rightarrow> ('d, 'l) outcome" where
  "neominer_reorg_outcome L C previous s =
     (if previous \<noteq> COMB_Hash s then
        (case COMB_Chain s previous of
           None \<Rightarrow> (Some PanicChainBroken, s)
         | Some _ \<Rightarrow> then_outcome (write_outcome L s) (reorg_outcome L C previous))
      else (None, s))"

definition neominer_outcome ::
  "'d leveldb \<Rightarrow> 'l libcomb \<Rightarrow> BlockData \<Rightarrow> ('d, 'l) node \<Rightarrow> ('d, 'l) outcome" where
  "neominer_outcome L C block_data s =
     then_outcome (neominer_reorg_outcome L C (BD_Previous block_data) s) (\<lambda>s.
       if BD_Previous block_data \<noteq> COMB_Hash s then (Some PanicReorgFailed, s)
       else
         let block = neominer_block block_data (COMB_Height s + 1)
         in case db_process_block L (node_db s) (Neo_Batch s) block of
              (Some err, b) \<Rightarrow> (Some (PanicStoreBlock err), s\<lparr>Neo_Batch := b\<rparr>)
            | (None, b) \<Rightarrow>
                then_outcome
                  (process_outcome C block (s\<lparr>Neo_Batch := b, Neo_BatchCached := Neo_BatchCached s + 1\<rparr>))
                  (\<lambda>s. if Neo_BatchCached s \<ge> Neo_BatchCapacity s then write_outcome L s else (None, s)))"

definition push_outcome ::
  "flags \<Rightarrow> (string \<Rightarrow> go_error + BlockData) \<Rightarrow> 'd leveldb \<Rightarrow> 'l libcomb \<Rightarrow> string \<Rightarrow> ('d, 'l) node
     \<Rightarrow> ('d, 'l) outcome" where
  "push_outcome F json_block L C block_data s =
     (if node_mode F \<noteq> MID_NODE_REMOTE then (None, s)
      else case json_block block_data of
             Inl _ \<Rightarrow> (None, s)
           | Inr inc_block \<Rightarrow> then_outcome (neominer_outcome L C inc_block s) (write_outcome L))"

definition remove_outcome ::
  "flags \<Rightarrow> 'd leveldb \<Rightarrow> 'l libcomb \<Rightarrow> string \<Rightarrow> ('d, 'l) node \<Rightarrow> ('d, 'l) outcome" where
  "remove_outcome F L C height s =
     (if node_mode F \<noteq> MID_NODE_REMOTE then (None, s)
      else case atoi height of
             Inl _ \<Rightarrow> (None, s)
           | Inr h \<Rightarrow>
               (case db_get_block_by_height L (node_db s) (word_of_int h) of
                  None \<Rightarrow> (Some PanicBounds, s)
                | Some md \<Rightarrow> reorg_outcome L C (BM_Hash md) s))"

text \<open>A request after the other, whether they panic or not.\<close>

definition serve_pushes ::
  "flags \<Rightarrow> (string \<Rightarrow> go_error + BlockData) \<Rightarrow> 'd leveldb \<Rightarrow> 'l libcomb \<Rightarrow> string list \<Rightarrow> ('d, 'l) node
     \<Rightarrow> ('d, 'l) node" where
  "serve_pushes F json_block L C texts s =
     fold (\<lambda>block_data s. snd (push_outcome F json_block L C block_data s)) texts s"

subsection \<open>The same results\<close>

lemma write_result: "outcome_result (write_outcome L s) = neominer_write L s"
  by (simp add: write_outcome_def neominer_write_def split: prod.split option.split)

lemma process_result: "outcome_result (process_outcome C block s) = combcore_process_block C block s"
  by (simp add: process_outcome_def combcore_process_block_def Let_def)

lemma reorg_result: "outcome_result (reorg_outcome L C target s) = combcore_reorg L C target s"
  by (simp add: reorg_outcome_def combcore_reorg_def Let_def or_else_def
      split: option.split sum.split prod.split)

lemma neominer_reorg_result: "outcome_result (neominer_reorg_outcome L C previous s) = neominer_reorg L C previous s"
  by (simp add: neominer_reorg_outcome_def neominer_reorg_def then_outcome_result write_result reorg_result
      split: option.split)

lemma flush_result:
  "outcome_result (if full then write_outcome L s else (None, s)) = (if full then neominer_write L s else Inr s)"
  by (simp add: write_result)

lemma neominer_result: "outcome_result (neominer_outcome L C d s) = neominer_process_block L C d s"
  unfolding neominer_outcome_def neominer_process_block_def then_outcome_result neominer_reorg_result
  by (rule arg_cong [where f = "try_then _"])
    (auto simp: fun_eq_iff Let_def then_outcome_result process_result flush_result
      split: prod.split option.split)

lemma push_result:
  "outcome_result (push_outcome F json_block L C block_data s) = api_db_push_block F json_block L C block_data s"
  by (simp add: push_outcome_def api_db_push_block_def then_outcome_result neominer_result write_result
      split: sum.split)

lemma remove_result:
  "outcome_result (remove_outcome F L C height s) = api_db_remove_blocks_after_height F L C height s"
  by (simp add: remove_outcome_def api_db_remove_blocks_after_height_def reorg_result split: sum.split option.split)

subsection \<open>Stuck at the zero hash\<close>

definition settled :: "'d leveldb \<Rightarrow> Block list \<Rightarrow> ('d, 'l) node \<Rightarrow> bool" where
  "settled L bs s \<longleftrightarrow> db_holds L (node_db s) bs \<and> Neo_Batch s = []"

definition zeroed :: "'d leveldb \<Rightarrow> Block list \<Rightarrow> ('d, 'l) node \<Rightarrow> bool" where
  "zeroed L bs s \<longleftrightarrow> settled L bs s \<and> COMB_Hash s = zero32 \<and> COMB_Chain s zero32 = None"

lemma outcome_result_Inr: "outcome_result m = Inr s \<longleftrightarrow> m = (None, s)"
  by (cases m rule: outcome_result.cases) auto

context comb_node
begin

lemma write_settled:
  assumes "settled L bs s"
  obtains e where "write_outcome L s = (None, s\<lparr>node_db := e, Neo_Batch := [], Neo_BatchCached := 0\<rparr>)" "db_holds L e bs"
proof -
  have "wf_chain bs" "apply_batch [] (map_of (ldb_entries L (node_db s))) = map_of (stored bs)"
    using assms by (simp_all add: settled_def db_holds_def)
  then obtain e where "db_write L (node_db s) [] = (None, e, [])" "db_holds L e bs"
    by (rule write_holds)
  with assms show ?thesis
    by (intro that [of e]) (simp_all add: write_outcome_def settled_def)
qed

lemma panic_zeroes:
  assumes "settled L bs s" "COMB_Chain s (BD_Previous d) \<noteq> None" "BD_Previous d \<noteq> COMB_Hash s"
    and "trace_back (COMB_Chain s) (BD_Previous d) (COMB_Hash s) = Some (Inl PanicPastCheckpoint)"
    and "COMB_Chain s zero32 = None"
  obtains s' where "neominer_outcome L C d s = (Some PanicPastCheckpoint, s')" "zeroed L bs s'"
proof -
  obtain e where e: "write_outcome L s = (None, s\<lparr>node_db := e, Neo_Batch := [], Neo_BatchCached := 0\<rparr>)"
    "db_holds L e bs"
    by (rule write_settled [OF assms(1)])
  have "neominer_outcome L C d s =
      (Some PanicPastCheckpoint, s\<lparr>node_db := e, Neo_Batch := [], Neo_BatchCached := 0, COMB_Hash := zero32\<rparr>)"
    using assms(2-4) e by_hash_holds [OF e(2), of "BD_Previous d"]
    by (auto simp: neominer_outcome_def neominer_reorg_outcome_def reorg_outcome_def)
  moreover have "zeroed L bs (s\<lparr>node_db := e, Neo_Batch := [], Neo_BatchCached := 0, COMB_Hash := zero32\<rparr>)"
    using e(2) assms(5) by (simp add: zeroed_def settled_def)
  ultimately show ?thesis by (rule that)
qed

lemma zeroed_refuses:
  assumes "zeroed L bs s" "BD_Previous d \<noteq> zero32"
  obtains stop s' where "neominer_outcome L C d s = (Some stop, s')" "zeroed L bs s'"
proof (cases "COMB_Chain s (BD_Previous d)")
  case None
  then have "neominer_outcome L C d s = (Some PanicChainBroken, s)"
    using assms by (simp add: neominer_outcome_def neominer_reorg_outcome_def zeroed_def)
  then show ?thesis using assms(1) by (rule that)
next
  case (Some p)
  have "trace_back (COMB_Chain s) (BD_Previous d) zero32 = Some (Inl PanicPastCheckpoint)"
    using assms by (intro trace_back_missing) (auto simp: zeroed_def)
  then obtain s' where "neominer_outcome L C d s = (Some PanicPastCheckpoint, s')" "zeroed L bs s'"
    using panic_zeroes [of bs s d] assms Some by (auto simp: zeroed_def)
  then show ?thesis by (rule that)
qed

lemma zeroed_pushes:
  assumes "zeroed L bs s" "\<And>t x. t \<in> set texts \<Longrightarrow> json_block t = Inr x \<Longrightarrow> BD_Previous x \<noteq> zero32"
  shows "zeroed L bs (serve_pushes F json_block L C texts s)"
  using assms
proof (induction texts arbitrary: s)
  case (Cons t texts)
  have "zeroed L bs (snd (push_outcome F json_block L C t s))"
  proof (cases "node_mode F = MID_NODE_REMOTE \<and> \<not> isl (json_block t)")
    case True
    then obtain x where x: "json_block t = Inr x" by (cases "json_block t") auto
    then have "BD_Previous x \<noteq> zero32" using Cons.prems(2) [of t x] by simp
    then obtain stop s' where "neominer_outcome L C x s = (Some stop, s')" "zeroed L bs s'"
      by (rule zeroed_refuses [OF Cons.prems(1)])
    with True x show ?thesis by (simp add: push_outcome_def)
  qed (use Cons.prems in \<open>auto simp: push_outcome_def split: sum.split\<close>)
  then have "zeroed L bs (serve_pushes F json_block L C texts (snd (push_outcome F json_block L C t s)))"
    by (rule Cons.IH) (rule Cons.prems(2), auto)
  then show ?case by (simp add: serve_pushes_def)
qed (simp add: serve_pushes_def)

end

text \<open>
  C9. A recovered panic stops a remote node for good. When a block on top of a branch that was
  rolled back is pushed, the handler panics and leaves the zero hash as the node's tip; the
  process goes on, but whatever is pushed afterwards, every block whose parent is not zero is
  refused with another panic, and the database stays as it is.
\<close>

theorem push_panic_sticks:
  assumes "reliable_store L" "libcomb_chain C loaded"
    and "node_inv L C loaded cp h (as @ cs) s" "as \<noteq> []" "cs \<noteq> []"
    and "BD_Previous d = tip cp as" "good_data cp h as d"
    and "BD_Previous d2 = tip cp (as @ cs)" "BD_Hash d \<noteq> tip cp (as @ cs)"
    and "node_mode F = MID_NODE_REMOTE" "json_block t = Inr d" "json_block t2 = Inr d2"
    and "\<And>body x. body \<in> set texts \<Longrightarrow> json_block body = Inr x \<Longrightarrow> BD_Previous x \<noteq> zero32"
  shows "let s' = serve_pushes F json_block L C (t # t2 # texts) s
    in COMB_Hash s' = zero32
       \<and> db_holds L (node_db s') (as @ [neominer_block d (h + of_nat (length as) + 1)])
       \<and> (\<forall>body x. json_block body = Inr x \<longrightarrow> BD_Previous x \<noteq> zero32 \<longrightarrow>
            isl (api_db_push_block F json_block L C body s'))"
proof -
  note node = comb_nodeI [OF assms(1,2)]
  let ?bs = "as @ [neominer_block d (h + of_nat (length as) + 1)]"
  obtain s1 p where s1: "neominer_process_block L C d s = Inr s1" "node_inv L C loaded cp h ?bs s1"
    "COMB_Chain s1 (BD_Previous d2) = Some p" "BD_Previous d2 \<notin> insert zero32 (insert cp (blk_hash ` set ?bs))"
    by (rule rolled_back [OF assms(1-8) assms(9) [folded assms(8)]])
  have chain: "valid_chain cp h ?bs" and mem: "in_memory C loaded cp h ?bs s1" and disk: "on_disk L ?bs s1"
    using s1(2) by (simp_all add: node_inv_def)
  obtain e where e: "neominer_write L s1 = Inr (s1\<lparr>node_db := e, Neo_Batch := [], Neo_BatchCached := 0\<rparr>)"
    "db_holds L e ?bs"
    by (rule comb_node.write_on_disk [OF node valid_chain_wf [OF chain] disk])
  define s2 where "s2 = s1\<lparr>node_db := e, Neo_Batch := [], Neo_BatchCached := 0\<rparr>"
  have push: "push_outcome F json_block L C t s = (None, s2)"
    using s1(1) e(1) neominer_result [of L C d s] write_result [of L s1] assms(10,11)
    by (simp add: push_outcome_def outcome_result_Inr s2_def)
  have "settled L ?bs s2" "COMB_Chain s2 (BD_Previous d2) \<noteq> None" "COMB_Chain s2 zero32 = None"
    using e(2) s1(3) mem by (simp_all add: settled_def s2_def in_memory_def maps_chain_def)
  moreover have "BD_Previous d2 \<noteq> COMB_Hash s2"
    using s1(4) tip_member [of cp ?bs] mem by (auto simp: in_memory_def s2_def)
  moreover have "trace_back (COMB_Chain s2) (BD_Previous d2) (COMB_Hash s2) = Some (Inl PanicPastCheckpoint)"
    using trace_back_off_chain [OF chain _ s1(4)] mem by (simp add: in_memory_def s2_def)
  ultimately obtain s3 where s3: "neominer_outcome L C d2 s2 = (Some PanicPastCheckpoint, s3)" "zeroed L ?bs s3"
    using comb_node.panic_zeroes [OF node] by metis
  have push2: "push_outcome F json_block L C t2 s2 = (Some PanicPastCheckpoint, s3)"
    using s3(1) assms(10,12) by (simp add: push_outcome_def)
  define s' where "s' = serve_pushes F json_block L C (t # t2 # texts) s"
  have zero: "zeroed L ?bs s'"
    using comb_node.zeroed_pushes [OF node s3(2) assms(13)] push push2 by (simp add: s'_def serve_pushes_def)
  have "isl (api_db_push_block F json_block L C body s')"
    if body: "json_block body = Inr x" "BD_Previous x \<noteq> zero32" for body x
  proof -
    obtain stop s4 where "neominer_outcome L C x s' = (Some stop, s4)"
      by (rule comb_node.zeroed_refuses [OF node zero body(2)])
    then show ?thesis
      using body(1) assms(10) push_result [of F json_block L C body s', symmetric] by (simp add: push_outcome_def)
  qed
  with zero show ?thesis
    by (simp add: zeroed_def settled_def Let_def flip: s'_def)
qed

theorem push_panic_sticks_witness:
  "let s' = serve_pushes remote_flags sample_json log_store plain_libcomb [''fork'', ''next'', ''next'', ''fork''] sample_node
    in COMB_Hash s' = zero32
       \<and> db_holds log_store (node_db s')
           ([sample_1] @ [neominer_block (sample_data 113 101 [sample_hash 9]) (10 + of_nat (length [sample_1]) + 1)])
       \<and> (\<forall>body x. sample_json body = Inr x \<longrightarrow> BD_Previous x \<noteq> zero32 \<longrightarrow>
            isl (api_db_push_block remote_flags sample_json log_store plain_libcomb body s'))"
proof -
  have inv: "node_inv log_store plain_libcomb snd (sample_hash 100) 10 ([sample_1] @ [sample_2]) sample_node"
    using sample_inv by simp
  show ?thesis
    by (rule push_panic_sticks [OF log_store_reliable plain_libcomb_chain inv _ _ _ sample_fork_good])
      (auto simp: sample_data_def sample_tips sample_json_def remote_flags_def sample_hash_zero split: if_splits)
qed

end
