(* ===== verification/Ghetto_Server.thy ===== *)
theory Ghetto_Server
  imports Recovered_Panics
begin

section \<open>ghettoapi.go: the two HTTP servers\<close>

text \<open>
  \<open>ghetto_rpc\<close> binds a public and a private address, when they are configured, and routes the
  requests of each by their path; an address that cannot be bound ends the program. The router is
  \<open>gorilla/mux\<close>, which is third-party code: \<open>M pattern path\<close> is what it takes the variables of a
  pattern to be in a path, and \<open>mux_router\<close> states its documented behaviour on the patterns of
  the program, which have at most one variable, at their end. Routes are tried in order.
\<close>

type_synonym mux = "string \<Rightarrow> string \<Rightarrow> (string \<rightharpoonup> string) option"

locale mux_router =
  fixes M :: mux
  assumes literal: "CHR ''{'' \<notin> set p \<Longrightarrow> M p path = (if path = p then Some Map.empty else None)"
    and variable: "CHR ''{'' \<notin> set p \<Longrightarrow> {CHR ''{'', CHR ''}''} \<inter> set name = {} \<Longrightarrow>
      M (p @ ''{'' @ name @ ''}'') (p @ v) = (if v \<noteq> [] \<and> CHR ''/'' \<notin> set v then Some [name \<mapsto> v] else None)"
    and elsewhere: "CHR ''{'' \<notin> set p \<Longrightarrow> {CHR ''{'', CHR ''}''} \<inter> set name = {} \<Longrightarrow> \<not> prefix p path \<Longrightarrow>
      M (p @ ''{'' @ name @ ''}'') path = None"

definition plain_mux :: mux where
  "plain_mux pattern path =
     (let p = takeWhile (\<lambda>c. c \<noteq> CHR ''{'') pattern;
          name = butlast (tl (dropWhile (\<lambda>c. c \<noteq> CHR ''{'') pattern));
          v = drop (length p) path
      in if p = pattern then if path = pattern then Some Map.empty else None
         else if prefix p path \<and> v \<noteq> [] \<and> CHR ''/'' \<notin> set v then Some [name \<mapsto> v] else None)"

lemma plain_mux_split:
  assumes "CHR ''{'' \<notin> set p"
  shows "takeWhile (\<lambda>c. c \<noteq> CHR ''{'') (p @ CHR ''{'' # q) = p"
    and "dropWhile (\<lambda>c. c \<noteq> CHR ''{'') (p @ CHR ''{'' # q) = CHR ''{'' # q"
    and "takeWhile (\<lambda>c. c \<noteq> CHR ''{'') p = p"
  using assms by (induction p) auto

interpretation plain_router: mux_router plain_mux
  by unfold_locales (auto simp: plain_mux_def plain_mux_split)

subsection \<open>Routes\<close>

fun route :: "mux \<Rightarrow> (string \<times> 'h) list \<Rightarrow> string \<Rightarrow> ((string \<rightharpoonup> string) \<times> 'h) option" where
  "route M [] path = None"
| "route M ((pattern, handler) # routes) path =
     (case M pattern path of
        Some vars \<Rightarrow> Some (vars, handler)
      | None \<Rightarrow> route M routes path)"

text \<open>\<open>mux.Vars(r)[name]\<close>: a missing variable is the empty string.\<close>

definition mux_var :: "(string \<rightharpoonup> string) \<Rightarrow> string \<Rightarrow> string" where
  "mux_var vars name = (case vars name of None \<Rightarrow> '''' | Some v \<Rightarrow> v)"

text \<open>
  What a response shows: a Go value, the text of an error, or nothing. A malformed height is
  only logged by the handlers of the database.
\<close>

datatype api_response =
    ShowCommits "commitTagPair list"
  | ShowText string
  | ShowNumber u64
  | ShowMetadata BlockMetadata
  | ShowBlock BlockData
  | ShowError go_error
  | ShowNothing
  | NotFound

definition api_lib_get_block_by_height :: api_response where
  "api_lib_get_block_by_height = ShowNothing"

definition api_lib_get_block_by_hash :: api_response where
  "api_lib_get_block_by_hash = ShowNothing"

definition shown_or_error :: "('a \<Rightarrow> api_response) \<Rightarrow> go_error + 'a \<Rightarrow> api_response option" where
  "shown_or_error show_value r = Some (case r of Inl err \<Rightarrow> ShowError err | Inr v \<Rightarrow> show_value v)"

definition shown_or_logged :: "('a \<Rightarrow> api_response) \<Rightarrow> go_error + 'a option \<Rightarrow> api_response option" where
  "shown_or_logged show_value r = (case r of Inl err \<Rightarrow> Some ShowNothing | Inr v \<Rightarrow> map_option show_value v)"

text \<open>A public handler answers without changing the node; \<open>None\<close> is a panic.\<close>

definition public_routes ::
  "'d leveldb \<Rightarrow> 'l libcomb \<Rightarrow> 'l wallet_lib
     \<Rightarrow> (string \<times> ((string \<rightharpoonup> string) \<Rightarrow> ('d, 'l) node \<Rightarrow> api_response option)) list" where
  "public_routes L C WL =
    [(''/public/lib/get_commit_count'', \<lambda>vars s. Some (ShowNumber (api_lib_get_commit_count WL (node_lib s)))),
     (''/public/lib/get_height'', \<lambda>vars s. Some (ShowNumber (api_lib_get_height C (node_lib s)))),
     (''/public/lib/get_block_commits/{block}'', \<lambda>vars s.
        shown_or_error ShowCommits (api_lib_get_block_commits WL (mux_var vars ''block'') (node_lib s))),
     (''/public/lib/get_block_by_height/{height}'', \<lambda>vars s. Some api_lib_get_block_by_height),
     (''/public/lib/get_block_by_hash/{hash}'', \<lambda>vars s. Some api_lib_get_block_by_hash),
     (''/public/lib/get_block_coinbase_commit/{block}'', \<lambda>vars s.
        shown_or_error ShowText (api_lib_get_block_coinbase_commit WL (mux_var vars ''block'') (node_lib s))),
     (''/public/db/get_block_metadata_by_height/{height}'', \<lambda>vars s.
        shown_or_logged ShowMetadata (api_db_get_block_metadata_by_height L (mux_var vars ''height'') s)),
     (''/public/db/get_full_block_by_height/{height}'', \<lambda>vars s.
        shown_or_logged ShowBlock (api_db_get_full_block_by_height L (mux_var vars ''height'') s))]"

definition private_routes ::
  "flags \<Rightarrow> (string \<Rightarrow> go_error + BlockData) \<Rightarrow> 'd leveldb \<Rightarrow> 'l libcomb
     \<Rightarrow> (string \<times> ((string \<rightharpoonup> string) \<Rightarrow> ('d, 'l) node \<Rightarrow> ('d, 'l) outcome)) list" where
  "private_routes F json_block L C =
    [(''/private/db/remove_blocks_after_height/{height}'', \<lambda>vars.
        remove_outcome F L C (mux_var vars ''height'')),
     (''/private/db/push_block/{block_data}'', \<lambda>vars.
        push_outcome F json_block L C (mux_var vars ''block_data''))]"

definition serve_public ::
  "mux \<Rightarrow> 'd leveldb \<Rightarrow> 'l libcomb \<Rightarrow> 'l wallet_lib \<Rightarrow> string \<Rightarrow> ('d, 'l) node \<Rightarrow> api_response option" where
  "serve_public M L C WL path s =
     (case route M (public_routes L C WL) path of
        None \<Rightarrow> Some NotFound
      | Some (vars, handler) \<Rightarrow> handler vars s)"

definition serve_private ::
  "mux \<Rightarrow> flags \<Rightarrow> (string \<Rightarrow> go_error + BlockData) \<Rightarrow> 'd leveldb \<Rightarrow> 'l libcomb \<Rightarrow> string
     \<Rightarrow> ('d, 'l) node \<Rightarrow> ('d, 'l) outcome" where
  "serve_private M F json_block L C path s =
     (case route M (private_routes F json_block L C) path of
        None \<Rightarrow> (None, s)
      | Some (vars, handler) \<Rightarrow> handler vars s)"

subsection \<open>Listening\<close>

text \<open>Which of the two servers run, given what \<open>net.Listen\<close> says of an address.\<close>

definition listen_on :: "(string \<Rightarrow> go_error option) \<Rightarrow> string \<Rightarrow> go_stop + bool" where
  "listen_on listen address =
     (if address \<noteq> '''' then (case listen address of Some err \<Rightarrow> Inl (FatalListen err) | None \<Rightarrow> Inr True)
      else Inr False)"

definition ghetto_rpc :: "flags \<Rightarrow> (string \<Rightarrow> go_error option) \<Rightarrow> go_stop + bool \<times> bool" where
  "ghetto_rpc F listen =
     try_then (listen_on listen (public_api_bind F)) (\<lambda>public.
     try_then (listen_on listen (private_api_bind F)) (\<lambda>private.
     Inr (public, private)))"

end
