(* ===== verification/Http_Correct.thy ===== *)
theory Http_Correct
  imports Ghetto_Server
begin

section \<open>A request of the public server\<close>

text \<open>
  Numbers survive their way through a path: \<open>strconv.Atoi\<close> reads back what \<open>%d\<close> prints. With
  the laws of the router, this takes a height from the address of a request to the record of the
  block in the database.
\<close>

subsection \<open>Numbers in paths\<close>

lemma digit_code:
  assumes "n < 10"
  shows "(of_char (char_of (48 + n) :: char) :: nat) = 48 + n" "(of_char (char_of (48 + n) :: char) :: int) = 48 + int n"
proof -
  show nat: "(of_char (char_of (48 + n) :: char) :: nat) = 48 + n"
    using assms by simp
  have "(of_char (char_of (48 + n) :: char) :: int) = int (of_char (char_of (48 + n) :: char) :: nat)"
    by (rule of_nat_of_char [symmetric])
  then show "(of_char (char_of (48 + n) :: char) :: int) = 48 + int n"
    unfolding nat by simp
qed

lemma digits_val_snoc:
  assumes "n < 10" "digits_val ds = Some v"
  shows "digits_val (ds @ [char_of (48 + n)]) = Some (10 * v + int n)"
  using assms(2) digit_code [OF assms(1)] assms(1) by (auto simp: digits_val_def split: if_splits)

lemma digits_val_fmt: "digits_val (fmt_d n) = Some (int n)"
proof (induction n rule: fmt_d.induct)
  case (1 n)
  show ?case
  proof (cases "n < 10")
    case True
    then show ?thesis
      using digit_code [OF True] by (simp add: digits_val_def fmt_d.simps)
  next
    case False
    have "digits_val (fmt_d (n div 10) @ [char_of (48 + n mod 10)]) = Some (10 * int (n div 10) + int (n mod 10))"
      by (rule digits_val_snoc [OF _ 1 [OF False]]) simp
    with False show ?thesis
      using div_mult_mod_eq [of "int n" 10] by (simp add: fmt_d.simps [of n] zdiv_int zmod_int)
  qed
qed

lemma fmt_d_digits:
  assumes "c \<in> set (fmt_d n)"
  shows "48 \<le> (of_char c :: nat) \<and> (of_char c :: nat) \<le> 57"
  using digits_val_fmt [of n] assms by (auto simp: digits_val_def list_all_iff split: if_splits)

lemma fmt_d_plain: "CHR ''/'' \<notin> set (fmt_d n)" "CHR ''-'' \<notin> set (fmt_d n)" "CHR ''+'' \<notin> set (fmt_d n)"
  using fmt_d_digits [of _ n] by force+

lemma fmt_d_Nil [simp]: "fmt_d n \<noteq> []"
  by (simp add: fmt_d.simps [of n])

lemma atoi_fmt_d: "n < 2 ^ 63 \<Longrightarrow> atoi (fmt_d n) = Inr (int n)"
proof -
  assume n: "n < 2 ^ 63"
  obtain c cs where c: "fmt_d n = c # cs"
    by (cases "fmt_d n") simp_all
  moreover from this have "c \<noteq> CHR ''-''" "c \<noteq> CHR ''+''"
    using fmt_d_plain [of n] by auto
  moreover have "int n < 2 ^ 63"
    using n by simp
  ultimately show ?thesis
    using digits_val_fmt [of n] by (simp add: atoi_def)
qed

subsection \<open>Routing by height\<close>

context mux_router
begin

lemmas on_path =
  literal [where p = "''/public/lib/get_commit_count''"] literal [where p = "''/public/lib/get_height''"]
  elsewhere [where p = "''/public/lib/get_block_commits/''" and name = "''block''", simplified]
  elsewhere [where p = "''/public/lib/get_block_by_height/''" and name = "''height''", simplified]
  elsewhere [where p = "''/public/lib/get_block_by_hash/''" and name = "''hash''", simplified]
  elsewhere [where p = "''/public/lib/get_block_coinbase_commit/''" and name = "''block''", simplified]
  elsewhere [where p = "''/public/db/get_block_metadata_by_height/''" and name = "''height''", simplified]
  variable [where p = "''/public/db/get_block_metadata_by_height/''" and name = "''height''", simplified]
  variable [where p = "''/public/db/get_full_block_by_height/''" and name = "''height''", simplified]

lemma metadata_route:
  assumes "v \<noteq> []" "CHR ''/'' \<notin> set v"
  shows "serve_public M L C WL (''/public/db/get_block_metadata_by_height/'' @ v) s =
    shown_or_logged ShowMetadata (api_db_get_block_metadata_by_height L v s)"
  using assms by (simp add: serve_public_def public_routes_def on_path mux_var_def)

lemma full_block_route:
  assumes "v \<noteq> []" "CHR ''/'' \<notin> set v"
  shows "serve_public M L C WL (''/public/db/get_full_block_by_height/'' @ v) s =
    shown_or_logged ShowBlock (api_db_get_full_block_by_height L v s)"
  using assms by (simp add: serve_public_def public_routes_def on_path mux_var_def)

lemmas on_private_path =
  elsewhere [where p = "''/private/db/remove_blocks_after_height/''" and name = "''height''", simplified]
  variable [where p = "''/private/db/remove_blocks_after_height/''" and name = "''height''", simplified]
  variable [where p = "''/private/db/push_block/''" and name = "''block_data''", simplified]

lemma push_route:
  assumes "v \<noteq> []" "CHR ''/'' \<notin> set v"
  shows "serve_private M F json_block L C (''/private/db/push_block/'' @ v) s = push_outcome F json_block L C v s"
  using assms by (simp add: serve_private_def private_routes_def on_private_path mux_var_def)

lemma remove_route:
  assumes "v \<noteq> []" "CHR ''/'' \<notin> set v"
  shows "serve_private M F json_block L C (''/private/db/remove_blocks_after_height/'' @ v) s =
    remove_outcome F L C v s"
  using assms by (simp add: serve_private_def private_routes_def on_private_path mux_var_def)

end

subsection \<open>Serving what was pushed\<close>

lemma from_height:
  assumes "wf_chain bs" "b \<in> set bs"
  obtains cs where "filter (\<lambda>x. blk_height b \<le> blk_height x) bs = b # cs"
proof -
  obtain as cs where bs: "bs = as @ b # cs"
    using assms(2) by (auto simp: in_set_conv_decomp)
  have "\<forall>x \<in> set as. blk_height x < blk_height b" "\<forall>x \<in> set cs. blk_height b < blk_height x"
    using assms(1) by (auto simp: bs wf_chain_append)
  then have "filter (\<lambda>x. blk_height b \<le> blk_height x) bs = b # cs"
    by (auto simp: bs filter_empty_conv filter_id_conv not_le)
  then show ?thesis by (rule that)
qed

lemma height_served:
  assumes "mux_router M" "leveldb_store L" "db_holds L (node_db s) bs" "b \<in> set bs" "unat (blk_height b) < 2 ^ 63"
  shows "serve_public M L C WL (''/public/db/get_block_metadata_by_height/'' @ fmt_d (unat (blk_height b))) s =
      Some (ShowMetadata (Blk_Metadata b))"
    and "serve_public M L C WL (''/public/db/get_full_block_by_height/'' @ fmt_d (unat (blk_height b))) s =
      shown_or_logged ShowBlock (Inr (db_get_full_block_by_height L (node_db s) (blk_height b)))"
proof -
  note path = mux_router.metadata_route [OF assms(1) fmt_d_Nil fmt_d_plain(1)]
    mux_router.full_block_route [OF assms(1) fmt_d_Nil fmt_d_plain(1)]
  obtain cs where cs: "filter (\<lambda>x. blk_height b \<le> blk_height x) bs = b # cs"
    using assms(3,4) by (auto simp: db_holds_def intro: from_height)
  have height: "atoi (fmt_d (unat (blk_height b))) = Inr (int (unat (blk_height b)))"
    "word_of_int (int (unat (blk_height b))) = blk_height b"
    using assms(5) by (simp_all add: atoi_fmt_d)
  show "serve_public M L C WL (''/public/db/get_block_metadata_by_height/'' @ fmt_d (unat (blk_height b))) s =
      Some (ShowMetadata (Blk_Metadata b))"
    unfolding path using height leveldb_store.by_height_holds [OF assms(2,3)] cs
    by (simp add: api_db_get_block_metadata_by_height_def shown_or_logged_def)
  show "serve_public M L C WL (''/public/db/get_full_block_by_height/'' @ fmt_d (unat (blk_height b))) s =
      shown_or_logged ShowBlock (Inr (db_get_full_block_by_height L (node_db s) (blk_height b)))"
    unfolding path using height by (simp add: api_db_get_full_block_by_height_def)
qed

lemma full_block_at:
  assumes "reusing_store L" "db_holds L d bs" "b \<in> set bs"
  shows "db_get_full_block_by_height L d (blk_height b) =
    Some \<lparr>BD_Hash = blk_hash b, BD_Previous = blk_previous b, BD_Commits = Blk_Commits b\<rparr>"
proof -
  obtain cs where "filter (\<lambda>x. blk_height b \<le> blk_height x) bs = b # cs"
    using assms(2,3) by (auto simp: db_holds_def intro: from_height)
  then show ?thesis
    unfolding reusing_store.full_block_holds [OF assms(1,2)] by simp
qed

text \<open>
  C8. What is pushed is served: on a node that takes its blocks from outside, a block that the
  specification allows, posted to the private address, is accepted without a panic, and then the
  public address answers for the height of every block of the new chain with the metadata of that
  block, on every store that keeps its documentation; and with the hashes and all commits of the block
  on one that also overwrites a returned slice in place, as \<open>goleveldb\<close> does without promising it
  (\<open>reusing_store\<close>; \<open>slices\<close> in \<open>DB_Correct\<close> is what it answers on any other store).
\<close>

theorem pushed_blocks_served:
  assumes "mux_router M" "reliable_store L" "libcomb_chain C loaded"
    and "node_inv L C loaded cp h bs s" "chain_step cp h bs d bs'"
    and "node_mode F = MID_NODE_REMOTE" "json_block t = Inr d" "t \<noteq> ''''" "CHR ''/'' \<notin> set t"
    and "unat h + length bs' < 2 ^ 63"
  shows "\<exists>s'. serve_private M F json_block L C (''/private/db/push_block/'' @ t) s = (None, s')
    \<and> (\<forall>i < length bs'.
          let b = bs' ! i; height = fmt_d (unat h + i + 1)
          in serve_public M L C WL (''/public/db/get_block_metadata_by_height/'' @ height) s' =
               Some (ShowMetadata (Blk_Metadata b))
           \<and> (reusing_store L \<longrightarrow>
               serve_public M L C WL (''/public/db/get_full_block_by_height/'' @ height) s' =
                 Some (ShowBlock \<lparr>BD_Hash = blk_hash b, BD_Previous = blk_previous b, BD_Commits = Blk_Commits b\<rparr>)))"
proof -
  note node = comb_nodeI [OF assms(2,3)] and store = reliable_store.axioms(1) [OF assms(2)]
  obtain s' where s': "api_db_push_block F json_block L C t s = Inr s'"
    "node_inv L C loaded cp h bs' s'" "flushed L bs' s'"
    by (rule comb_node.push_follows [where json_block = json_block, OF node assms(5,4,6,7)])
  have db: "db_holds L (node_db s') bs'" and chain: "valid_chain cp h bs'"
    using s'(2,3) by (simp_all add: flushed_def node_inv_def)
  have "serve_private M F json_block L C (''/private/db/push_block/'' @ t) s = (None, s')"
    using s'(1) unfolding mux_router.push_route [OF assms(1,8,9)]
    by (simp add: outcome_result_Inr flip: push_result)
  moreover have "serve_public M L C WL (''/public/db/get_block_metadata_by_height/'' @ fmt_d (unat h + i + 1)) s' =
        Some (ShowMetadata (Blk_Metadata (bs' ! i)))
      \<and> (reusing_store L \<longrightarrow>
          serve_public M L C WL (''/public/db/get_full_block_by_height/'' @ fmt_d (unat h + i + 1)) s' =
            Some (ShowBlock \<lparr>BD_Hash = blk_hash (bs' ! i), BD_Previous = blk_previous (bs' ! i),
                            BD_Commits = Blk_Commits (bs' ! i)\<rparr>))"
    if "i < length bs'" for i
    using height_served [OF assms(1) store db nth_mem [OF that]] full_block_at [OF _ db nth_mem [OF that]]
      valid_chain_height [OF chain that] assms(10) that
    by (simp add: shown_or_logged_def)
  ultimately show ?thesis
    by (auto simp: Let_def)
qed

theorem pushed_blocks_served_witness:
  "\<forall>WL. \<exists>s'. serve_private plain_mux remote_flags sample_json log_store plain_libcomb ''/private/db/push_block/fork'' sample_node
      = (None, s')
    \<and> serve_public plain_mux log_store plain_libcomb WL ''/public/db/get_block_metadata_by_height/12'' s'
      = Some (ShowMetadata (Blk_Metadata fork_block))
    \<and> serve_public plain_mux log_store plain_libcomb WL ''/public/db/get_full_block_by_height/12'' s'
      = Some (ShowBlock (sample_data 113 101 [sample_hash 9]))"
proof
  fix WL :: "(u64 \<times> hash256 list list) wallet_lib"
  have "fmt_d (unat (10 :: u64) + 1 + 1) = ''12''"
    by code_simp
  with pushed_blocks_served [OF plain_router.mux_router_axioms log_store_reliable plain_libcomb_chain sample_inv
      sample_replace [where cs = "[sample_2]"], of remote_flags sample_json "''fork''" WL] log_store_reusing
  show "\<exists>s'. serve_private plain_mux remote_flags sample_json log_store plain_libcomb ''/private/db/push_block/fork'' sample_node
      = (None, s')
    \<and> serve_public plain_mux log_store plain_libcomb WL ''/public/db/get_block_metadata_by_height/12'' s'
      = Some (ShowMetadata (Blk_Metadata fork_block))
    \<and> serve_public plain_mux log_store plain_libcomb WL ''/public/db/get_full_block_by_height/12'' s'
      = Some (ShowBlock (sample_data 113 101 [sample_hash 9]))"
    by (auto simp: remote_flags_def sample_json_def sample_defs fork_block_def neominer_block_def sample_data_def
        Let_def dest!: spec [of _ 1])
qed

end
