(* ===== verification/Crash.thy ===== *)
theory Crash
  imports Main_Correct
begin

section \<open>A crash at any write\<close>

text \<open>
  Between two writes the disk does not change, and LevelDB applies a batch as a whole, so the disks
  that a crash can leave are the ones before and after each write. A store that keeps a journal
  remembers them: the operations of the node run on it as they are, and the journal holds every disk
  there has been, also those inside one call of \<open>neominer_process_block\<close>, between the flush, the
  removal of the old branch and the storing of the new block.
\<close>

subsection \<open>A store with a journal\<close>

definition journaled :: "'d leveldb \<Rightarrow> ('d \<times> 'd list) leveldb" where
  "journaled L =
     \<lparr>ldb_entries = (\<lambda>j. ldb_entries L (fst j)), ldb_range = (\<lambda>j. ldb_range L (fst j)),
      ldb_prefix = (\<lambda>j. ldb_prefix L (fst j)), ldb_seek = (\<lambda>j. ldb_seek L (fst j)), ldb_get = (\<lambda>j. ldb_get L (fst j)),
      ldb_write = (\<lambda>j b. case ldb_write L (fst j) b of (err, d) \<Rightarrow> (err, (d, snd j @ [fst j]))),
      ldb_iter_error = (\<lambda>j. ldb_iter_error L (fst j)), ldb_reuse = ldb_reuse L\<rparr>"

text \<open>The disks from one moment to a later one.\<close>

definition disks_between :: "'d \<times> 'd list \<Rightarrow> 'd \<times> 'd list \<Rightarrow> 'd list" where
  "disks_between j1 j2 = drop (length (snd j1)) (snd j2 @ [fst j2])"

definition with_journal :: "('d, 'l) node \<Rightarrow> ('d \<times> 'd list, 'l) node" where
  "with_journal s =
     \<lparr>COMB_Height = COMB_Height s, COMB_Hash = COMB_Hash s, COMB_Chain = COMB_Chain s, COMB_Status = COMB_Status s,
      COMB_StatusLock = COMB_StatusLock s, COMB_Network = COMB_Network s, COMB_Magic = COMB_Magic s,
      COMB_Prefix = COMB_Prefix s, COMB_Path = COMB_Path s, DB_InitialLoad = DB_InitialLoad s,
      DB_Version = DB_Version s, node_db = (node_db s, []), node_db_is_new = node_db_is_new s,
      Neo_BatchCapacity = Neo_BatchCapacity s, Neo_BatchCached = Neo_BatchCached s, Neo_Batch = Neo_Batch s,
      BTC_RestURL = BTC_RestURL s, BTC_DirectPath = BTC_DirectPath s, BTC_Chain = BTC_Chain s, node_lib = node_lib s\<rparr>"

context reliable_store
begin

lemma write_result_none: "ldb_write L d ops = (err, d') \<Longrightarrow> err = None"
  using write_succeeds by (metis fst_conv)

lemma journal_reliable: "reliable_store (journaled L)"
  by unfold_locales
    (auto simp: journaled_def entries_ascending range_entries prefix_entries seek_entries get_entries
      iter_succeeds split: prod.splits intro: write_entries write_result_none)

end

lemmas journaled_reliable = reliable_store.journal_reliable

lemma journaled_holds [simp]: "db_holds (journaled L) j bs \<longleftrightarrow> db_holds L (fst j) bs"
  by (simp add: db_holds_def journaled_def)

lemma journal_inv: "node_inv L C loaded cp h bs s \<Longrightarrow> node_inv (journaled L) C loaded cp h bs (with_journal s)"
  by (simp add: node_inv_def in_memory_def on_disk_def with_journal_def journaled_def db_holds_def)

text \<open>The journal only watches: without it the operations do the same.\<close>

definition without_journal :: "('d \<times> 'd list, 'l) node \<Rightarrow> ('d, 'l) node" where
  "without_journal s =
     \<lparr>COMB_Height = COMB_Height s, COMB_Hash = COMB_Hash s, COMB_Chain = COMB_Chain s, COMB_Status = COMB_Status s,
      COMB_StatusLock = COMB_StatusLock s, COMB_Network = COMB_Network s, COMB_Magic = COMB_Magic s,
      COMB_Prefix = COMB_Prefix s, COMB_Path = COMB_Path s, DB_InitialLoad = DB_InitialLoad s,
      DB_Version = DB_Version s, node_db = fst (node_db s), node_db_is_new = node_db_is_new s,
      Neo_BatchCapacity = Neo_BatchCapacity s, Neo_BatchCached = Neo_BatchCached s, Neo_Batch = Neo_Batch s,
      BTC_RestURL = BTC_RestURL s, BTC_DirectPath = BTC_DirectPath s, BTC_Chain = BTC_Chain s, node_lib = node_lib s\<rparr>"

lemma watched_db:
  "db_write L (fst j) b = (case db_write (journaled L) j b of (err, j', b') \<Rightarrow> (err, fst j', b'))"
  "db_remove_blocks_after L (fst j) ht = apsnd fst (db_remove_blocks_after (journaled L) j ht)"
  "db_get_block_by_hash (journaled L) j t = db_get_block_by_hash L (fst j) t"
  "db_process_block (journaled L) j b blk = db_process_block L (fst j) b blk"
  by (auto simp: db_write_def journaled_def db_remove_blocks_after_def Let_def db_get_block_by_hash_def
      db_process_block_def db_remove_block_def split: prod.splits option.splits)

lemma watched_write: "neominer_write L (without_journal s) = map_sum id without_journal (neominer_write (journaled L) s)"
  by (auto simp: neominer_write_def watched_db(1) without_journal_def split: prod.splits option.splits)

lemma map_sum_try_then: "map_sum id f (try_then m g) = try_then m (\<lambda>x. map_sum id f (g x))"
  by (cases m) simp_all

lemma try_then_map_sum: "try_then (map_sum id f m) g = try_then m (\<lambda>x. g (f x))"
  by (cases m) simp_all

lemma watched_reorg:
  "combcore_reorg L C t (without_journal s) = map_sum id without_journal (combcore_reorg (journaled L) C t s)"
  by (auto simp: combcore_reorg_def watched_db(3) map_sum_try_then split_beta)
     (auto simp: without_journal_def watched_db(2) or_else_def split: option.splits sum.splits)

lemma watched_neominer_reorg:
  "neominer_reorg L C t (without_journal s) = map_sum id without_journal (neominer_reorg (journaled L) C t s)"
proof -
  have "COMB_Hash (without_journal s) = COMB_Hash s" "COMB_Chain (without_journal s) = COMB_Chain s"
    by (simp_all add: without_journal_def)
  then show ?thesis
    by (simp add: neominer_reorg_def watched_write try_then_map_sum map_sum_try_then watched_reorg split: option.split)
qed

lemma watched_block:
  "combcore_process_block C b (without_journal s) = map_sum id without_journal (combcore_process_block C b s)"
  by (simp add: combcore_process_block_def Let_def without_journal_def)

lemma watched_process:
  "neominer_process_block L C d (without_journal s)
     = map_sum id without_journal (neominer_process_block (journaled L) C d s)"
proof -
  have fields: "COMB_Hash (without_journal s) = COMB_Hash s" "COMB_Height (without_journal s) = COMB_Height s"
    "node_db (without_journal s) = fst (node_db s)" "Neo_Batch (without_journal s) = Neo_Batch s"
    "Neo_BatchCached (without_journal s) = Neo_BatchCached s" "Neo_BatchCapacity (without_journal s) = Neo_BatchCapacity s"
    and put: "(without_journal s)\<lparr>Neo_Batch := b, Neo_BatchCached := n\<rparr> = without_journal (s\<lparr>Neo_Batch := b, Neo_BatchCached := n\<rparr>)"
    for s :: "('a \<times> 'a list, 'b) node" and b n
    by (simp_all add: without_journal_def)
  show ?thesis
    unfolding neominer_process_block_def watched_neominer_reorg try_then_map_sum map_sum_try_then
    by (rule arg_cong [where f = "try_then _"], rule ext)
      (auto simp: fields put watched_db(4) watched_block try_then_map_sum map_sum_try_then watched_write Let_def
        split: prod.split option.split intro!: arg_cong [where f = "try_then _"])
qed

lemma watched_run:
  "fold_res (neominer_process_block L C) ds (without_journal s)
     = map_sum id without_journal (fold_res (neominer_process_block (journaled L) C) ds s)"
  by (induction ds arbitrary: s) (simp_all add: watched_process try_then_map_sum map_sum_try_then)

lemma without_with_journal [simp]: "without_journal (with_journal s) = s"
  by (simp add: without_journal_def with_journal_def)

text \<open>Every operation adds the disks it leaves behind.\<close>

lemma journal_write: "ldb_write (journaled L) j b = (err, j') \<Longrightarrow> snd j' = snd j @ [fst j]"
  by (auto simp: journaled_def split: prod.splits)

lemma neominer_write_journal:
  "neominer_write (journaled L) s = Inr s' \<Longrightarrow> snd (node_db s') = snd (node_db s) @ [fst (node_db s)]"
  by (auto simp: neominer_write_def db_write_def split: prod.splits option.splits dest: journal_write)

lemma remove_journal:
  assumes "reliable_store L"
  shows "snd (snd (db_remove_blocks_after (journaled L) j h)) = snd j @ [fst j]"
  using reliable_store.iter_succeeds [OF journaled_reliable [OF assms]]
  by (auto simp: db_remove_blocks_after_def db_write_def Let_def split: prod.splits dest: journal_write)

lemma reorg_journal:
  assumes "reliable_store L" "neominer_reorg (journaled L) C t s = Inr s1" "t \<noteq> COMB_Hash s"
  obtains s0 where "neominer_write (journaled L) s = Inr s0"
    "snd (node_db s1) = snd (node_db s) @ [fst (node_db s), fst (node_db s0)]"
proof -
  obtain s0 where s0: "neominer_write (journaled L) s = Inr s0" "combcore_reorg (journaled L) C t s0 = Inr s1"
    using assms(2,3) by (auto simp: neominer_reorg_def try_then_eq_Inr split: option.splits)
  have "snd (node_db s1) = snd (node_db s0) @ [fst (node_db s0)]"
    using s0(2) by (auto simp: combcore_reorg_def try_then_eq_Inr split_beta remove_journal [OF assms(1)])
  with s0(1) neominer_write_journal [OF s0(1)] show ?thesis
    by (intro that) simp_all
qed

lemma process_journal:
  assumes "neominer_process_block (journaled L) C d s = Inr s'" "BD_Previous d = COMB_Hash s"
  shows "node_db s' = node_db s \<or> snd (node_db s') = snd (node_db s) @ [fst (node_db s)]"
  using assms
  by (auto simp: neominer_process_block_def neominer_reorg_def combcore_process_block_def Let_def try_then_eq_Inr
      split: if_splits prod.splits option.splits dest!: neominer_write_journal)

text \<open>The capacity of the batch never changes.\<close>

lemma write_capacity: "neominer_write L s = Inr s' \<Longrightarrow> Neo_BatchCapacity s' = Neo_BatchCapacity s"
  by (auto simp: neominer_write_def split: prod.splits option.splits)

lemma process_capacity:
  assumes "neominer_process_block L C d s = Inr s'"
  shows "Neo_BatchCapacity s' = Neo_BatchCapacity s"
proof -
  obtain s1 where s1: "neominer_reorg L C (BD_Previous d) s = Inr s1"
    using assms by (auto simp: neominer_process_block_def try_then_eq_Inr)
  then have "Neo_BatchCapacity s1 = Neo_BatchCapacity s"
    by (auto simp: neominer_reorg_def combcore_reorg_def try_then_eq_Inr split_beta split: if_splits option.splits
        dest!: write_capacity)
  with s1 assms show ?thesis
    by (auto simp: neominer_process_block_def Let_def combcore_process_block_def try_then_eq_Inr
        split: if_splits option.splits prod.splits dest!: write_capacity)
qed

lemma processed_capacity:
  "fold_res (neominer_process_block L C) ds s = Inr s' \<Longrightarrow> Neo_BatchCapacity s' = Neo_BatchCapacity s"
  by (induction ds arbitrary: s) (auto simp: try_then_eq_Inr dest!: process_capacity)

subsection \<open>What a crash leaves\<close>

text \<open>A disk that has lost at most \<open>n\<close> blocks of a chain.\<close>

definition lost_at_most :: "nat \<Rightarrow> 'd leveldb \<Rightarrow> Block list \<Rightarrow> 'd \<Rightarrow> bool" where
  "lost_at_most n L bs d \<longleftrightarrow> (\<exists>k \<le> length bs. length bs - k \<le> n \<and> db_holds L d (take k bs))"

lemma on_disk_lost:
  "on_disk (journaled L) bs s \<Longrightarrow> lost_at_most (unat (Neo_BatchCapacity s)) L bs (fst (node_db s))"
  by (auto simp: on_disk_def lost_at_most_def intro: less_imp_le)

lemma on_disk_lost_next:
  assumes "on_disk (journaled L) bs s"
  shows "lost_at_most (unat (Neo_BatchCapacity s)) L (bs @ [b]) (fst (node_db s))"
proof -
  obtain k where "k \<le> length bs" "db_holds L (fst (node_db s)) (take k bs)" "length bs - k < unat (Neo_BatchCapacity s)"
    using assms by (auto simp: on_disk_def)
  then show ?thesis
    unfolding lost_at_most_def by (intro exI [of _ k]) auto
qed

lemma step_disks:
  assumes L: "reliable_store L" and C: "libcomb_chain C loaded"
    and inv: "node_inv (journaled L) C loaded cp h bs s" and step: "chain_step cp h bs d bs'"
    and run: "neominer_process_block (journaled L) C d s = Inr s'"
    and disk: "disk \<in> set (disks_between (node_db s) (node_db s'))"
  shows "lost_at_most (unat (Neo_BatchCapacity s)) L bs disk \<or> lost_at_most (unat (Neo_BatchCapacity s)) L bs' disk"
proof -
  note node = comb_nodeI [OF journaled_reliable [OF L] C]
  have inv': "node_inv (journaled L) C loaded cp h bs' s'"
    using comb_node.step_follows [OF node step inv] run by (metis sum.inject(2))
  have first: "lost_at_most (unat (Neo_BatchCapacity s)) L bs (fst (node_db s))"
    and last: "lost_at_most (unat (Neo_BatchCapacity s)) L bs' (fst (node_db s'))"
    using inv inv' process_capacity [OF run] on_disk_lost [of L bs s] on_disk_lost [of L bs' s']
    by (simp_all add: node_inv_def)
  show ?thesis
  proof (cases "BD_Previous d = COMB_Hash s")
    case True
    then have "disk = fst (node_db s) \<or> disk = fst (node_db s')"
      using process_journal [OF run True] disk by (auto simp: disks_between_def)
    with first last show ?thesis by blast
  next
    case False
    then obtain as cs where as: "bs = as @ cs" "as \<noteq> []" "BD_Previous d = tip cp as"
      "bs' = as @ [neominer_block d (h + of_nat (length as) + 1)]"
      using step inv by (auto elim!: chain_step.cases simp: node_inv_def in_memory_def)
    obtain s1 where s1: "neominer_reorg (journaled L) C (BD_Previous d) s = Inr s1" "node_inv (journaled L) C loaded cp h as s1"
      unfolding as(3) by (rule comb_node.reorg_keeps_inv [OF node inv [unfolded as(1)] as(2)])
    have at: "COMB_Hash s1 = BD_Previous d" "neominer_process_block (journaled L) C d s1 = Inr s'"
      using s1 as(3) run process_after_reorg [OF s1(1)] by (auto simp: node_inv_def in_memory_def)
    obtain s0 where s0: "neominer_write (journaled L) s = Inr s0"
      "snd (node_db s1) = snd (node_db s) @ [fst (node_db s), fst (node_db s0)]"
      by (rule reorg_journal [OF L s1(1) False])
    have "node_inv (journaled L) C loaded cp h bs s0"
      using comb_node.write_flushes [OF node inv] s0(1) by (metis sum.inject(2))
    then have flushed: "lost_at_most (unat (Neo_BatchCapacity s)) L bs (fst (node_db s0))"
      using on_disk_lost [of L bs s0] write_capacity [OF s0(1)] by (simp add: node_inv_def)
    have "Neo_BatchCapacity s1 = Neo_BatchCapacity s"
      using process_capacity [OF run] process_capacity [OF at(2)] by simp
    then have removed: "lost_at_most (unat (Neo_BatchCapacity s)) L bs' (fst (node_db s1))"
      using on_disk_lost_next [of L as s1] s1(2) as(4) by (simp add: node_inv_def)
    have "disk \<in> fst ` node_db ` {s, s0, s1, s'}"
      using process_journal [OF at(2) at(1) [symmetric]] disk s0(2) by (auto simp: disks_between_def)
    with first flushed removed last show ?thesis by blast
  qed
qed

lemma lost_restarts:
  assumes "comb_node L C loaded" "checkpoint (comb_network F) = Some (cp, h, path)"
    and "valid_chain cp h bs" "list_all good_fingerprint bs" "lost_at_most m L bs disk" "open_file path True = Inr disk"
  shows "\<exists>s k. main_start F open_file L C (globals d0 l0) = Inr s \<and> k \<le> m
    \<and> node_inv L C loaded cp h (take (length bs - k) bs) s \<and> flushed L (take (length bs - k) bs) s"
proof -
  obtain n where n: "n \<le> length bs" "length bs - n \<le> m" "db_holds L disk (take n bs)"
    using assms(5) by (auto simp: lost_at_most_def)
  have chain: "valid_chain cp h (take n bs)" "list_all good_fingerprint (take n bs)"
    using assms(3,4) valid_chain_take [of cp h "take n bs" "drop n bs"] by (auto simp: list_all_iff dest: in_set_takeD)
  have fresh: "\<not> COMB_StatusLock (globals d0 l0)" "\<not> node_db_is_new (globals d0 l0)"
    by (simp_all add: globals_def)
  have "opens L open_file path (take n bs)"
    using assms(6) n(3) by (auto simp: opens_def)
  then obtain s where "main_start F open_file L C (globals d0 l0) = Inr s"
    "node_inv L C loaded cp h (take n bs) s" "flushed L (take n bs) s"
    by (rule comb_node.start_establishes [OF assms(1,2) _ chain fresh])
  then show ?thesis
    using n(1,2) by (intro exI [of _ s] exI [of _ "length bs - n"]) simp
qed

text \<open>
  C3. A crash at any point loses at most the batch. A node delivers any blocks and is then stopped
  anywhere in the delivery of one more, extension or reorganisation: before it, between the flush of
  the batch, the removal of the old branch and the writing of the new one, or behind it (the journal
  watches the disk and changes nothing: the plain node gets to the same state). From the disk
  as it is then \<open>main\<close> comes up, without a panic, with the whole chain from before the last delivery
  or from behind it, except for as many blocks at its end as the batch can hold.
\<close>

theorem crash_recovery:
  assumes "reliable_store L" "libcomb_chain C loaded" "checkpoint (comb_network F) = Some (cp, h, path)"
    and "node_inv L C loaded cp h bs s" "list_all good_fingerprint bs"
    and "chain_run cp h bs ds bs1" "chain_step cp h bs1 d bs2"
  shows "\<exists>s1 s2. fold_res (neominer_process_block (journaled L) C) ds (with_journal s) = Inr s1
    \<and> neominer_process_block (journaled L) C d s1 = Inr s2
    \<and> fold_res (neominer_process_block L C) (ds @ [d]) s = Inr (without_journal s2)
    \<and> (\<forall>disk \<in> set (disks_between (node_db s1) (node_db s2)). \<forall>open_file l0. open_file path True = Inr disk \<longrightarrow>
         (\<exists>s3 bs3 k. main_start F open_file L C (globals d0 l0) = Inr s3
            \<and> node_inv L C loaded cp h bs3 s3 \<and> flushed L bs3 s3
            \<and> k \<le> unat (Neo_BatchCapacity s) \<and> (bs3 = take (length bs1 - k) bs1 \<or> bs3 = take (length bs2 - k) bs2)))"
proof -
  note node = comb_nodeI [OF assms(1,2)] and node' = comb_nodeI [OF journaled_reliable [OF assms(1)] assms(2)]
  obtain s1 where s1: "fold_res (neominer_process_block (journaled L) C) ds (with_journal s) = Inr s1"
    "node_inv (journaled L) C loaded cp h bs1 s1"
    using comb_node.run_follows [OF node' assms(6) journal_inv [OF assms(4)]] by blast
  obtain s2 where s2: "neominer_process_block (journaled L) C d s1 = Inr s2" "node_inv (journaled L) C loaded cp h bs2 s2"
    by (rule comb_node.step_follows [OF node' assms(7) s1(2)])
  have cap: "Neo_BatchCapacity s1 = Neo_BatchCapacity s"
    using processed_capacity [OF s1(1)] by (simp add: with_journal_def)
  have good: "list_all good_fingerprint bs1" "list_all good_fingerprint bs2"
    using chain_run_good [OF assms(6,5)] chain_step_good [OF assms(7)] by simp_all
  have "\<exists>s3 bs3 k. main_start F open_file L C (globals d0 l0) = Inr s3
      \<and> node_inv L C loaded cp h bs3 s3 \<and> flushed L bs3 s3
      \<and> k \<le> unat (Neo_BatchCapacity s) \<and> (bs3 = take (length bs1 - k) bs1 \<or> bs3 = take (length bs2 - k) bs2)"
    if disk: "disk \<in> set (disks_between (node_db s1) (node_db s2))" and opened: "open_file path True = Inr disk"
    for disk open_file l0
  proof -
    obtain bs' where bs': "bs' \<in> {bs1, bs2}" "lost_at_most (unat (Neo_BatchCapacity s)) L bs' disk"
      using step_disks [OF assms(1,2) s1(2) assms(7) s2(1) disk] cap by auto
    then have "valid_chain cp h bs'" "list_all good_fingerprint bs'"
      using s1(2) s2(2) good by (auto simp: node_inv_def)
    from lost_restarts [where open_file = open_file and ?d0.0 = d0 and ?l0.0 = l0, OF node assms(3) this bs'(2) opened] bs'(1) show ?thesis by blast
  qed
  moreover have "fold_res (neominer_process_block L C) (ds @ [d]) s = Inr (without_journal s2)"
    using watched_run [of L C "ds @ [d]" "with_journal s"] s1(1) s2(1) by (simp add: fold_res_append)
  ultimately show ?thesis
    using s1(1) s2(1) by blast
qed

text \<open>On the example of \<open>Main_Correct\<close>: a block that stays in the batch, and then one that replaces it.\<close>

lemma test_cp_other: "test_cp \<noteq> sample_hash 103" "test_cp \<noteq> sample_hash 113"
proof -
  have "sample_hash 103 = 103 # replicate 31 103" "sample_hash 113 = 113 # replicate 31 113"
    using replicate_Suc [of 31 "103 :: byte"] replicate_Suc [of 31 "113 :: byte"] by (simp_all add: sample_hash_def)
  then have "fmt_X (sample_hash 103) ! 0 = CHR ''6''" "fmt_X (sample_hash 113) ! 0 = CHR ''7''"
    by (simp_all add: hex_digits_def)
  then show "test_cp \<noteq> sample_hash 103" "test_cp \<noteq> sample_hash 113"
    using test_cp_digit by auto
qed

lemma base_next:
  "chain_step test_cp 0 [base_block] (sample_data 103 102 [])
     [base_block, neominer_block (sample_data 103 102 []) 2]"
  using chain_step.extend [of "sample_data 103 102 []" test_cp "[base_block]" 0] test_cp_other
  by (simp add: good_data_def sample_data_def base_block_def tip_def sample_hash_zero)

lemma base_fork:
  "chain_step test_cp 0 [base_block, neominer_block (sample_data 103 102 []) 2] (sample_data 113 102 [sample_hash 9])
     [base_block, neominer_block (sample_data 113 102 [sample_hash 9]) 2]"
  using chain_step.replace [of "[base_block]" "sample_data 113 102 [sample_hash 9]" test_cp 0
      "[neominer_block (sample_data 103 102 []) 2]"] test_cp_other
  by (simp add: good_data_def sample_data_def base_block_def tip_def sample_hash_zero)

theorem crash_recovery_witness:
  "\<exists>s s1 s2. main_start test_flags base_file log_store plain_libcomb (globals [] (0, [])) = Inr s
    \<and> fold_res (neominer_process_block (journaled log_store) plain_libcomb) [sample_data 103 102 []] (with_journal s) = Inr s1
    \<and> neominer_process_block (journaled log_store) plain_libcomb (sample_data 113 102 [sample_hash 9]) s1 = Inr s2
    \<and> (\<forall>disk \<in> set (disks_between (node_db s1) (node_db s2)).
         \<exists>s3 bs3. main_start test_flags (\<lambda>_ _. Inr disk) log_store plain_libcomb (globals [] (0, [])) = Inr s3
           \<and> flushed log_store bs3 s3)"
proof -
  have cp: "checkpoint (comb_network test_flags) = Some (test_cp, 0, ''commits_testnet'')"
    by (simp add: test_flags_def test_checkpoint test_cp_def)
  have run: "chain_run test_cp 0 [base_block] [sample_data 103 102 []] [base_block, neominer_block (sample_data 103 102 []) 2]"
    using base_next by simp
  have fresh: "\<not> COMB_StatusLock (globals [] (0 :: u64, [] :: hash256 list list))"
    "\<not> node_db_is_new (globals [] (0 :: u64, [] :: hash256 list list))"
    by (simp_all add: globals_def)
  obtain s where s: "main_start test_flags base_file log_store plain_libcomb (globals [] (0, [])) = Inr s"
    "node_inv log_store plain_libcomb snd test_cp 0 [base_block] s"
    by (rule comb.start_establishes [OF cp base_opens base_chain fresh])
  obtain s1 s2 where s12: "fold_res (neominer_process_block (journaled log_store) plain_libcomb) [sample_data 103 102 []] (with_journal s) = Inr s1"
    "neominer_process_block (journaled log_store) plain_libcomb (sample_data 113 102 [sample_hash 9]) s1 = Inr s2"
    "\<forall>disk \<in> set (disks_between (node_db s1) (node_db s2)). \<forall>open_file l0. open_file ''commits_testnet'' True = Inr disk \<longrightarrow>
         (\<exists>s3 bs3 k. main_start test_flags open_file log_store plain_libcomb (globals [] l0) = Inr s3
            \<and> node_inv log_store plain_libcomb snd test_cp 0 bs3 s3 \<and> flushed log_store bs3 s3
            \<and> k \<le> unat (Neo_BatchCapacity s)
            \<and> (bs3 = take (length [base_block, neominer_block (sample_data 103 102 []) 2] - k)
                        [base_block, neominer_block (sample_data 103 102 []) 2]
               \<or> bs3 = take (length [base_block, neominer_block (sample_data 113 102 [sample_hash 9]) 2] - k)
                        [base_block, neominer_block (sample_data 113 102 [sample_hash 9]) 2]))"
    using crash_recovery [OF log_store_reliable plain_libcomb_chain cp s(2) base_chain(2) run base_fork, of "[]"] by blast
  have "\<exists>s3 bs3. main_start test_flags (\<lambda>_ _. Inr disk) log_store plain_libcomb (globals [] (0, [])) = Inr s3
      \<and> flushed log_store bs3 s3" if "disk \<in> set (disks_between (node_db s1) (node_db s2))" for disk
    using s12(3) [rule_format, OF that, of "\<lambda>_ _. Inr disk" "(0, [])"] by blast
  with s(1) s12(1,2) show ?thesis by blast
qed

end
