(* ===== verification/Ledger.thy ===== *)
theory Ledger
  imports Recovered_Panics
begin

section \<open>The ledger: one list of blocks for any sequence of deliveries and removals\<close>

text \<open>
  The specification of a node whatever it is given. \<open>chain_step\<close> says what a delivered block does as
  long as it belongs to the chain of Bitcoin; a block pushed from outside need not, and a removal can
  name any height. The ledger is what all of them leave: one list of blocks above a base, a tip, and
  the parents of the delivered blocks. Its operations are total, and know nothing of records, batches,
  libraries and scans. Where the node goes wrong the ledger says so: after a panic the tip is the
  zero hash, and a block can come to lie on top of one that is not its parent.
\<close>

record ledger =
  lg_base :: u64
  lg_blocks :: "Block list"
  lg_tip :: hash256
  lg_parents :: "hash256 \<rightharpoonup> hash256"

abbreviation lg_height :: "ledger \<Rightarrow> u64" where
  "lg_height g \<equiv> lg_base g + of_nat (length (lg_blocks g))"

text \<open>
  \<open>Panicked\<close> is the ledger behind a panic of the handler. \<open>LeftOpen\<close>: the specification says nothing.
\<close>

datatype reception = Accepted ledger | Panicked ledger | LeftOpen

subsection \<open>Rolling back\<close>

definition upto_last :: "hash256 \<Rightarrow> Block list \<Rightarrow> Block list" where
  "upto_last t bs = rev (dropWhile (\<lambda>b. blk_hash b \<noteq> t) (rev bs))"

text \<open>A target that is no block of the list leaves the first block; without blocks the base is lost.\<close>

definition roll_back :: "hash256 \<Rightarrow> ledger \<Rightarrow> ledger" where
  "roll_back t g =
     (if lg_blocks g = [] then g\<lparr>lg_base := 0, lg_tip := t\<rparr>
      else g\<lparr>lg_blocks := (if upto_last t (lg_blocks g) = [] then take 1 (lg_blocks g) else upto_last t (lg_blocks g)),
             lg_tip := t\<rparr>)"

text \<open>The target has to be an ancestor of the tip.\<close>

definition return_to :: "hash256 \<Rightarrow> ledger \<Rightarrow> reception" where
  "return_to t g =
     (case trace_back (lg_parents g) t (lg_tip g) of
        None \<Rightarrow> LeftOpen
      | Some (Inl _) \<Rightarrow> Panicked (g\<lparr>lg_tip := zero32\<rparr>)
      | Some (Inr _) \<Rightarrow> Accepted (roll_back t g))"

subsection \<open>Delivering and removing\<close>

text \<open>What the types of Go give, with the number of commits a record can count, and a hash that is not zero.\<close>

definition data_ok :: "BlockData \<Rightarrow> bool" where
  "data_ok d \<longleftrightarrow> is32 (BD_Hash d) \<and> is32 (BD_Previous d) \<and> list_all is32 (BD_Commits d)
     \<and> length (BD_Commits d) \<le> 4294967296 \<and> BD_Hash d \<noteq> zero32"

definition extend :: "BlockData \<Rightarrow> ledger \<Rightarrow> ledger" where
  "extend d g = g\<lparr>lg_blocks := lg_blocks g @ [neominer_block d (lg_height g + 1)], lg_tip := BD_Hash d,
     lg_parents := (lg_parents g)(BD_Hash d \<mapsto> BD_Previous d)\<rparr>"

fun grow :: "BlockData \<Rightarrow> reception \<Rightarrow> reception" where
  "grow d (Accepted g) =
     (if unat (lg_base g) + length (lg_blocks g) + 1 < 2 ^ 64 - 1 then Accepted (extend d g) else LeftOpen)"
| "grow d r = r"

definition deliver :: "BlockData \<Rightarrow> ledger \<Rightarrow> reception" where
  "deliver d g =
     (if \<not> data_ok d then LeftOpen
      else grow d
        (if BD_Previous d = lg_tip g then Accepted g
         else case lg_parents g (BD_Previous d) of
                None \<Rightarrow> Panicked g
              | Some _ \<Rightarrow> return_to (BD_Previous d) g))"

definition remove_from :: "u64 \<Rightarrow> ledger \<Rightarrow> reception" where
  "remove_from m g =
     return_to (case filter (\<lambda>b. m \<le> blk_height b) (lg_blocks g) of [] \<Rightarrow> zero32 | b # _ \<Rightarrow> blk_hash b) g"

subsection \<open>What every ledger keeps\<close>

definition stacked :: "u64 \<Rightarrow> Block list \<Rightarrow> bool" where
  "stacked h bs \<longleftrightarrow> list_all wf_block bs \<and> unat h + length bs < 2 ^ 64 - 1
     \<and> (\<forall>i < length bs. unat (blk_height (bs ! i)) = unat h + Suc i)"

definition sound :: "ledger \<Rightarrow> bool" where
  "sound g \<longleftrightarrow> stacked (lg_base g) (lg_blocks g) \<and> lg_parents g zero32 = None
     \<and> list_all (\<lambda>b. blk_hash b \<noteq> zero32) (lg_blocks g)"

lemma stacked_wf: "stacked h bs \<Longrightarrow> wf_chain bs"
  by (auto simp: stacked_def wf_chain_def sorted_wrt_iff_nth_less word_less_nat_alt)

lemma stacked_take: "stacked h bs \<Longrightarrow> stacked h (take n bs)"
  by (auto simp: stacked_def list_all_iff dest: in_set_takeD)

lemma stacked_nil: "unat h < 2 ^ 64 - 1 \<Longrightarrow> stacked h []"
  by (simp add: stacked_def)

lemma stacked_top:
  assumes "stacked h bs"
  shows "unat (h + of_nat (length bs)) = unat h + length bs"
proof -
  have "unat (of_nat (length bs) :: u64) = length bs"
    using assms by (simp add: stacked_def unat_of_nat)
  with assms show ?thesis
    by (simp add: unat_word_ariths stacked_def)
qed

lemma stacked_last: "stacked h bs \<Longrightarrow> bs \<noteq> [] \<Longrightarrow> blk_height (last bs) = h + of_nat (length bs)"
  using stacked_top [of h bs] by (auto simp: stacked_def last_conv_nth word_unat_eq_iff)

lemma stacked_snoc:
  assumes "stacked h bs" "wf_block b" "blk_height b = h + of_nat (length bs) + 1"
    and "unat h + length bs + 1 < 2 ^ 64 - 1"
  shows "stacked h (bs @ [b])"
proof -
  have "unat (blk_height b) = unat h + Suc (length bs)"
    using stacked_top [OF assms(1)] assms(3,4) by (simp add: unat_word_ariths)
  with assms show ?thesis
    by (auto simp: stacked_def nth_append less_Suc_eq)
qed

lemma valid_chain_stacked: "valid_chain cp h bs \<Longrightarrow> stacked h bs"
  using valid_chain_height by (auto simp: stacked_def valid_chain_def)

lemma upto_last_take: "\<exists>n. upto_last t bs = take n bs"
proof -
  have "bs = upto_last t bs @ rev (takeWhile (\<lambda>b. blk_hash b \<noteq> t) (rev bs))"
    by (simp add: upto_last_def flip: rev_append)
  then have "upto_last t bs = take (length (upto_last t bs)) bs"
    by (metis append_eq_conv_conj)
  then show ?thesis ..
qed

lemma roll_back_take: "\<exists>n. lg_blocks (roll_back t g) = take n (lg_blocks g)"
  using upto_last_take [of t "lg_blocks g"] by (auto simp: roll_back_def)

lemma roll_back_fields [simp]: "lg_tip (roll_back t g) = t" "lg_parents (roll_back t g) = lg_parents g"
  by (simp_all add: roll_back_def)

lemma roll_back_sound: "sound g \<Longrightarrow> sound (roll_back t g)"
proof -
  assume sound: "sound g"
  obtain n where n: "lg_blocks (roll_back t g) = take n (lg_blocks g)"
    using roll_back_take by blast
  have "stacked (lg_base (roll_back t g)) (take n (lg_blocks g))"
    using sound stacked_nil [of 0] stacked_take by (auto simp: roll_back_def sound_def)
  with sound n show ?thesis
    by (auto simp: sound_def list_all_iff dest: in_set_takeD)
qed

lemma extend_sound:
  assumes "sound g" "data_ok d" "unat (lg_base g) + length (lg_blocks g) + 1 < 2 ^ 64 - 1"
  shows "sound (extend d g)"
proof -
  let ?b = "neominer_block d (lg_height g + 1)"
  have "wf_block ?b"
    using assms(2) by (simp add: neominer_block_def wf_block_def wf_metadata_def data_ok_def)
  then have "stacked (lg_base g) (lg_blocks g @ [?b])"
    using assms by (intro stacked_snoc) (simp_all add: sound_def neominer_block_def)
  with assms show ?thesis
    by (auto simp: sound_def extend_def data_ok_def neominer_block_def)
qed

lemma return_to_sound: "sound g \<Longrightarrow> return_to t g = Accepted g' \<or> return_to t g = Panicked g' \<Longrightarrow> sound g'"
  by (auto simp: return_to_def roll_back_sound split: option.splits sum.splits)
    (auto simp: sound_def)

lemma deliver_sound:
  "sound g \<Longrightarrow> deliver d g = Accepted g' \<or> deliver d g = Panicked g' \<Longrightarrow> sound g'"
  using return_to_sound [of g "BD_Previous d"] extend_sound [of _ d]
  by (cases "if BD_Previous d = lg_tip g then Accepted g else
        case lg_parents g (BD_Previous d) of None \<Rightarrow> Panicked g | Some _ \<Rightarrow> return_to (BD_Previous d) g")
    (auto simp: deliver_def split: if_splits option.splits)

text \<open>On the chain of Bitcoin the ledger is the chain.\<close>

lemma upto_last_tip:
  assumes "valid_chain cp h (as @ cs)" "as \<noteq> []"
  shows "upto_last (tip cp as) (as @ cs) = as"
proof -
  obtain as' a where as: "as = as' @ [a]"
    using assms(2) by (cases as rule: rev_cases) auto
  have "blk_hash a \<notin> blk_hash ` set cs"
    using assms(1) by (simp add: as valid_chain_def)
  then have "\<forall>b \<in> set cs. blk_hash b \<noteq> blk_hash a"
    by (metis imageI)
  then have "dropWhile (\<lambda>b. blk_hash b \<noteq> blk_hash a) (rev cs @ a # rev as') = a # rev as'"
    by (subst dropWhile_append2) simp_all
  then show ?thesis
    by (simp add: upto_last_def as tip_def)
qed

lemma deliver_chain_step:
  assumes "chain_step cp h bs d bs'" "valid_chain cp h bs" "maps_chain cp bs (lg_parents g)"
    and "lg_base g = h" "lg_blocks g = bs" "lg_tip g = tip cp bs"
  shows "\<exists>g'. deliver d g = Accepted g' \<and> lg_base g' = h \<and> lg_blocks g' = bs' \<and> lg_tip g' = tip cp bs'"
  using assms
proof (induction rule: chain_step.induct)
  case (extend d bs)
  then show ?case
    by (simp add: deliver_def data_ok_def good_data_def extend_def neominer_block_def)
next
  case (replace as d cs)
  have "lg_parents g (tip cp as) \<noteq> None"
    using replace.prems(2) replace.hyps(1) by (simp add: maps_chain_def tip_def)
  moreover have "return_to (tip cp as) g = Accepted (g\<lparr>lg_blocks := as, lg_tip := tip cp as\<rparr>)"
    using trace_back_to_tip [OF replace.prems(1,2)] upto_last_tip [OF replace.prems(1) replace.hyps(1)]
      replace.prems(4,5) replace.hyps(1)
    by (simp add: return_to_def roll_back_def)
  moreover have "lg_blocks g = as" if "tip cp as = lg_tip g"
    using that tip_below_differs [OF replace.prems(1)] replace.prems(4,5) by (cases "cs = []") simp_all
  ultimately show ?case
    using replace.hyps replace.prems(3)
    by (cases "tip cp as = lg_tip g")
      (auto simp: deliver_def data_ok_def good_data_def extend_def neominer_block_def)
qed

end
