(* ===== verification/Ledger_Node.thy ===== *)
theory Ledger_Node
  imports Ledger
begin

section \<open>The node implements the ledger\<close>

text \<open>
  Tip, height, parents, library, database and batch of the node are those of one ledger, and the
  operations that take in and remove blocks, with their panics, keep it so.
\<close>

definition in_mind :: "'l libcomb \<Rightarrow> ('l \<Rightarrow> hash256 list list) \<Rightarrow> ledger \<Rightarrow> ('d, 'l) node \<Rightarrow> bool" where
  "in_mind C loaded g s \<longleftrightarrow>
     COMB_Hash s = lg_tip g \<and> COMB_Height s = lg_height g \<and> COMB_Chain s = lg_parents g
     \<and> lib_GetHeight C (node_lib s) = lg_height g \<and> loaded (node_lib s) = map Blk_Commits (lg_blocks g)"

definition keeps ::
  "'d leveldb \<Rightarrow> 'l libcomb \<Rightarrow> ('l \<Rightarrow> hash256 list list) \<Rightarrow> ledger \<Rightarrow> ('d, 'l) node \<Rightarrow> bool" where
  "keeps L C loaded g s \<longleftrightarrow> sound g \<and> in_mind C loaded g s \<and> on_disk L (lg_blocks g) s"

text \<open>The ledger of a node that follows a chain.\<close>

definition ledger_of :: "u64 \<Rightarrow> Block list \<Rightarrow> ('d, 'l) node \<Rightarrow> ledger" where
  "ledger_of h bs s = \<lparr>lg_base = h, lg_blocks = bs, lg_tip = COMB_Hash s, lg_parents = COMB_Chain s\<rparr>"

lemma node_inv_keeps: "node_inv L C loaded cp h bs s \<Longrightarrow> keeps L C loaded (ledger_of h bs s) s"
  by (auto simp: node_inv_def keeps_def in_mind_def ledger_of_def sound_def in_memory_def maps_chain_def
      valid_chain_stacked valid_chain_def list_all_iff dest: sym)

lemma trace_back_Inr:
  assumes "trace_back m t h = Some (Inr x)"
  shows "x = t"
proof -
  have "\<forall>x. r = Inr x \<longrightarrow> x = t" if "trace_back m t h = Some r" for r
  proof (rule trace_back.raw_induct [where P = "\<lambda>m t h r. \<forall>x. r = Inr x \<longrightarrow> x = t", OF _ that])
    fix walk :: "(hash256 \<rightharpoonup> hash256) \<Rightarrow> hash256 \<Rightarrow> hash256 \<Rightarrow> (go_stop + hash256) option"
      and chain target hash r
    assume walk: "\<And>chain target hash r. walk chain target hash = Some r \<Longrightarrow> \<forall>x. r = Inr x \<longrightarrow> x = target"
      and step: "(if hash = target then Some (Inr hash) else
        case chain hash of None \<Rightarrow> Some (Inl PanicPastCheckpoint) | Some parent \<Rightarrow> walk chain target parent) = Some r"
    show "\<forall>x. r = Inr x \<longrightarrow> x = target"
      using step walk by (cases "hash = target"; cases "chain hash") auto
  qed
  with assms show ?thesis by blast
qed

lemma scan_upto_last:
  assumes "upto_last t bs \<noteq> []"
  shows "scan_result t md bs = Blk_Metadata (last (upto_last t bs))"
proof -
  have find: "List.find P xs = Some (hd (dropWhile (\<lambda>b. \<not> P b) xs))" if "dropWhile (\<lambda>b. \<not> P b) xs \<noteq> []"
    for P :: "Block \<Rightarrow> bool" and xs
    using that by (induction xs) auto
  from find [of "\<lambda>b. blk_hash b = t" "rev bs"] assms show ?thesis
    by (simp add: scan_result_def upto_last_def last_rev)
qed

lemma scan_no_block:
  assumes "upto_last t bs = []"
  shows "scan_result t md bs = (case bs of [] \<Rightarrow> md | b # _ \<Rightarrow> Blk_Metadata b)"
proof -
  have "List.find (\<lambda>b. blk_hash b = t) (rev bs) = None"
    using assms by (simp add: find_None_iff upto_last_def)
  then show ?thesis by (simp add: scan_result_def)
qed

text \<open>The record that a rollback finds is that of the last block it keeps.\<close>

lemma found_record:
  assumes "sound g"
  shows "BM_Height (scan_result t zero_metadata (lg_blocks g)) = lg_height (roll_back t g)"
proof (cases "lg_blocks g = []")
  case True
  then show ?thesis
    by (simp add: roll_back_def scan_no_block upto_last_def zero_metadata_def)
next
  case False
  have last: "blk_height (last (take n (lg_blocks g))) = lg_base g + of_nat (length (take n (lg_blocks g)))"
    if "take n (lg_blocks g) \<noteq> []" for n
    using assms that by (intro stacked_last stacked_take) (simp_all add: sound_def)
  obtain n where n: "upto_last t (lg_blocks g) = take n (lg_blocks g)"
    using upto_last_take by blast
  show ?thesis
  proof (cases "upto_last t (lg_blocks g) = []")
    case True
    with False last [of 1] show ?thesis
      by (cases "lg_blocks g") (simp_all add: scan_no_block roll_back_def)
  next
    case kept: False
    with last [of n] n False show ?thesis
      by (simp add: scan_upto_last roll_back_def)
  qed
qed

lemma kept_blocks:
  assumes "stacked h bs"
  shows "filter (\<lambda>b. blk_height b < h + of_nat (length (take n bs)) + 1) bs = take n bs"
proof -
  have top: "unat (h + of_nat (length (take n bs)) + 1) = unat h + length (take n bs) + 1"
    using stacked_top [OF stacked_take [OF assms, of n]] stacked_take [OF assms, of n]
    by (simp add: stacked_def unat_word_ariths)
  have at: "blk_height (bs ! i) < h + of_nat (length (take n bs)) + 1 \<longleftrightarrow> i < n" if "i < length bs" for i
    using assms that top by (auto simp: stacked_def word_less_nat_alt)
  have "blk_height b < h + of_nat (length (take n bs)) + 1" if "b \<in> set (take n bs)" for b
  proof -
    obtain i where "i < length (take n bs)" "b = take n bs ! i"
      using \<open>b \<in> set (take n bs)\<close> unfolding in_set_conv_nth by blast
    with at [of i] show ?thesis by (simp del: length_take) simp
  qed
  moreover have "\<not> blk_height b < h + of_nat (length (take n bs)) + 1" if "b \<in> set (drop n bs)" for b
  proof -
    obtain i where "i < length (drop n bs)" "b = drop n bs ! i"
      using \<open>b \<in> set (drop n bs)\<close> unfolding in_set_conv_nth by blast
    with at [of "n + i"] show ?thesis by simp
  qed
  ultimately show ?thesis
    by (subst (2) append_take_drop_id [of n bs, symmetric], unfold filter_append)
      (simp add: filter_id_conv filter_empty_conv del: append_take_drop_id length_take)
qed

text \<open>The way to the parent of a delivered block.\<close>

definition reach_parent :: "hash256 \<Rightarrow> ledger \<Rightarrow> reception" where
  "reach_parent prev g =
     (if prev = lg_tip g then Accepted g
      else case lg_parents g prev of None \<Rightarrow> Panicked g | Some _ \<Rightarrow> return_to prev g)"

lemma deliver_grows: "data_ok d \<Longrightarrow> deliver d g = grow d (reach_parent (BD_Previous d) g)"
  by (simp add: deliver_def reach_parent_def)

lemma neominer_outcome_at:
  assumes "neominer_reorg_outcome L C (BD_Previous d) s = (None, s1)" "COMB_Hash s1 = BD_Previous d"
  shows "neominer_outcome L C d s = neominer_outcome L C d s1"
  using assms by (simp add: neominer_outcome_def neominer_reorg_outcome_def)

text \<open>The ledger a request leaves, after a panic or not.\<close>

definition settles :: "reception \<Rightarrow> ledger \<Rightarrow> bool" where
  "settles r g \<longleftrightarrow> r = Accepted g \<or> r = Panicked g"

context comb_node
begin

lemma unload_from:
  assumes "lib_GetHeight C l = ht"
  obtains l' where "unload_to C target ht l = Some (target, l')" "lib_GetHeight C l' = target"
    "loaded l' = take (length (loaded l) - unat (ht - target)) (loaded l)"
  using unload_rounds [of "unat (ht - target)" l ht] assms by auto

text \<open>Rolling back a node whose batch is written.\<close>

lemma return_accepted:
  assumes keeps: "keeps L C loaded g s" and fl: "flushed L (lg_blocks g) s"
    and acc: "return_to t g = Accepted g'"
  obtains s' where "reorg_outcome L C t s = (None, s')" "keeps L C loaded g' s'" "flushed L (lg_blocks g') s'"
proof -
  have sound: "sound g" and mind: "in_mind C loaded g s" and db: "db_holds L (node_db s) (lg_blocks g)"
    using keeps fl by (simp_all add: keeps_def flushed_def)
  obtain x where tr: "trace_back (COMB_Chain s) t (COMB_Hash s) = Some (Inr x)" and g': "g' = roll_back t g"
    using acc mind by (auto simp: return_to_def in_mind_def split: option.splits sum.splits)
  define md where "md = scan_result t zero_metadata (lg_blocks g)"
  have md: "db_get_block_by_hash L (node_db s) t = Some md" "BM_Height md = lg_height g'"
    using by_hash_holds [OF db] found_record [OF sound] by (simp_all add: md_def g')
  obtain n where n: "lg_blocks g' = take n (lg_blocks g)"
    using roll_back_take [of t g] g' by auto
  have "filter (\<lambda>b. blk_height b < lg_height g' + 1) (lg_blocks g) = lg_blocks g'"
    using kept_blocks [of "lg_base g" "lg_blocks g" n] sound n
    by (cases "lg_blocks g = []") (simp_all add: sound_def g' roll_back_def)
  then obtain d where d: "db_remove_blocks_after L (node_db s) (BM_Height md + 1) = (None, d)"
    "db_holds L d (lg_blocks g')"
    using remove_after_holds [OF db, of "BM_Height md + 1"] md(2) by metis
  have ht: "lib_GetHeight C (node_lib s) = lg_height g"
    using mind by (simp add: in_mind_def)
  obtain l where l: "unload_to C (lg_height g') (lg_height g) (node_lib s) = Some (lg_height g', l)"
    "lib_GetHeight C l = lg_height g'"
    "loaded l = take (length (loaded (node_lib s)) - unat (lg_height g - lg_height g')) (loaded (node_lib s))"
    by (rule unload_from [OF ht])
  define s' where "s' = s\<lparr>COMB_Hash := t, node_db := d, COMB_Height := lg_height g', node_lib := lib_FinishReorg C l\<rparr>"
  have "lg_blocks g = [] \<or> unat (lg_height g - lg_height g') = length (lg_blocks g) - length (lg_blocks g')"
  proof (cases "lg_blocks g = []")
    case False
    then have "lg_base g' = lg_base g" by (simp add: g' roll_back_def)
    moreover have "length (lg_blocks g') \<le> length (lg_blocks g)" by (simp add: n)
    moreover have "length (lg_blocks g) < 2 ^ 64" using sound by (simp add: sound_def stacked_def)
    ultimately show ?thesis
      by (simp add: unat_of_nat flip: of_nat_diff)
  qed simp
  then have "loaded l = map Blk_Commits (lg_blocks g')"
    using l(3) mind n by (auto simp: in_mind_def take_map min_def)
  then have "in_mind C loaded g' s'"
    using mind l(2) by (simp add: in_mind_def s'_def g' finish_height finish_loaded)
  moreover have fl': "flushed L (lg_blocks g') s'"
    using fl d(2) by (simp add: flushed_def s'_def)
  ultimately have "keeps L C loaded g' s'"
    using roll_back_sound [OF sound] flushed_on_disk by (simp add: keeps_def g')
  moreover have "reorg_outcome L C t s = (None, s')"
    using md tr d(1) l(1) mind trace_back_Inr [OF tr]
    by (simp add: reorg_outcome_def s'_def in_mind_def)
  ultimately show ?thesis using fl' that by blast
qed

lemma return_panicked:
  assumes keeps: "keeps L C loaded g s" and fl: "flushed L (lg_blocks g) s"
    and pan: "return_to t g = Panicked g'"
  obtains stop s' where "reorg_outcome L C t s = (Some stop, s')" "keeps L C loaded g' s'"
    "flushed L (lg_blocks g') s'"
proof -
  have mind: "in_mind C loaded g s" and db: "db_holds L (node_db s) (lg_blocks g)"
    using keeps fl by (simp_all add: keeps_def flushed_def)
  obtain stop where tr: "trace_back (COMB_Chain s) t (COMB_Hash s) = Some (Inl stop)"
    and g': "g' = g\<lparr>lg_tip := zero32\<rparr>"
    using pan mind by (auto simp: return_to_def in_mind_def split: option.splits sum.splits)
  have "flushed L (lg_blocks g') (s\<lparr>COMB_Hash := zero32\<rparr>)"
    using fl by (simp add: flushed_def g')
  moreover from this have "keeps L C loaded g' (s\<lparr>COMB_Hash := zero32\<rparr>)"
    using keeps flushed_on_disk by (simp add: keeps_def sound_def in_mind_def g')
  moreover have "reorg_outcome L C t s = (Some stop, s\<lparr>COMB_Hash := zero32\<rparr>)"
    using tr by (simp add: reorg_outcome_def by_hash_holds [OF db])
  ultimately show ?thesis using that by blast
qed

lemma write_keeps:
  assumes "keeps L C loaded g s"
  obtains s' where "write_outcome L s = (None, s')" "keeps L C loaded g s'" "flushed L (lg_blocks g) s'"
proof -
  have wf: "wf_chain (lg_blocks g)" and disk: "on_disk L (lg_blocks g) s"
    using assms by (auto simp: keeps_def sound_def intro: stacked_wf)
  obtain d where w: "neominer_write L s = Inr (s\<lparr>node_db := d, Neo_Batch := [], Neo_BatchCached := 0\<rparr>)"
    "db_holds L d (lg_blocks g)"
    by (rule write_on_disk [OF wf disk])
  define s' where "s' = s\<lparr>node_db := d, Neo_Batch := [], Neo_BatchCached := 0\<rparr>"
  have fl: "flushed L (lg_blocks g) s'"
    using disk w(2) by (auto simp: flushed_def on_disk_def word_less_nat_alt s'_def)
  then have "keeps L C loaded g s'"
    using assms flushed_on_disk by (simp add: keeps_def in_mind_def s'_def)
  moreover have "write_outcome L s = (None, s')"
    using w(1) by (simp add: s'_def outcome_result_Inr flip: write_result)
  ultimately show ?thesis using fl that by blast
qed

lemma parent_reached:
  assumes keeps: "keeps L C loaded g s" and acc: "reach_parent prev g = Accepted g'"
  obtains s' where "neominer_reorg_outcome L C prev s = (None, s')" "keeps L C loaded g' s'" "lg_tip g' = prev"
proof (cases "prev = lg_tip g")
  case True
  with acc keeps show ?thesis
    by (intro that [of s]) (auto simp: reach_parent_def neominer_reorg_outcome_def keeps_def in_mind_def)
next
  case False
  obtain s1 where s1: "write_outcome L s = (None, s1)" "keeps L C loaded g s1" "flushed L (lg_blocks g) s1"
    by (rule write_keeps [OF keeps])
  have "return_to prev g = Accepted g'" and known: "lg_parents g prev \<noteq> None"
    using acc False by (auto simp: reach_parent_def split: option.splits)
  moreover from this obtain s2 where "reorg_outcome L C prev s1 = (None, s2)" "keeps L C loaded g' s2"
    using return_accepted [OF s1(2,3)] by blast
  ultimately show ?thesis
    using False keeps s1(1)
    by (intro that [of s2])
      (auto simp: neominer_reorg_outcome_def keeps_def in_mind_def return_to_def split: option.splits sum.splits)
qed

lemma parent_panics:
  assumes keeps: "keeps L C loaded g s" and pan: "reach_parent prev g = Panicked g'"
  obtains stop s' where "neominer_reorg_outcome L C prev s = (Some stop, s')" "keeps L C loaded g' s'"
    "flushed L (lg_blocks g) s \<longrightarrow> flushed L (lg_blocks g') s'"
proof (cases "lg_parents g prev")
  case None
  with pan keeps show ?thesis
    by (intro that [of PanicChainBroken s])
      (auto simp: reach_parent_def neominer_reorg_outcome_def keeps_def in_mind_def split: if_splits)
next
  case (Some p)
  obtain s1 where s1: "write_outcome L s = (None, s1)" "keeps L C loaded g s1" "flushed L (lg_blocks g) s1"
    by (rule write_keeps [OF keeps])
  have "return_to prev g = Panicked g'" and other: "prev \<noteq> lg_tip g"
    using pan Some by (auto simp: reach_parent_def split: if_splits)
  then obtain stop s2 where "reorg_outcome L C prev s1 = (Some stop, s2)" "keeps L C loaded g' s2"
    "flushed L (lg_blocks g') s2"
    using return_panicked [OF s1(2,3)] by blast
  with other Some keeps s1(1) show ?thesis
    by (intro that [of stop s2]) (auto simp: neominer_reorg_outcome_def keeps_def in_mind_def)
qed

lemma extend_keeps:
  assumes keeps: "keeps L C loaded g s" and d: "data_ok d" "BD_Previous d = lg_tip g"
    and room: "unat (lg_base g) + length (lg_blocks g) + 1 < 2 ^ 64 - 1"
  obtains s' where "neominer_process_block L C d s = Inr s'" "keeps L C loaded (extend d g) s'"
proof -
  define b where "b = neominer_block d (lg_height g + 1)"
  have sound: "sound (extend d g)" and mind: "in_mind C loaded g s" and disk: "on_disk L (lg_blocks g) s"
    using keeps extend_sound [OF _ d(1) room] by (simp_all add: keeps_def)
  have wf: "wf_chain (lg_blocks g @ [b])"
    using sound by (auto simp: sound_def extend_def b_def intro: stacked_wf)
  have here: "COMB_Hash s = BD_Previous d" "lib_GetHeight C (node_lib s) = COMB_Height s"
    "b = neominer_block d (COMB_Height s + 1)" "length (lg_blocks g @ [b]) < 2 ^ 64" "BD_Hash d \<noteq> zero32"
    using mind d room by (simp_all add: in_mind_def b_def data_ok_def)
  obtain e q n where r: "neominer_process_block L C d s =
       Inr ((after_block C b s)\<lparr>node_db := e, Neo_Batch := q, Neo_BatchCached := n\<rparr>)"
    "on_disk L (lg_blocks g @ [b]) ((after_block C b s)\<lparr>node_db := e, Neo_Batch := q, Neo_BatchCached := n\<rparr>)"
    by (rule process_stores [OF disk here(1-3) wf here(4,5)])
  have "keeps L C loaded (extend d g) ((after_block C b s)\<lparr>node_db := e, Neo_Batch := q, Neo_BatchCached := n\<rparr>)"
    using sound r(2) mind
    by (simp add: keeps_def in_mind_def extend_def b_def after_block_def neominer_block_def load_height load_loaded
        algebra_simps)
  with r(1) show ?thesis by (rule that)
qed

text \<open>A delivered block, and what the two private requests do with one and with a height.\<close>

lemma deliver_accepted:
  assumes keeps: "keeps L C loaded g s" and acc: "deliver d g = Accepted g'"
  obtains s' where "neominer_outcome L C d s = (None, s')" "keeps L C loaded g' s'"
proof -
  have ok: "data_ok d"
    using acc by (simp add: deliver_def split: if_splits)
  obtain g1 where g1: "reach_parent (BD_Previous d) g = Accepted g1"
    "unat (lg_base g1) + length (lg_blocks g1) + 1 < 2 ^ 64 - 1" "g' = extend d g1"
    using acc unfolding deliver_grows [OF ok]
    by (cases "reach_parent (BD_Previous d) g") (auto split: if_splits)
  obtain s1 where s1: "neominer_reorg_outcome L C (BD_Previous d) s = (None, s1)" "keeps L C loaded g1 s1"
    "lg_tip g1 = BD_Previous d"
    by (rule parent_reached [OF keeps g1(1)])
  obtain s2 where s2: "neominer_process_block L C d s1 = Inr s2" "keeps L C loaded (extend d g1) s2"
    by (rule extend_keeps [OF s1(2) ok s1(3) [symmetric] g1(2)])
  have "COMB_Hash s1 = BD_Previous d"
    using s1(2,3) by (simp add: keeps_def in_mind_def)
  with s1(1) s2(1) have "neominer_outcome L C d s = (None, s2)"
    by (simp add: neominer_outcome_at outcome_result_Inr flip: neominer_result)
  with s2(2) g1(3) show ?thesis by (intro that) simp_all
qed

lemma deliver_panicked:
  assumes keeps: "keeps L C loaded g s" and pan: "deliver d g = Panicked g'"
  obtains stop s' where "neominer_outcome L C d s = (Some stop, s')" "keeps L C loaded g' s'"
    "flushed L (lg_blocks g) s \<longrightarrow> flushed L (lg_blocks g') s'"
proof -
  have ok: "data_ok d"
    using pan by (simp add: deliver_def split: if_splits)
  have "reach_parent (BD_Previous d) g = Panicked g'"
    using pan unfolding deliver_grows [OF ok]
    by (cases "reach_parent (BD_Previous d) g") (auto split: if_splits)
  then obtain stop s' where "neominer_reorg_outcome L C (BD_Previous d) s = (Some stop, s')" "keeps L C loaded g' s'"
    "flushed L (lg_blocks g) s \<longrightarrow> flushed L (lg_blocks g') s'"
    by (rule parent_panics [OF keeps])
  then show ?thesis
    by (intro that) (simp_all add: neominer_outcome_def)
qed

lemma push_keeps:
  assumes keeps: "keeps L C loaded g s" and fl: "flushed L (lg_blocks g) s"
    and mode: "node_mode F = MID_NODE_REMOTE" and data: "json_block t = Inr d" and r: "settles (deliver d g) g'"
  shows "keeps L C loaded g' (snd (push_outcome F json_block L C t s))
    \<and> flushed L (lg_blocks g') (snd (push_outcome F json_block L C t s))"
  using r unfolding settles_def
proof
  assume "deliver d g = Accepted g'"
  then obtain s1 where s1: "neominer_outcome L C d s = (None, s1)" "keeps L C loaded g' s1"
    by (rule deliver_accepted [OF keeps])
  obtain s2 where "write_outcome L s1 = (None, s2)" "keeps L C loaded g' s2" "flushed L (lg_blocks g') s2"
    by (rule write_keeps [OF s1(2)])
  with s1(1) mode data show ?thesis by (simp add: push_outcome_def)
next
  assume "deliver d g = Panicked g'"
  then obtain stop s1 where "neominer_outcome L C d s = (Some stop, s1)" "keeps L C loaded g' s1"
    "flushed L (lg_blocks g) s \<longrightarrow> flushed L (lg_blocks g') s1"
    by (rule deliver_panicked [OF keeps])
  with fl mode data show ?thesis by (simp add: push_outcome_def)
qed

lemma remove_keeps:
  assumes keeps: "keeps L C loaded g s" and fl: "flushed L (lg_blocks g) s"
    and mode: "node_mode F = MID_NODE_REMOTE" and height: "atoi t = Inr n"
    and r: "settles (remove_from (word_of_int n) g) g'"
  shows "keeps L C loaded g' (snd (remove_outcome F L C t s))
    \<and> flushed L (lg_blocks g') (snd (remove_outcome F L C t s))"
proof -
  define target where "target = (case filter (\<lambda>b. word_of_int n \<le> blk_height b) (lg_blocks g) of
      [] \<Rightarrow> zero32 | b # _ \<Rightarrow> blk_hash b)"
  have "db_holds L (node_db s) (lg_blocks g)"
    using fl by (simp add: flushed_def)
  from by_height_holds [OF this, of "word_of_int n"]
  have run: "remove_outcome F L C t s = reorg_outcome L C target s"
    using mode height by (simp add: remove_outcome_def target_def zero_metadata_def split: list.split)
  have "settles (return_to target g) g'"
    using r by (simp add: remove_from_def target_def)
  then show ?thesis
    unfolding run settles_def
  proof
    assume "return_to target g = Accepted g'"
    then obtain s' where "reorg_outcome L C target s = (None, s')" "keeps L C loaded g' s'" "flushed L (lg_blocks g') s'"
      by (rule return_accepted [OF keeps fl])
    then show "keeps L C loaded g' (snd (reorg_outcome L C target s))
        \<and> flushed L (lg_blocks g') (snd (reorg_outcome L C target s))" by simp
  next
    assume "return_to target g = Panicked g'"
    then obtain stop s' where "reorg_outcome L C target s = (Some stop, s')" "keeps L C loaded g' s'" "flushed L (lg_blocks g') s'"
      by (rule return_panicked [OF keeps fl])
    then show "keeps L C loaded g' (snd (reorg_outcome L C target s))
        \<and> flushed L (lg_blocks g') (snd (reorg_outcome L C target s))" by simp
  qed
qed

end

subsection \<open>Loading a ledger\<close>

text \<open>
  What a start makes of stored blocks: above the checkpoint they have to be linked, each the child of
  the one before it and at the next height.
\<close>

definition booted :: "hash256 \<Rightarrow> u64 \<Rightarrow> Block list \<Rightarrow> ledger" where
  "booted cp h bs = \<lparr>lg_base = h, lg_blocks = bs, lg_tip = tip cp bs,
     lg_parents = fold (\<lambda>b m. m(blk_hash b \<mapsto> blk_previous b)) bs [cp \<mapsto> zero32]\<rparr>"

lemma booted_snoc:
  "booted cp h (bs @ [b]) = (booted cp h bs)\<lparr>lg_blocks := bs @ [b], lg_tip := blk_hash b,
     lg_parents := (lg_parents (booted cp h bs))(blk_hash b \<mapsto> blk_previous b)\<rparr>"
  by (simp add: booted_def)

context comb_node
begin

lemma consume_ledger:
  assumes "in_mind C loaded (booted cp h as) s" "list_all good_fingerprint bs" "list_all (\<lambda>b. blk_hash b \<noteq> zero32) bs"
  shows "if linked (tip cp as) (h + of_nat (length as)) bs
    then db_load_consume L C bs s = Inr (fold (after_block C) bs s)
       \<and> in_mind C loaded (booted cp h (as @ bs)) (fold (after_block C) bs s)
    else db_load_consume L C bs s = Inl PanicCorruptionZero"
  using assms
proof (induction bs arbitrary: as s)
  case (Cons b bs)
  have at: "COMB_Hash s = tip cp as" "lib_GetHeight C (node_lib s) = h + of_nat (length as)"
    using Cons.prems(1) by (simp_all add: in_mind_def booted_def)
  show ?case
  proof (cases "blk_previous b = tip cp as \<and> blk_height b = h + of_nat (length as) + 1")
    case True
    then have "combcore_process_block C b s = Inr (after_block C b s)"
      using at Cons.prems(3) by (simp add: combcore_process_block_def after_block_def load_height Let_def)
    moreover have "in_mind C loaded (booted cp h (as @ [b])) (after_block C b s)"
      using Cons.prems(1) True
      by (simp add: booted_snoc in_mind_def after_block_def load_height load_loaded) (simp add: booted_def algebra_simps)
    ultimately show ?thesis
      using Cons.IH [of "as @ [b]" "after_block C b s"] Cons.prems(2,3) True
      by (auto simp: good_fingerprint_def algebra_simps)
  next
    case False
    then have "isl (combcore_process_block C b s)"
      using at Cons.prems(3) by (auto simp: combcore_process_block_def load_height Let_def)
    with False Cons.prems(2) show ?thesis
      by (auto simp: good_fingerprint_def db_load_recover_def split: sum.split)
  qed
qed simp

lemma load_ledger:
  assumes "db_holds L (node_db s) bs" "stacked h' bs" "in_mind C loaded (booted cp h []) s"
    and "list_all good_fingerprint bs" "list_all (\<lambda>b. blk_hash b \<noteq> zero32) bs"
  shows "if linked cp h bs
    then db_load L C s = Inr (fold (after_block C) bs s) \<and> in_mind C loaded (booted cp h bs) (fold (after_block C) bs s)
    else db_load L C s = Inl PanicCorruptionZero"
proof -
  have "blk_height b < NOT 0" if "b \<in> set bs" for b
  proof -
    obtain i where "i < length bs" "b = bs ! i"
      using \<open>b \<in> set bs\<close> by (auto simp: in_set_conv_nth)
    with assms(2) show ?thesis
      by (auto simp: stacked_def word_less_nat_alt unsigned_minus_1_eq_mask mask_eq_exp_minus_1)
  qed
  then have "db_load L C s = db_load_consume L C bs s"
    by (rule load_sends_below [OF assms(1)])
  with consume_ledger [OF assms(3-5)] show ?thesis
    by (cases "linked cp h bs") (simp_all add: tip_def)
qed

end

end
