(* ===== verification/Service.thy ===== *)
theory Service
  imports Rpc_Dispatch Http_Correct Crash Ledger_Node
begin

section \<open>The node in service\<close>

text \<open>
  Everything that reaches a running node, one event after the other: blocks of the miner and the
  writing of its batch, which only a full node has, bytes posted to the JSON-RPC server, and requests
  of the private address. Requests of the public address are left out, their handlers cannot change
  the node. Each event is taken whole; \<open>Shutdown\<close> and \<open>Load_Race\<close> look inside. The specification
  \<open>serve\<close> is a function: it says for every event what becomes of the ledger.
\<close>

subsection \<open>Events\<close>

datatype node_event =
    Mined BlockData
  | Flushed
  | Posted bytes
  | GotPrivate string

text \<open>
  \<open>Inl\<close> ends the program. The panic of a private request does not, it is recovered. The path is the
  one that the router gives to the handlers; it redirects the client when the path is not clean.
\<close>

definition node_step ::
  "mux \<Rightarrow> flags \<Rightarrow> 'j json_codec \<Rightarrow> (string \<Rightarrow> go_error + BlockData) \<Rightarrow> 'd leveldb \<Rightarrow> 'l libcomb \<Rightarrow> 'l wallet_lib
     \<Rightarrow> node_event \<Rightarrow> ('d, 'l) node \<Rightarrow> go_stop + ('d, 'l) node" where
  "node_step M F J json_block L C WL e s =
     (case e of
        Mined d \<Rightarrow> if node_mode F = FULL_NODE then neominer_process_block L C d s else Inr s
      | Flushed \<Rightarrow> if node_mode F = FULL_NODE then neominer_write L s else Inr s
      | Posted body \<Rightarrow> Inr (fst (httpHandler WL L J body s))
      | GotPrivate path \<Rightarrow> Inr (snd (serve_private M F json_block L C path s)))"

subsection \<open>The specification\<close>

text \<open>What a path of the private address asks for. Path variables are not empty and have no slash.\<close>

definition path_var :: "string \<Rightarrow> bool" where
  "path_var t \<longleftrightarrow> t \<noteq> '''' \<and> CHR ''/'' \<notin> set t"

datatype request = Push string | Remove string | Elsewhere

definition variable_after :: "string \<Rightarrow> string \<Rightarrow> string option" where
  "variable_after p path =
     (if prefix p path \<and> path_var (drop (length p) path) then Some (drop (length p) path) else None)"

definition private_request :: "string \<Rightarrow> request" where
  "private_request path =
     (case variable_after ''/private/db/push_block/'' path of
        Some t \<Rightarrow> Push t
      | None \<Rightarrow>
          (case variable_after ''/private/db/remove_blocks_after_height/'' path of
             Some t \<Rightarrow> Remove t
           | None \<Rightarrow> Elsewhere))"

lemma variable_after_iff: "variable_after p path = Some t \<longleftrightarrow> path = p @ t \<and> path_var t"
  by (auto simp: variable_after_def prefix_def)

lemma variable_after_None: "variable_after p path = None \<Longrightarrow> path_var t \<Longrightarrow> path \<noteq> p @ t"
  by (auto simp: variable_after_def)

text \<open>A panic of the miner ends the program, one of a request leaves what the ledger says.\<close>

datatype service = Running ledger | Ended | Unspecified

fun after_mined :: "reception \<Rightarrow> service" where
  "after_mined (Accepted g) = Running g"
| "after_mined (Panicked g) = Ended"
| "after_mined LeftOpen = Unspecified"

fun after_request :: "reception \<Rightarrow> service" where
  "after_request (Accepted g) = Running g"
| "after_request (Panicked g) = Running g"
| "after_request LeftOpen = Unspecified"

fun serve :: "flags \<Rightarrow> (string \<Rightarrow> go_error + BlockData) \<Rightarrow> node_event \<Rightarrow> ledger \<Rightarrow> service" where
  "serve F json_block (Mined d) g = (if node_mode F = FULL_NODE then after_mined (deliver d g) else Running g)"
| "serve F json_block Flushed g = Running g"
| "serve F json_block (Posted body) g = Running g"
| "serve F json_block (GotPrivate path) g =
     (if node_mode F \<noteq> MID_NODE_REMOTE then Running g
      else case private_request path of
             Push t \<Rightarrow> (case json_block t of Inl _ \<Rightarrow> Running g | Inr d \<Rightarrow> after_request (deliver d g))
           | Remove t \<Rightarrow>
               (case atoi t of Inl _ \<Rightarrow> Running g | Inr n \<Rightarrow> after_request (remove_from (word_of_int n) g))
           | Elsewhere \<Rightarrow> Running g)"

fun serve_all :: "flags \<Rightarrow> (string \<Rightarrow> go_error + BlockData) \<Rightarrow> node_event list \<Rightarrow> service \<Rightarrow> service" where
  "serve_all F json_block (e # es) (Running g) = serve_all F json_block es (serve F json_block e g)"
| "serve_all F json_block es c = c"

subsection \<open>The simulation\<close>

text \<open>A node that takes its blocks from outside writes every one of them before it goes on.\<close>

definition holds ::
  "flags \<Rightarrow> 'd leveldb \<Rightarrow> 'l libcomb \<Rightarrow> ('l \<Rightarrow> hash256 list list) \<Rightarrow> ledger \<Rightarrow> ('d, 'l) node \<Rightarrow> bool" where
  "holds F L C loaded g s \<longleftrightarrow>
     keeps L C loaded g s \<and> (node_mode F = MID_NODE_REMOTE \<longrightarrow> flushed L (lg_blocks g) s)"

fun describes ::
  "flags \<Rightarrow> 'd leveldb \<Rightarrow> 'l libcomb \<Rightarrow> ('l \<Rightarrow> hash256 list list) \<Rightarrow> service \<Rightarrow> go_stop + ('d, 'l) node \<Rightarrow> bool" where
  "describes F L C loaded (Running g) r \<longleftrightarrow> (\<exists>s. r = Inr s \<and> holds F L C loaded g s)"
| "describes F L C loaded Ended r \<longleftrightarrow> isl r"
| "describes F L C loaded Unspecified r \<longleftrightarrow> True"

lemma same_chain_holds:
  assumes "same_chain C loaded s s'" "holds F L C loaded g s"
  shows "holds F L C loaded g s'"
  using assms by (auto simp: same_chain_def holds_def keeps_def in_mind_def on_disk_def flushed_def)

text \<open>The handlers behind the private paths.\<close>

lemma private_handler:
  assumes "mux_router M" "path_var t"
  shows "serve_private M F json_block L C (''/private/db/push_block/'' @ t) s = push_outcome F json_block L C t s"
    and "serve_private M F json_block L C (''/private/db/remove_blocks_after_height/'' @ t) s = remove_outcome F L C t s"
  using assms(2) mux_router.push_route [OF assms(1), of t F json_block L C s]
    mux_router.remove_route [OF assms(1), of t F json_block L C s]
  by (simp_all add: path_var_def)

lemma private_ignored:
  assumes "node_mode F \<noteq> MID_NODE_REMOTE"
  shows "serve_private M F json_block L C path s = (None, s)"
  using assms by (simp add: serve_private_def private_routes_def push_outcome_def remove_outcome_def split: option.split)

lemma no_variable:
  assumes "mux_router M" "CHR ''{'' \<notin> set p" "{CHR ''{'', CHR ''}''} \<inter> set name = {}"
    and "\<And>t. path_var t \<Longrightarrow> path \<noteq> p @ t"
  shows "M (p @ ''{'' @ name @ ''}'') path = None"
proof (cases "prefix p path")
  case True
  then obtain t where t: "path = p @ t" by (auto simp: prefix_def)
  then have "\<not> path_var t" using assms(4) by blast
  then show ?thesis
    unfolding t mux_router.variable [OF assms(1-3)] by (simp add: path_var_def)
qed (rule mux_router.elsewhere [OF assms(1-3)])

lemma private_unrouted:
  assumes "mux_router M" "\<And>t. path_var t \<Longrightarrow> path \<noteq> ''/private/db/push_block/'' @ t"
    and "\<And>t. path_var t \<Longrightarrow> path \<noteq> ''/private/db/remove_blocks_after_height/'' @ t"
  shows "serve_private M F json_block L C path s = (None, s)"
  using no_variable [OF assms(1) _ _ assms(2), of "''block_data''"]
    no_variable [OF assms(1) _ _ assms(3), of "''height''"]
  by (simp add: serve_private_def private_routes_def)

lemma private_request_handled:
  assumes "mux_router M"
  shows "serve_private M F json_block L C path s =
    (case private_request path of
       Push t \<Rightarrow> push_outcome F json_block L C t s
     | Remove t \<Rightarrow> remove_outcome F L C t s
     | Elsewhere \<Rightarrow> (None, s))"
proof (cases "variable_after ''/private/db/push_block/'' path")
  case (Some t)
  then have "path = ''/private/db/push_block/'' @ t" "path_var t"
    by (simp_all only: variable_after_iff)
  with Some show ?thesis
    by (simp add: private_request_def private_handler [OF assms] del: append.simps)
next
  case push: None
  show ?thesis
  proof (cases "variable_after ''/private/db/remove_blocks_after_height/'' path")
    case (Some t)
    then have "path = ''/private/db/remove_blocks_after_height/'' @ t" "path_var t"
      by (simp_all only: variable_after_iff)
    with Some push show ?thesis
      by (simp add: private_request_def private_handler [OF assms] del: append.simps)
  next
    case None
    note other = variable_after_None [OF push] variable_after_None [OF None]
    have "serve_private M F json_block L C path s = (None, s)"
      by (rule private_unrouted [OF assms other])
    with push None show ?thesis
      by (simp add: private_request_def)
  qed
qed

text \<open>One event.\<close>

lemma mined_describes:
  assumes "comb_node L C loaded" "keeps L C loaded g s" "node_mode F = FULL_NODE"
  shows "describes F L C loaded (after_mined (deliver d g)) (neominer_process_block L C d s)"
proof (cases "deliver d g")
  case (Accepted g')
  then obtain s' where "neominer_outcome L C d s = (None, s')" "keeps L C loaded g' s'"
    by (rule comb_node.deliver_accepted [OF assms(1,2)])
  with Accepted assms(3) show ?thesis
    by (simp add: holds_def node_modes flip: neominer_result)
next
  case (Panicked g')
  then obtain stop s' where "neominer_outcome L C d s = (Some stop, s')"
    by (rule comb_node.deliver_panicked [OF assms(1,2)])
  with Panicked show ?thesis
    by (simp flip: neominer_result)
qed simp

lemma settled_request:
  assumes "\<And>g'. settles r g' \<Longrightarrow> keeps L C loaded g' s' \<and> flushed L (lg_blocks g') s'"
  shows "describes F L C loaded (after_request r) (Inr s')"
  using assms by (cases r) (auto simp: settles_def holds_def)

lemma event_describes:
  assumes "comb_node L C loaded" "wallet_chain C loaded WL" "mux_router M" "holds F L C loaded g s"
  shows "describes F L C loaded (serve F json_block e g) (node_step M F J json_block L C WL e s)"
proof (cases e)
  case (Mined d)
  with assms mined_describes [OF assms(1)] show ?thesis
    by (simp add: node_step_def holds_def)
next
  case Flushed
  have keeps: "keeps L C loaded g s"
    using assms(4) by (simp add: holds_def)
  obtain s' where "write_outcome L s = (None, s')" "keeps L C loaded g s'" "flushed L (lg_blocks g) s'"
    by (rule comb_node.write_keeps [OF assms(1) keeps])
  with Flushed assms(4) show ?thesis
    by (simp add: node_step_def holds_def flip: write_result)
next
  case (Posted body)
  with same_chain_holds [OF served_same_chain [OF assms(2)] assms(4)] show ?thesis
    by (simp add: node_step_def)
next
  case (GotPrivate path)
  show ?thesis
  proof (cases "node_mode F = MID_NODE_REMOTE")
    case remote: True
    then have here: "keeps L C loaded g s" "flushed L (lg_blocks g) s"
      using assms(4) by (simp_all add: holds_def)
    have push: "describes F L C loaded (after_request (deliver d g)) (Inr (snd (push_outcome F json_block L C t s)))"
      if "json_block t = Inr d" for t d
      by (rule settled_request, rule comb_node.push_keeps [where json_block = json_block, OF assms(1) here remote that])
    have remove: "describes F L C loaded (after_request (remove_from (word_of_int n) g)) (Inr (snd (remove_outcome F L C t s)))"
      if "atoi t = Inr n" for t n
      by (rule settled_request, rule comb_node.remove_keeps [OF assms(1) here remote that])
    have "json_block t = Inl err \<Longrightarrow> push_outcome F json_block L C t s = (None, s)"
      and "atoi t = Inl err \<Longrightarrow> remove_outcome F L C t s = (None, s)" for t err
      by (simp_all add: push_outcome_def remove_outcome_def)
    with push remove assms(4) show ?thesis
      by (simp add: GotPrivate remote node_step_def private_request_handled [OF assms(3)]
          split: request.split sum.split)
  qed (use GotPrivate assms(4) in \<open>simp add: node_step_def private_ignored\<close>)
qed

lemma events_describe:
  assumes "comb_node L C loaded" "wallet_chain C loaded WL" "mux_router M" "holds F L C loaded g s"
  shows "describes F L C loaded (serve_all F json_block es (Running g)) (fold_res (node_step M F J json_block L C WL) es s)"
  using assms(4)
proof (induction es arbitrary: g s)
  case (Cons e es)
  have "describes F L C loaded (serve F json_block e g) (node_step M F J json_block L C WL e s)"
    by (rule event_describes [OF assms(1-3) Cons.prems])
  then show ?case
  proof (cases "serve F json_block e g")
    case (Running g')
    with \<open>describes _ _ _ _ _ _\<close> obtain s' where "node_step M F J json_block L C WL e s = Inr s'" "holds F L C loaded g' s'"
      by auto
    with Running Cons.IH show ?thesis by simp
  next
    case Ended
    with \<open>describes _ _ _ _ _ _\<close> show ?thesis by (auto simp: isl_def)
  qed simp
qed simp

text \<open>
  C2. A node in service follows its specification. Whatever arrives, in any order - mined blocks,
  writes of the batch, any bytes posted to the RPC server, any request of the private address: pushes
  on the tip, on an earlier block, on the checkpoint, on a block that was rolled back, on the zero hash
  or on nothing known, removals at, below and above the chain or without one, malformed and unknown
  requests - tip, height, child-to-parent map, library, database and batch of the node, and the height
  that \<open>GetStatus\<close> tells, are those of the ledger, also after a panic that was recovered; on a node that
  is fed from outside the database holds all blocks. The program ends exactly where the specification
  lets the miner panic. It is silent only about a block with the zero hash or with more commits than a
  record can count, about heights at the limit of 64 bits, and about a walk along the parents that
  never ends.
\<close>

theorem node_follows_events:
  assumes "reliable_store L" "wallet_chain C loaded WL" "mux_router M"
    and "node_inv L C loaded cp h bs s" "node_mode F = MID_NODE_REMOTE \<longrightarrow> flushed L bs s"
  shows "case serve_all F json_block es (Running (ledger_of h bs s)) of
      Running g \<Rightarrow> \<exists>s'. fold_res (node_step M F J json_block L C WL) es s = Inr s'
        \<and> COMB_Hash s' = lg_tip g \<and> COMB_Height s' = lg_height g \<and> COMB_Chain s' = lg_parents g
        \<and> SI_COMBHeight (GetStatus WL s') = lg_height g
        \<and> loaded (node_lib s') = map Blk_Commits (lg_blocks g)
        \<and> on_disk L (lg_blocks g) s' \<and> (node_mode F = MID_NODE_REMOTE \<longrightarrow> flushed L (lg_blocks g) s')
    | Ended \<Rightarrow> \<exists>stop. fold_res (node_step M F J json_block L C WL) es s = Inl stop
    | Unspecified \<Rightarrow> True"
proof -
  have node: "comb_node L C loaded"
    using assms(1,2) by (intro comb_nodeI) (simp_all add: wallet_chain_def)
  have "holds F L C loaded (ledger_of h bs s) s"
    using assms(5) node_inv_keeps [OF assms(4)] by (simp add: holds_def ledger_of_def)
  from events_describe [OF node assms(2,3) this, of json_block es J] show ?thesis
    by (auto simp: GetStatus_def holds_def keeps_def in_mind_def isl_def split: service.split)
qed

text \<open>A client that pushes a fork, a block on the tip that the fork replaces, and one on the checkpoint.\<close>

definition client_json :: "string \<Rightarrow> go_error + BlockData" where
  "client_json text =
     (if text = ''root'' then Inr (sample_data 121 100 [sample_hash 9]) else sample_json text)"

lemma client_requests:
  "private_request ''/private/db/push_block/fork'' = Push ''fork''"
  "private_request ''/private/db/push_block/next'' = Push ''next''"
  "private_request ''/private/db/push_block/root'' = Push ''root''"
  "private_request ''/private/db/remove_blocks_after_height/11'' = Remove ''11''"
  "private_request ''/favicon.ico'' = Elsewhere"
  by code_simp+

abbreviation sample_ledger :: ledger where
  "sample_ledger \<equiv> ledger_of 10 [sample_1, sample_2] (with_stacks ([] :: lib_stack list) sample_node)"

lemma sample_ledger_eq:
  "sample_ledger = \<lparr>lg_base = 10, lg_blocks = [sample_1, sample_2], lg_tip = sample_hash 102, lg_parents = COMB_Chain sample_node\<rparr>"
  by (simp add: ledger_of_def with_stacks_def sample_node_def)

abbreviation fork_ledger :: ledger where
  "fork_ledger \<equiv> \<lparr>lg_base = 10, lg_blocks = [sample_1, fork_block], lg_tip = sample_hash 113,
     lg_parents = (COMB_Chain sample_node)(sample_hash 113 \<mapsto> sample_hash 101)\<rparr>"

abbreviation root_block :: Block where
  "root_block \<equiv> neominer_block (sample_data 121 100 [sample_hash 9]) 12"

lemmas walk_defs = return_to_def roll_back_def upto_last_def trace_back.simps sample_node_def sample_hash_zero sample_tips
  fork_block_def neominer_block_def

lemma client_delivers:
  "deliver (sample_data 113 101 [sample_hash 9]) sample_ledger = Accepted fork_ledger"
  "deliver (sample_data 103 102 []) fork_ledger = Panicked (fork_ledger\<lparr>lg_tip := zero32\<rparr>)"
  "deliver (sample_data 121 100 [sample_hash 9]) sample_ledger = Accepted
     \<lparr>lg_base = 10, lg_blocks = [sample_1, root_block], lg_tip = sample_hash 121,
      lg_parents = (COMB_Chain sample_node)(sample_hash 121 \<mapsto> sample_hash 100)\<rparr>"
  "remove_from 11 fork_ledger = Accepted (fork_ledger\<lparr>lg_blocks := [sample_1], lg_tip := sample_hash 101\<rparr>)"
  unfolding sample_ledger_eq
  by (simp_all add: deliver_def data_ok_def sample_data_def extend_def remove_from_def walk_defs)
    (simp_all add: sample_defs)

lemma client_served:
  "serve_all remote_flags client_json
     [Posted [1], GotPrivate ''/private/db/push_block/fork'', GotPrivate ''/favicon.ico'', Posted [2],
      GotPrivate ''/private/db/remove_blocks_after_height/11''] (Running sample_ledger)
   = Running (fork_ledger\<lparr>lg_blocks := [sample_1], lg_tip := sample_hash 101\<rparr>)"
  "serve_all remote_flags client_json
     [GotPrivate ''/private/db/push_block/fork'', GotPrivate ''/private/db/push_block/next''] (Running sample_ledger)
   = Running (fork_ledger\<lparr>lg_tip := zero32\<rparr>)"
  "serve_all remote_flags client_json [GotPrivate ''/private/db/push_block/root''] (Running sample_ledger)
   = Running \<lparr>lg_base = 10, lg_blocks = [sample_1, root_block], lg_tip = sample_hash 121,
       lg_parents = (COMB_Chain sample_node)(sample_hash 121 \<mapsto> sample_hash 100)\<rparr>"
proof -
  have eleven: "word_of_int 11 = (11 :: u64)"
    unfolding word_numeral_alt [symmetric] by simp
  note serves = client_requests client_delivers client_json_def sample_json_def atoi_digits remote_flags_def eleven
  show "serve_all remote_flags client_json
       [Posted [1], GotPrivate ''/private/db/push_block/fork'', GotPrivate ''/favicon.ico'', Posted [2],
        GotPrivate ''/private/db/remove_blocks_after_height/11''] (Running sample_ledger)
     = Running (fork_ledger\<lparr>lg_blocks := [sample_1], lg_tip := sample_hash 101\<rparr>)"
    "serve_all remote_flags client_json
       [GotPrivate ''/private/db/push_block/fork'', GotPrivate ''/private/db/push_block/next''] (Running sample_ledger)
     = Running (fork_ledger\<lparr>lg_tip := zero32\<rparr>)"
    "serve_all remote_flags client_json [GotPrivate ''/private/db/push_block/root''] (Running sample_ledger)
     = Running \<lparr>lg_base = 10, lg_blocks = [sample_1, root_block], lg_tip = sample_hash 121,
         lg_parents = (COMB_Chain sample_node)(sample_hash 121 \<mapsto> sample_hash 100)\<rparr>"
    by (simp_all only: serve_all.simps serve.simps client_requests request.case)
      (simp_all add: serves del: fun_upd_apply)
qed

theorem node_follows_events_witness:
  "let run = \<lambda>es. fold_res (node_step plain_mux remote_flags stack_codec client_json log_store (with_wallet plain_libcomb)
         stack_lib) es (with_stacks [] sample_node)
    in (\<exists>s'. run [Posted [1], GotPrivate ''/private/db/push_block/fork'', GotPrivate ''/favicon.ico'', Posted [2],
                  GotPrivate ''/private/db/remove_blocks_after_height/11''] = Inr s'
           \<and> COMB_Hash s' = sample_hash 101 \<and> flushed log_store [sample_1] s' \<and> SI_COMBHeight (GetStatus stack_lib s') = 11)
     \<and> (\<exists>s'. run [GotPrivate ''/private/db/push_block/fork'', GotPrivate ''/private/db/push_block/next''] = Inr s'
           \<and> COMB_Hash s' = zero32 \<and> flushed log_store [sample_1, fork_block] s')
     \<and> (\<exists>s'. run [GotPrivate ''/private/db/push_block/root''] = Inr s'
           \<and> COMB_Hash s' = sample_hash 121 \<and> flushed log_store [sample_1, root_block] s')"
proof -
  let ?s = "with_stacks ([] :: lib_stack list) sample_node"
  have inv: "node_inv log_store (with_wallet plain_libcomb) (\<lambda>l. snd (fst l)) (sample_hash 100) 10 [sample_1, sample_2] ?s"
    by (rule with_stacks_inv [OF sample_inv])
  have fl: "node_mode remote_flags = MID_NODE_REMOTE \<longrightarrow> flushed log_store [sample_1, sample_2] ?s"
    using sample_flushed by (simp add: flushed_def with_stacks_def)
  note follows = node_follows_events [where json_block = client_json and J = stack_codec,
      OF log_store_reliable stacks_chain plain_router.mux_router_axioms inv fl]
  have remote: "node_mode remote_flags = MID_NODE_REMOTE"
    by (simp add: remote_flags_def)
  show ?thesis
    using follows [of "[Posted [1], GotPrivate ''/private/db/push_block/fork'', GotPrivate ''/favicon.ico'', Posted [2],
        GotPrivate ''/private/db/remove_blocks_after_height/11'']"]
      follows [of "[GotPrivate ''/private/db/push_block/fork'', GotPrivate ''/private/db/push_block/next'']"]
      follows [of "[GotPrivate ''/private/db/push_block/root'']"]
    unfolding client_served service.case Let_def by (intro conjI) (auto simp: remote)
qed

subsection \<open>From start to restart\<close>

text \<open>The fingerprints of taken-in blocks are right.\<close>

definition good_blocks :: "ledger \<Rightarrow> bool" where
  "good_blocks g \<longleftrightarrow> list_all good_fingerprint (lg_blocks g)"

lemma return_to_good: "settles (return_to t g) g' \<Longrightarrow> good_blocks g \<Longrightarrow> good_blocks g'"
  using roll_back_take [of t g]
  by (auto simp: settles_def return_to_def good_blocks_def list_all_iff dest: in_set_takeD
      split: option.splits sum.splits)

lemma deliver_good: "settles (deliver d g) g' \<Longrightarrow> good_blocks g \<Longrightarrow> good_blocks g'"
  using return_to_good [of "BD_Previous d" g]
  by (cases "reach_parent (BD_Previous d) g")
    (auto simp: settles_def deliver_def reach_parent_def extend_def good_blocks_def neominer_block_good
      split: if_splits option.splits)

lemma after_good: "(\<And>g'. settles r g' \<Longrightarrow> good_blocks g') \<Longrightarrow> after_request r = Running g \<Longrightarrow> good_blocks g"
  "(\<And>g'. settles r g' \<Longrightarrow> good_blocks g') \<Longrightarrow> after_mined r = Running g \<Longrightarrow> good_blocks g"
  by (cases r; simp add: settles_def)+

lemma serve_good:
  assumes "serve F json_block e g = Running g'" "good_blocks g"
  shows "good_blocks g'"
proof -
  have "after_request (deliver d g) = Running g' \<Longrightarrow> good_blocks g'" "after_mined (deliver d g) = Running g' \<Longrightarrow> good_blocks g'"
    "after_request (remove_from m g) = Running g' \<Longrightarrow> good_blocks g'" for d m
    using after_good deliver_good [OF _ assms(2)] return_to_good [OF _ assms(2)] unfolding remove_from_def by blast+
  with assms show ?thesis
    by (cases e) (auto split: if_splits request.splits sum.splits)
qed

lemma serve_all_good: "serve_all F json_block es (Running g) = Running g' \<Longrightarrow> good_blocks g \<Longrightarrow> good_blocks g'"
proof (induction es arbitrary: g)
  case (Cons e es)
  then show ?case
    by (cases "serve F json_block e g") (auto dest: serve_good)
qed simp

text \<open>A node that is fed from outside has no miner.\<close>

lemma after_request_runs: "after_request r \<noteq> Ended"
  by (cases r) simp_all

lemma remote_never_ends: "node_mode F = MID_NODE_REMOTE \<Longrightarrow> serve_all F json_block es (Running g) \<noteq> Ended"
proof (induction es arbitrary: g)
  case (Cons e es)
  have "serve F json_block e g \<noteq> Ended"
    using Cons.prems after_request_runs by (cases e) (auto simp: node_modes split: request.split sum.split)
  with Cons show ?case
    by (cases "serve F json_block e g") simp_all
qed simp

text \<open>The parents of a chain that was loaded.\<close>

lemma booted_parents:
  "valid_chain cp h bs \<Longrightarrow> maps_chain cp bs (lg_parents (booted cp h bs))
     \<and> dom (lg_parents (booted cp h bs)) = insert cp (blk_hash ` set bs)"
proof (induction bs rule: rev_induct)
  case Nil
  then show ?case by (auto simp: booted_def maps_chain_def valid_chain_def split: if_splits)
next
  case (snoc b bs)
  then have "blk_hash b \<notin> insert zero32 (insert cp (blk_hash ` set bs))"
    by (auto simp: valid_chain_def)
  moreover have "maps_chain cp bs (lg_parents (booted cp h bs))"
    "dom (lg_parents (booted cp h bs)) = insert cp (blk_hash ` set bs)"
    using snoc.IH valid_chain_take [OF snoc.prems] by simp_all
  ultimately show ?case
    using maps_chain_extend by (simp add: booted_snoc insert_commute del: fun_upd_apply)
qed

lemma maps_chain_unique:
  assumes "maps_chain cp bs m" "maps_chain cp bs m'" "dom m = insert cp (blk_hash ` set bs)" "dom m' = dom m"
  shows "m = m'"
proof (rule map_le_antisym)
  show "m \<subseteq>\<^sub>m m'" "m' \<subseteq>\<^sub>m m"
    using assms by (auto simp: map_le_def maps_chain_def)
qed

lemma booted_ledger:
  assumes "node_inv L C loaded cp h bs s" "dom (COMB_Chain s) = insert cp (blk_hash ` set bs)"
  shows "ledger_of h bs s = booted cp h bs"
  using assms booted_parents [of cp h bs] maps_chain_unique [of cp bs "COMB_Chain s"]
  by (auto simp: ledger_of_def booted_def node_inv_def in_memory_def)

lemma main_start_ledger:
  assumes "reliable_store L" "libcomb_chain C loaded"
    and cp: "checkpoint (comb_network F) = Some (cp, h, path)" and d: "open_file path True = Inr d" "db_holds L d (lg_blocks g)"
    and g: "sound g" "good_blocks g"
  shows "if linked cp h (lg_blocks g)
    then \<exists>s. main_start F open_file L C (globals d0 l0) = Inr s
       \<and> in_mind C loaded (booted cp h (lg_blocks g)) s \<and> flushed L (lg_blocks g) s
    else main_start F open_file L C (globals d0 l0) = Inl PanicCorruptionZero"
proof -
  note node = comb_nodeI [OF assms(1,2)]
  obtain s1 where s1: "combcore_init C (comb_network F) (combcore_set_status ''Initializing...'' (globals d0 l0)) = Inr s1"
    "in_memory C loaded cp h [] s1" "COMB_Path s1 = path" "node_db_is_new s1 = node_db_is_new (globals d0 l0)"
    "COMB_Chain s1 = [cp \<mapsto> zero32]"
    by (rule init_result [OF assms(2) cp, of "combcore_set_status ''Initializing...'' (globals d0 l0)"]) simp
  define s2 where "s2 = (combcore_set_status ''Loading...'' (neominer_init s1\<lparr>node_db := d\<rparr>))
      \<lparr>DB_Version := DB_CURRENT_VERSION, DB_InitialLoad := True\<rparr>"
  have mind: "in_mind C loaded (booted cp h []) s2"
    using s1(2,5) by (simp add: in_mind_def in_memory_def booted_def s2_def neominer_init_def combcore_set_status_def)
  have db: "db_holds L (node_db s2) (lg_blocks g)"
    using d(2) by (simp add: s2_def combcore_set_status_def)
  have blocks: "stacked (lg_base g) (lg_blocks g)" "list_all good_fingerprint (lg_blocks g)"
    "list_all (\<lambda>b. blk_hash b \<noteq> zero32) (lg_blocks g)"
    using g by (simp_all add: sound_def good_blocks_def)
  note load = comb_node.load_ledger [OF node db blocks(1) mind blocks(2,3)]
  have start: "db_start L C (combcore_set_status ''Loading...'' (neominer_init s1\<lparr>node_db := d\<rparr>))
      = try_then (db_load L C s2) (\<lambda>s. Inr (s\<lparr>DB_InitialLoad := False\<rparr>))"
    using s1(4) leveldb_store.version_holds [OF reliable_store.axioms(1) [OF assms(1)] d(2)]
    by (simp add: db_start_def s2_def globals_def neominer_init_def combcore_set_status_def)
  have run: "main_start F open_file L C (globals d0 l0)
      = try_then (db_load L C s2) (\<lambda>s. Inr (combcore_set_status ''Idle'' (s\<lparr>DB_InitialLoad := False\<rparr>)))"
    using s1(1,3) d(1) start
    by (cases "db_load L C s2") (simp_all add: main_start_def db_open_def neominer_init_def)
  have "flushed L (lg_blocks g) (combcore_set_status ''Idle'' ((fold (after_block C) (lg_blocks g) s2)\<lparr>DB_InitialLoad := False\<rparr>))"
    using db by (simp add: flushed_def combcore_set_status_def s2_def neominer_init_def)
  with load show ?thesis
    unfolding run by (auto simp: in_mind_def combcore_set_status_def)
qed

text \<open>
  C4. The life of a node that is fed from outside: from Go's zero values \<open>main\<close> opens and loads the
  stored chain; then anything is pushed, removed or asked for; and after any of it the process may die
  and be started again on its database as it is. Nothing that arrives ends the program, and the
  restart is decided by the ledger of those events: when its blocks are linked from the checkpoint on,
  the node comes back with all of them, in memory, in the library and on disk, also when a panic had
  left it stuck at the zero hash; and when a push has put a block on top of one that is not its parent
  - on the first block for the checkpoint, or on any block for the zero hash - every start panics. The
  specification is silent only where it is about a single event.
\<close>

theorem remote_node_lifecycle:
  assumes "reliable_store L" "wallet_chain C loaded WL" "mux_router M"
    and "node_mode F = MID_NODE_REMOTE" "checkpoint (comb_network F) = Some (cp, h, path)"
    and "opens L open_file path bs" "valid_chain cp h bs" "list_all good_fingerprint bs"
  shows "\<exists>s. main_start F open_file L C (globals d l) = Inr s
    \<and> (case serve_all F json_block es (Running (booted cp h bs)) of
         Running g \<Rightarrow> \<exists>s'. fold_res (node_step M F J json_block L C WL) es s = Inr s'
           \<and> (\<forall>reopen_file l'. reopen_file path True = Inr (node_db s') \<longrightarrow>
                (if linked cp h (lg_blocks g)
                 then \<exists>s''. main_start F reopen_file L C (globals d l') = Inr s''
                    \<and> in_mind C loaded (booted cp h (lg_blocks g)) s'' \<and> flushed L (lg_blocks g) s''
                 else main_start F reopen_file L C (globals d l') = Inl PanicCorruptionZero))
       | Ended \<Rightarrow> False
       | Unspecified \<Rightarrow> True)"
proof -
  have lib: "libcomb_chain C loaded" and node: "comb_node L C loaded"
    using assms(1,2) by (auto intro: comb_nodeI simp: wallet_chain_def)
  have fresh: "\<not> COMB_StatusLock (globals d l)" "\<not> node_db_is_new (globals d l)"
    by (simp_all add: globals_def)
  obtain s where s: "main_start F open_file L C (globals d l) = Inr s" "node_inv L C loaded cp h bs s" "flushed L bs s"
    "dom (COMB_Chain s) = insert cp (blk_hash ` set bs)"
    by (rule comb_node.start_establishes [OF node assms(5-8) fresh])
  have "holds F L C loaded (booted cp h bs) s" "good_blocks (booted cp h bs)"
    using s(3) assms(8) node_inv_keeps [OF s(2)]
    by (simp_all add: holds_def booted_ledger [OF s(2,4)]) (simp_all add: booted_def good_blocks_def)
  note run = events_describe [OF node assms(2,3) this(1), of json_block es J] and good = serve_all_good [OF _ this(2)]
  show ?thesis
  proof (cases "serve_all F json_block es (Running (booted cp h bs))")
    case (Running g)
    with run obtain s' where s': "fold_res (node_step M F J json_block L C WL) es s = Inr s'" "holds F L C loaded g s'"
      by auto
    then have db: "db_holds L (node_db s') (lg_blocks g)" "sound g"
      using assms(4) by (simp_all add: holds_def keeps_def flushed_def)
    note restart = main_start_ledger [OF assms(1) lib assms(5) _ db good [OF Running]]
    with s(1) s'(1) Running show ?thesis by auto
  next
    case Ended
    with remote_never_ends [OF assms(4)] show ?thesis by blast
  qed (use s(1) in simp)
qed

text \<open>The example of \<open>Main_Correct\<close>, fed from outside and with a wallet.\<close>

definition root_data :: BlockData where
  "root_data = \<lparr>BD_Hash = sample_hash 121, BD_Previous = test_cp, BD_Commits = []\<rparr>"

definition base_json :: "string \<Rightarrow> go_error + BlockData" where
  "base_json text = (if text = ''root'' then Inr root_data else sample_json text)"

lemma base_delivers:
  "deliver (sample_data 103 102 []) (booted test_cp 0 [base_block])
     = Accepted (booted test_cp 0 [base_block, neominer_block (sample_data 103 102 []) 2])"
  "deliver root_data (booted test_cp 0 [base_block])
     = Accepted (extend root_data ((booted test_cp 0 [base_block])\<lparr>lg_tip := test_cp\<rparr>))"
  using test_cp_fresh test_cp_other test_cp_32
  by (simp_all add: deliver_def data_ok_def sample_data_def root_data_def extend_def booted_def base_block_def tip_def
      walk_defs)

lemma base_served:
  "serve_all (test_flags\<lparr>node_mode := MID_NODE_REMOTE\<rparr>) base_json
     [Posted [1], GotPrivate ''/private/db/push_block/next''] (Running (booted test_cp 0 [base_block]))
   = Running (booted test_cp 0 [base_block, neominer_block (sample_data 103 102 []) 2])"
  "serve_all (test_flags\<lparr>node_mode := MID_NODE_REMOTE\<rparr>) base_json
     [GotPrivate ''/private/db/push_block/root''] (Running (booted test_cp 0 [base_block]))
   = Running (extend root_data ((booted test_cp 0 [base_block])\<lparr>lg_tip := test_cp\<rparr>))"
  by (simp_all add: client_requests base_json_def sample_json_def base_delivers)

lemma base_linked:
  "linked test_cp 0 (lg_blocks (booted test_cp 0 [base_block, neominer_block (sample_data 103 102 []) 2]))"
  "\<not> linked test_cp 0 (lg_blocks (extend root_data ((booted test_cp 0 [base_block])\<lparr>lg_tip := test_cp\<rparr>)))"
  using test_cp_fresh by (simp_all add: booted_def extend_def base_block_def neominer_block_def sample_data_def root_data_def)

theorem remote_node_lifecycle_witness:
  "\<exists>s. main_start (test_flags\<lparr>node_mode := MID_NODE_REMOTE\<rparr>) base_file log_store (with_wallet plain_libcomb)
        (globals [] ((0, []), [] :: lib_stack list)) = Inr s
    \<and> (\<exists>s' s''. fold_res (node_step plain_mux (test_flags\<lparr>node_mode := MID_NODE_REMOTE\<rparr>) stack_codec base_json log_store
           (with_wallet plain_libcomb) stack_lib) [Posted [1], GotPrivate ''/private/db/push_block/next''] s = Inr s'
        \<and> main_start (test_flags\<lparr>node_mode := MID_NODE_REMOTE\<rparr>) (\<lambda>_ _. Inr (node_db s')) log_store
            (with_wallet plain_libcomb) (globals [] ((0, []), [] :: lib_stack list)) = Inr s''
        \<and> flushed log_store [base_block, neominer_block (sample_data 103 102 []) 2] s'')
    \<and> (\<exists>s'. fold_res (node_step plain_mux (test_flags\<lparr>node_mode := MID_NODE_REMOTE\<rparr>) stack_codec base_json log_store
           (with_wallet plain_libcomb) stack_lib) [GotPrivate ''/private/db/push_block/root''] s = Inr s'
        \<and> main_start (test_flags\<lparr>node_mode := MID_NODE_REMOTE\<rparr>) (\<lambda>_ _. Inr (node_db s')) log_store
            (with_wallet plain_libcomb) (globals [] ((0, []), [] :: lib_stack list)) = Inl PanicCorruptionZero)"
proof -
  let ?F = "test_flags\<lparr>node_mode := MID_NODE_REMOTE\<rparr>" and ?l = "((0, []), []) :: (u64 \<times> hash256 list list) \<times> lib_stack list"
  have cp: "checkpoint (comb_network ?F) = Some (test_cp, 0, ''commits_testnet'')"
    by (simp add: test_flags_def test_checkpoint test_cp_def)
  have remote: "node_mode ?F = MID_NODE_REMOTE" by simp
  note life = remote_node_lifecycle [where json_block = base_json and J = stack_codec and d = "[]" and l = ?l,
      OF log_store_reliable stacks_chain plain_router.mux_router_axioms remote cp base_opens base_chain]
  obtain s where s: "main_start ?F base_file log_store (with_wallet plain_libcomb) (globals [] ?l) = Inr s"
    using life [of "[]"] by blast
  let ?run = "\<lambda>es. fold_res (node_step plain_mux ?F stack_codec base_json log_store (with_wallet plain_libcomb) stack_lib) es s"
  let ?g = "booted test_cp 0 [base_block, neominer_block (sample_data 103 102 []) 2]"
  obtain s1 where s1: "?run [Posted [1], GotPrivate ''/private/db/push_block/next''] = Inr s1"
    and again: "\<forall>reopen_file (l' :: _ \<times> lib_stack list). reopen_file ''commits_testnet'' True = Inr (node_db s1) \<longrightarrow>
      (\<exists>s''. main_start ?F reopen_file log_store (with_wallet plain_libcomb) (globals [] l') = Inr s''
        \<and> flushed log_store (lg_blocks ?g) s'')"
    using life [of "[Posted [1], GotPrivate ''/private/db/push_block/next'']", unfolded s sum.inject base_served service.case
        if_P [OF base_linked(1)]]
    by blast
  obtain s2 where s2: "?run [GotPrivate ''/private/db/push_block/root''] = Inr s2"
    and never: "\<forall>reopen_file (l' :: _ \<times> lib_stack list). reopen_file ''commits_testnet'' True = Inr (node_db s2) \<longrightarrow>
      main_start ?F reopen_file log_store (with_wallet plain_libcomb) (globals [] l') = Inl PanicCorruptionZero"
    using life [of "[GotPrivate ''/private/db/push_block/root'']", unfolded s sum.inject base_served service.case
        if_not_P [OF base_linked(2)]]
    by blast
  have "lg_blocks ?g = [base_block, neominer_block (sample_data 103 102 []) 2]"
    by (simp add: booted_def)
  with s s1 s2 again [rule_format, of "\<lambda>_ _. Inr (node_db s1)" ?l, OF refl]
    never [rule_format, of "\<lambda>_ _. Inr (node_db s2)" ?l, OF refl]
  show ?thesis by auto
qed

end
