(* ===== verification/Spec2Isabelle.thy ===== *)
theory Spec2Isabelle
  imports Main_Correct Rest_Trace Shutdown Load_Race Service
begin

text \<open>
  \<^bold>\<open>A verification library for combcore\<close>, the node of the Haircomb network. The program follows
  a Bitcoin node, takes from every Bitcoin block the witness programs of its outputs (the
  commits), loads them into the library \<open>libcomb\<close> and keeps them in a LevelDB database; a
  JSON-RPC interface and a few HTTP endpoints serve a wallet and block explorers from there.

  \<^bold>\<open>The parts and how they interact.\<close> \<open>main\<close> initialises the network (\<open>combcore_init\<close>), opens and
  loads the database (\<open>db_open\<close>, \<open>db_start\<close>) and then, in a full node, calls \<open>btc_sync\<close> for ever.
  That asks the Bitcoin node for its best block and traces it back to a known one, over REST or
  in Bitcoin's block files; the blocks on the way go through a channel to the miner
  (\<open>neominer_process_block\<close>), which collects their records in a batch, loads their commits, and
  starts \<open>combcore_reorg\<close> when a block does not extend the tip. A remote node gets its blocks from
  \<open>push_block\<close> instead. The state all of them share is one record, \<open>node\<close>, passed through every
  operation; a field's prefix is the Go struct it belongs to. The chain is in it four times:
  height, tip and child-to-parent map in \<open>COMBInfo\<close>, the commits in \<open>libcomb\<close>, the records in the
  database, and the batch that is not yet written. That these agree is the central invariant,
  \<open>node_inv\<close>.

  \<^bold>\<open>Theories and sources.\<close>
  \<^item> \<open>Prelude\<close>, \<open>Byte_Order\<close>, \<open>Sha256\<close>: byte slices with Go's bounds panics, results, sorted
    association lists; \<open>encoding/binary\<close>; \<open>crypto/sha256\<close>, evaluated in \<open>Sha256_Eval\<close>.
  \<^item> \<open>Util\<close>: \<open>util.go\<close>. \<open>Config\<close>: \<open>config.go\<close>.
  \<^item> \<open>LevelDB\<close>, \<open>Libcomb\<close>: the interfaces of the two libraries; \<open>Sample_Lib\<close> an instance.
  \<^item> \<open>DB\<close>, \<open>DB_Load\<close>: \<open>db.go\<close>. \<open>DB_Layout\<close> says what a database with a given list of blocks
    contains (\<open>db_holds\<close>); \<open>DB_Correct\<close> has the properties of its operations.
  \<^item> \<open>Combcore\<close>: \<open>combcore.go\<close>. \<open>Neominer\<close>: \<open>neominer.go\<close>. \<open>Chain\<close> and \<open>Ingest\<close> prove that taking
    blocks in keeps \<open>node_inv\<close>, \<open>Startup\<close> that loading establishes it; \<open>Node_Correct\<close> has the
    refinement of the specification \<open>chain_step\<close>, \<open>Node_Limits\<close> the cases the program does not
    survive, \<open>Load_Race\<close> the recovery that runs beside the start, \<open>Crash\<close> the disks between any two
    writes of a delivery, observed by a store that keeps a journal. \<open>Ledger\<close> is the specification of a
    node that is given anything at all: total functions on a list of blocks, a tip and the known
    parents; \<open>Ledger_Node\<close> proves that every operation implements it, panics included.
  \<^item> \<open>Shutdown\<close>: \<open>setup_graceful_shutdown\<close> of \<open>combcore.go\<close> and the critical section of \<open>db_write\<close>,
    as goroutines that take their steps in any order.
  \<^item> \<open>Btc\<close>, \<open>Btc_Rest\<close>, \<open>Btc_Direct\<close>, \<open>Btc_Sync\<close>: \<open>btc.go\<close>, \<open>btc_rest.go\<close>, \<open>btc_direct.go\<close>.
    \<open>Btc_Correct\<close> shows that the parser inverts Bitcoin's block format, \<open>Tracing\<close> and
    \<open>Sync_Correct\<close> that a synchronisation brings the node to the peer's chain, \<open>Rest_Trace\<close>
    when its first phase ends.
  \<^item> \<open>Wallet\<close>, \<open>Wallet_Correct\<close>: \<open>wallet.go\<close>. \<open>Control\<close>, \<open>Control_Correct\<close>: \<open>control.go\<close>.
    \<open>Ghetto_Api\<close>, \<open>Ghetto_Correct\<close>: \<open>ghettoapi.go\<close>; \<open>Recovered_Panics\<close>: the state its private
    endpoints leave when \<open>net/http\<close> recovers their panic; \<open>Ghetto_Server\<close>, \<open>Http_Correct\<close>: its
    two servers, their routes and what a path is answered with.
  \<^item> \<open>Rpc_Server\<close>: \<open>rpc.go\<close>, with the methods that \<open>net/rpc\<close> finds in \<open>Control\<close>; \<open>Rpc\<close> and
    \<open>Rpc_Dispatch\<close>: what a request can change.
  \<^item> \<open>Service\<close>: all events that reach a running node, one after the other, and what they make of the
    ledger (\<open>serve\<close>); and a remote node from one start to the next.
  \<^item> \<open>Combcore_Main\<close>, \<open>Main_Correct\<close>: \<open>main.go\<close>.

  \<^bold>\<open>Interfaces.\<close> \<open>leveldb_store\<close> states the documented order and batch semantics of LevelDB,
  \<open>reliable_store\<close> adds that operations succeed, \<open>reusing_store\<close> what \<open>goleveldb\<close> does with the
  buffer of a value but does not document, so that properties only use it for the answer that
  needs it (\<open>db_get_full_block_by_height\<close>; \<open>slices\<close> is that answer on any store); they are
  interpreted on a log-structured store. \<open>libcomb_chain\<close> states that loading and unloading blocks
  are push and pop, \<open>wallet_chain\<close> that wallet operations leave the blocks alone. \<open>comb_node\<close>
  joins a store and a library, and carries the lemmas on the node. \<open>tracer\<close> is what the two
  sources of blocks share, interpreted on both; \<open>construct_format\<close> what the six text formats of
  the wallet share, interpreted on each. \<open>mux_router\<close> states how \<open>gorilla/mux\<close> matches the
  patterns of the program; it is interpreted on a plain matcher. The laws describe third-party
  code; a property that needs them has them as hypotheses and is applied to a concrete store and
  library by its witness.

  \<^bold>\<open>What is proved.\<close> Blocks: the database gives back what was stored, removes what it should, and
  its lookups are characterised on hits and misses. Node: any run of extensions and
  reorganisations keeps the four copies together and refines \<open>chain_step\<close>; from the disk between
  any two writes, inside a reorganisation too, a restart comes back to the chain but for what the
  batch can hold; a termination signal stops between two whole writes. Synchronisation: whole
  rounds over REST and from any number of files, interrupted rounds and how they are resumed, and
  everything served is checked against its hash. Parser: it inverts Bitcoin's format, and on any
  bytes every commit it returns is in those bytes, where a script has it. Start: the first round
  of \<open>main\<close> from an empty or filled database. Wallet and interfaces: round trips of every
  construct through text, proofs of deciders, pushed and removed blocks, sorted commits. Service:
  any sequence of mined blocks, writes, bytes posted to the RPC server and requests to the private
  address leaves what \<open>serve\<close> computes, up to the next restart and through it; the specification
  is a function, silent only about a block with the zero hash (which the node stores and does not
  load) or with more commits than a record can count, heights at the limit of 64 bits and a walk
  along the parents without end. A pushed block is what the public address answers with. Several
  properties state where the program fails on inputs it should survive; the manifest lists them as
  findings.

  \<^bold>\<open>Bounds.\<close> Integers have Go's widths and wrap. Loops without a bound of their own
  (\<open>trace_back\<close>, \<open>unload_to\<close>, the traces) are partial functions whose value \<open>None\<close> is a loop that
  never ends; the properties prove that they return. There is no fuel: the file parser, the
  decimal printer and the reversal of a slice have a measure, the others are structural.
  Block files share one buffer of 128 MB that is kept with its
  stale bytes. \<open>full_node_rounds\<close> is any finite number of rounds of the endless loop.

  \<^bold>\<open>Not modelled.\<close> JSON texts and the router are parameters (\<open>json_codec\<close>, \<open>mux_router\<close>), a
  listening socket is the answer of \<open>net.Listen\<close>, and a server that fails while it serves is left
  out; \<open>gorilla/mux\<close> redirects a client whose path is not clean, the model starts at the clean
  path; logging, except for the lines of \<open>neominer_inspect\<close>; \<open>db_close\<close>, which nothing calls; the
  mutexes of the endpoints and of \<open>libcomb\<close>, so that an operation of the node is one step outside
  \<open>Shutdown\<close> and \<open>Load_Race\<close> and the disk in \<open>Crash\<close>; a signal before the database is open; the
  parsing of \<open>config.ini\<close> and of flags; the formatting of percentages; the capacity of slices,
  which is their length except for the block buffer.
\<close>

end
